(* ===== verification/S3_Prelude.thy ===== *)
theory S3_Prelude
  imports Main "HOL-Library.Word"
begin

section \<open>Prelude: machine integers, error codes and shared lemmas\<close>

text \<open>
  Everything the component theories share.
  \<^item> The C integer types: \<open>uint8_t\<close>, \<open>uint16_t\<close>, \<open>uint32_t\<close>, \<open>uint64_t\<close> are words of that
    width, so that addition, subtraction and multiplication wrap as in C; \<open>size_t\<close> is a
    64-bit word (the library is modelled on a 64-bit platform).
  \<^item> The error codes the modelled code raises, as one datatype; a fallible function returns
    \<open>aws_error + 'a\<close>, \<open>Inl\<close> for \<open>AWS_OP_ERR\<close> with the raised code.
  \<^item> The collection \<open>u_arith\<close>: facts that move a comparison, a sum, a difference, a quotient
    or a remainder of words to \<open>nat\<close>, under the side condition that it does not wrap.
\<close>

subsection \<open>Integer types\<close>

type_synonym u8 = "8 word"
type_synonym u16 = "16 word"
type_synonym u32 = "32 word"
type_synonym u64 = "64 word"
type_synonym usize = "64 word"

abbreviation U32_MAX :: u32 where "U32_MAX \<equiv> - 1"
abbreviation U64_MAX :: u64 where "U64_MAX \<equiv> - 1"

subsection \<open>Size macros of \<^verbatim>\<open>s3_util.h\<close>\<close>

definition KB_TO_BYTES :: "u64 \<Rightarrow> u64" where
  "KB_TO_BYTES kb = kb * 1024"

definition MB_TO_BYTES :: "u64 \<Rightarrow> u64" where
  "MB_TO_BYTES mb = mb * 1024 * 1024"

definition GB_TO_BYTES :: "u64 \<Rightarrow> u64" where
  "GB_TO_BYTES gb = gb * 1024 * 1024 * 1024"

definition TB_TO_BYTES :: "u64 \<Rightarrow> u64" where
  "TB_TO_BYTES tb = tb * 1024 * 1024 * 1024 * 1024"

lemmas TO_BYTES_defs = KB_TO_BYTES_def MB_TO_BYTES_def GB_TO_BYTES_def TB_TO_BYTES_def

subsection \<open>Error codes\<close>

datatype aws_error =
    AWS_ERROR_SUCCESS
  | AWS_ERROR_UNKNOWN
  | AWS_ERROR_INVALID_ARGUMENT
  | AWS_ERROR_INVALID_STATE
  | AWS_ERROR_SHORT_BUFFER
  | AWS_ERROR_STRING_MATCH_NOT_FOUND
  | AWS_ERROR_OVERFLOW_DETECTED
  | AWS_ERROR_UNSUPPORTED_OPERATION
  | AWS_ERROR_STREAM_UNSEEKABLE
  | AWS_ERROR_INVALID_BUFFER_SIZE
  | AWS_ERROR_INVALID_XML
  | AWS_ERROR_FILE_WRITE_FAILURE
  | AWS_ERROR_HTTP_HEADER_NOT_FOUND
  | AWS_ERROR_HTTP_RESPONSE_FIRST_BYTE_TIMEOUT
  | AWS_IO_SOCKET_INVALID_OPTIONS
  | AWS_IO_RETRY_PERMISSION_DENIED
  | AWS_IO_DNS_INVALID_NAME
  | AWS_ERROR_S3_MISSING_CONTENT_RANGE_HEADER
  | AWS_ERROR_S3_INVALID_CONTENT_RANGE_HEADER
  | AWS_ERROR_S3_MISSING_CONTENT_LENGTH_HEADER
  | AWS_ERROR_S3_INVALID_CONTENT_LENGTH_HEADER
  | AWS_ERROR_S3_MISSING_ETAG
  | AWS_ERROR_S3_INTERNAL_ERROR
  | AWS_ERROR_S3_SLOW_DOWN
  | AWS_ERROR_S3_INVALID_RESPONSE_STATUS
  | AWS_ERROR_S3_MISSING_UPLOAD_ID
  | AWS_ERROR_S3_PROXY_PARSE_FAILED
  | AWS_ERROR_S3_UNSUPPORTED_PROXY_SCHEME
  | AWS_ERROR_S3_CANCELED
  | AWS_ERROR_S3_INVALID_RANGE_HEADER
  | AWS_ERROR_S3_MULTIRANGE_HEADER_UNSUPPORTED
  | AWS_ERROR_S3_RESPONSE_CHECKSUM_MISMATCH
  | AWS_ERROR_S3_CHECKSUM_CALCULATION_FAILED
  | AWS_ERROR_S3_PAUSED
  | AWS_ERROR_S3_LIST_PARTS_PARSE_FAILED
  | AWS_ERROR_S3_RESUMED_PART_CHECKSUM_MISMATCH
  | AWS_ERROR_S3_RESUME_FAILED
  | AWS_ERROR_S3_OBJECT_MODIFIED
  | AWS_ERROR_S3_NON_RECOVERABLE_ASYNC_ERROR
  | AWS_ERROR_S3_METRIC_DATA_NOT_AVAILABLE
  | AWS_ERROR_S3_INCORRECT_CONTENT_LENGTH
  | AWS_ERROR_S3_REQUEST_TIME_TOO_SKEWED
  | AWS_ERROR_S3_FILE_MODIFIED
  | AWS_ERROR_S3_EXCEEDS_MEMORY_LIMIT
  | AWS_ERROR_S3_INVALID_MEMORY_LIMIT_CONFIG
  | AWS_ERROR_S3EXPRESS_CREATE_SESSION_FAILED
  | AWS_ERROR_S3_INTERNAL_BUFFER_SIZE_MISMATCH_RETRYING_WITH_RANGE
  | AWS_ERROR_S3_REQUEST_HAS_COMPLETED
  | AWS_ERROR_S3_RECV_FILE_ALREADY_EXISTS
  | AWS_ERROR_S3_RECV_FILE_NOT_FOUND
  | AWS_ERROR_S3_REQUEST_TIMEOUT
  | AWS_ERROR_S3_BUFFER_ALLOCATION_FAILED
  | AWS_ERROR_S3_PART_SIZE_EXCEEDS_MEMORY_LIMIT
  | AWS_ERROR_OTHER nat \<comment> \<open>a code of another library, passed through\<close>

type_synonym 'a result = "aws_error + 'a"

subsection \<open>Size arithmetic of aws-c-common\<close>

text \<open>
  The checked and saturating operations the code calls are functions of another library. They
  are a parameter of every definition that uses them.
\<close>

record aws_math =
  aws_add_size_checked :: "usize \<Rightarrow> usize \<Rightarrow> usize option"
  aws_add_size_saturating :: "usize \<Rightarrow> usize \<Rightarrow> usize"
  aws_sub_size_saturating :: "usize \<Rightarrow> usize \<Rightarrow> usize"
  aws_mul_u64_saturating :: "u64 \<Rightarrow> u64 \<Rightarrow> u64"
  aws_add_u64_saturating :: "u64 \<Rightarrow> u64 \<Rightarrow> u64"
  aws_add_u64_checked :: "u64 \<Rightarrow> u64 \<Rightarrow> u64 option"
  aws_sub_u64_checked :: "u64 \<Rightarrow> u64 \<Rightarrow> u64 option"
  aws_mul_u64_checked :: "u64 \<Rightarrow> u64 \<Rightarrow> u64 option"

text \<open>
  What aws-c-common documents of these operations, and an instance for the examples.
\<close>

definition math_ok :: "aws_math \<Rightarrow> bool" where
  "math_ok M \<longleftrightarrow>
     (\<forall>a b. aws_add_u64_checked M a b = (if unat a + unat b < 2 ^ 64 then Some (a + b) else None)) \<and>
     (\<forall>a b. aws_sub_u64_checked M a b = (if b \<le> a then Some (a - b) else None)) \<and>
     (\<forall>a b. aws_add_u64_saturating M a b = (if unat a + unat b < 2 ^ 64 then a + b else - 1)) \<and>
     (\<forall>a b. aws_mul_u64_saturating M a b = (if unat a * unat b < 2 ^ 64 then a * b else - 1)) \<and>
     (\<forall>a b. aws_mul_u64_checked M a b = (if unat a * unat b < 2 ^ 64 then Some (a * b) else None))"

definition example_math :: aws_math where
  "example_math = \<lparr>
     aws_add_size_checked = (\<lambda>a b. if unat a + unat b < 2 ^ 64 then Some (a + b) else None),
     aws_add_size_saturating = (\<lambda>a b. if unat a + unat b < 2 ^ 64 then a + b else - 1),
     aws_sub_size_saturating = (\<lambda>a b. if a \<le> b then 0 else a - b),
     aws_mul_u64_saturating = (\<lambda>a b. if unat a * unat b < 2 ^ 64 then a * b else - 1),
     aws_add_u64_saturating = (\<lambda>a b. if unat a + unat b < 2 ^ 64 then a + b else - 1),
     aws_add_u64_checked = (\<lambda>a b. if unat a + unat b < 2 ^ 64 then Some (a + b) else None),
     aws_sub_u64_checked = (\<lambda>a b. if b \<le> a then Some (a - b) else None),
     aws_mul_u64_checked = (\<lambda>a b. if unat a * unat b < 2 ^ 64 then Some (a * b) else None)\<rparr>"

lemma example_math_ok: "math_ok example_math"
  by (simp add: math_ok_def example_math_def)

subsection \<open>Words without wrap-around\<close>

named_theorems u_arith \<open>word operations read as natural numbers\<close>

lemmas unat_order [u_arith] = word_le_nat_alt word_less_nat_alt word_unat_eq_iff

lemma unat_add_nowrap [u_arith]:
  fixes a b :: "'a::len word"
  shows "unat a + unat b < 2 ^ LENGTH('a) \<Longrightarrow> unat (a + b) = unat a + unat b"
  by (simp add: unat_word_ariths)

lemma unat_mult_nowrap [u_arith]:
  fixes a b :: "'a::len word"
  shows "unat a * unat b < 2 ^ LENGTH('a) \<Longrightarrow> unat (a * b) = unat a * unat b"
  by (simp add: unat_word_ariths)

lemma unat_sub_nowrap [u_arith]:
  fixes a b :: "'a::len word"
  shows "unat b \<le> unat a \<Longrightarrow> unat (a - b) = unat a - unat b"
  by (simp add: unat_sub word_le_nat_alt)

lemma unat_inc_nowrap:
  fixes a :: "'a::len word"
  shows "a < b \<Longrightarrow> unat (a + 1) = unat a + 1"
proof -
  assume "a < b"
  then have "unat a < unat b" by (simp add: word_less_nat_alt)
  moreover have "unat b < 2 ^ LENGTH('a)" by simp
  ultimately have "unat a + 1 < 2 ^ LENGTH('a)" by linarith
  then show ?thesis by (simp add: unat_word_ariths)
qed

lemma inc_le_of_less:
  fixes a :: "'a::len word"
  shows "a < b \<Longrightarrow> a + 1 \<le> b"
  by (rule inc_le)

lemma unat_lt2p64: "unat (a :: 64 word) < 18446744073709551616"
  using unsigned_less [of a, where ?'a = nat] by simp

lemma unat_lt2p32: "unat (a :: 32 word) < 4294967296"
  using unsigned_less [of a, where ?'a = nat] by simp

text \<open>Reading a 64-bit value as a 32-bit one, the C cast \<open>(uint32_t)\<close>, keeps small values.\<close>

lemma unat_u32_of_u64:
  "unat (a :: u64) < 4294967296 \<Longrightarrow> unat (ucast a :: u32) = unat a"
  by (simp add: unsigned_ucast_eq take_bit_nat_eq_self)

lemma unat_u64_of_u32 [simp]: "unat (ucast (a :: u32) :: u64) = unat a"
  by (simp add: unsigned_ucast_eq take_bit_nat_eq_self order_less_trans [OF unat_lt2p32])

subsection \<open>Ceiling division\<close>

definition div_ceil :: "nat \<Rightarrow> nat \<Rightarrow> nat" where
  "div_ceil n d = n div d + (if n mod d > 0 then 1 else 0)"

lemma div_ceil_mult_ge: "n \<le> div_ceil n d * d" if "d > 0"
proof -
  have "n div d * d + n mod d = n" by (rule div_mult_mod_eq)
  moreover have "n mod d < d" using that by simp
  ultimately have "n \<le> n div d * d + d" and "n mod d = 0 \<Longrightarrow> n \<le> n div d * d"
    by linarith+
  then show ?thesis by (simp add: div_ceil_def add.commute)
qed

lemma div_ceil_less_mult: "k < div_ceil n d \<longleftrightarrow> k * d < n" if "d > 0"
proof
  assume "k < div_ceil n d"
  show "k * d < n"
  proof (cases "n mod d > 0")
    case True
    with \<open>k < div_ceil n d\<close> have "k \<le> n div d" by (simp add: div_ceil_def)
    then have "k * d \<le> n div d * d" by simp
    also have "\<dots> < n" using True by (metis div_mult_mod_eq less_add_same_cancel1)
    finally show ?thesis .
  next
    case False
    with \<open>k < div_ceil n d\<close> have "k < n div d" by (simp add: div_ceil_def)
    then have "k * d < n div d * d" using that by simp
    then show ?thesis using div_times_less_eq_dividend [of n d] by (meson order_less_le_trans)
  qed
next
  assume "k * d < n"
  then show "k < div_ceil n d"
    by (metis div_ceil_mult_ge mult_le_mono1 not_le order_le_less_trans that)
qed

lemma div_ceil_bound: "div_ceil n d \<le> m" if "n \<le> m * d" "d > 0"
  by (metis div_ceil_less_mult leD leI that)

subsection \<open>Loops that change the first element they accept\<close>

text \<open>
  A C loop over an array that updates the first entry it accepts and then breaks: \<open>f\<close> gives the
  updated entry and a result, or \<open>None\<close> where the loop goes on.
\<close>

fun update_first :: "('a \<Rightarrow> ('a \<times> 'b) option) \<Rightarrow> 'a list \<Rightarrow> ('a list \<times> 'b) option" where
  "update_first f [] = None"
| "update_first f (x # xs) =
     (case f x of
        Some (x', r) \<Rightarrow> Some (x' # xs, r)
      | None \<Rightarrow> map_option (\<lambda>(xs', r). (x # xs', r)) (update_first f xs))"

lemma update_first_None_iff: "update_first f xs = None \<longleftrightarrow> (\<forall>x\<in>set xs. f x = None)"
  by (induction xs) (auto split: option.splits)

lemma update_first_SomeE:
  assumes "update_first f xs = Some (ys, r)"
  obtains us x x' vs where "xs = us @ x # vs" "f x = Some (x', r)" "ys = us @ x' # vs"
proof -
  have "\<exists>us x x' vs. xs = us @ x # vs \<and> f x = Some (x', r) \<and> ys = us @ x' # vs"
    using assms
  proof (induction xs arbitrary: ys)
    case (Cons a xs)
    show ?case
    proof (cases "f a")
      case (Some q)
      with Cons.prems have "f a = Some (fst q, r) \<and> ys = [] @ fst q # xs" by (auto split: prod.splits)
      then show ?thesis by (metis append_Nil)
    next
      case None
      with Cons.prems obtain zs where "update_first f xs = Some (zs, r)" "ys = a # zs" by auto
      with Cons.IH obtain us x x' vs where "xs = us @ x # vs" "f x = Some (x', r)" "ys = (a # us) @ x' # vs"
        by fastforce
      then show ?thesis by (metis append_Cons)
    qed
  qed simp
  then show thesis using that by blast
qed

subsection \<open>Transition systems and their invariants\<close>

text \<open>
  The states a system can reach from its initial states. The interface of a component is a step
  relation; \<open>invariant_of\<close> is what a component has to show of its initial states and of each
  call for a property to hold after every sequence of calls.
\<close>

inductive reach :: "('s \<Rightarrow> bool) \<Rightarrow> ('s \<Rightarrow> 's \<Rightarrow> bool) \<Rightarrow> 's \<Rightarrow> bool" for initial step where
  reach_init: "initial s \<Longrightarrow> reach initial step s"
| reach_step: "reach initial step s \<Longrightarrow> step s s' \<Longrightarrow> reach initial step s'"

locale invariant_of =
  fixes initial :: "'s \<Rightarrow> bool" and step :: "'s \<Rightarrow> 's \<Rightarrow> bool" and inv :: "'s \<Rightarrow> bool"
  assumes initially: "initial s \<Longrightarrow> inv s"
    and preserved: "step s s' \<Longrightarrow> inv s \<Longrightarrow> inv s'"
begin

lemma invariant: "reach initial step s \<Longrightarrow> inv s"
  by (induction rule: reach.induct) (auto intro: initially preserved)

lemma invariant_steps: "step\<^sup>*\<^sup>* s s' \<Longrightarrow> inv s \<Longrightarrow> inv s'"
  by (induction rule: rtranclp_induct) (auto intro: preserved)

end

end
