(* ===== verification/S3_Ranges.thy ===== *)
theory S3_Ranges
  imports S3_Prelude
begin

section \<open>Ranges and part sizes (\<^verbatim>\<open>source/s3_util.c\<close>)\<close>

text \<open>
  The arithmetic that cuts an object into parts: how many ranged gets cover a byte range and
  which bytes each of them asks for, the part size and part count of a multipart upload, and
  the part sizes the client derives from its memory limit. All values keep their C width, so
  every sum, difference and cast below wraps or truncates exactly where the C code does.

  The lemmas show that the ranged gets tile the object range (every byte in exactly one
  part, C1), that an upload's parts cover its content within the service's limit of 10,000
  parts (C2), and that the derived part sizes stay within the service's bounds (C3).
\<close>

subsection \<open>Constants\<close>

definition g_s3_max_num_upload_parts :: u32 where
  "g_s3_max_num_upload_parts = 10000"

definition g_s3_min_upload_part_size :: usize where
  "g_s3_min_upload_part_size = MB_TO_BYTES 5"

definition g_default_part_size_fallback :: u64 where
  "g_default_part_size_fallback = MB_TO_BYTES 8"

definition g_default_max_part_size :: u64 where
  "g_default_max_part_size = 5368709120"

definition s_optimal_range_size_memory_divisor :: u32 where
  "s_optimal_range_size_memory_divisor = 3"

definition g_s3express_connection_limitation :: u32 where
  "g_s3express_connection_limitation = 75"

definition g_s3express_connection_limitation_part_size_threshold :: u64 where
  "g_s3express_connection_limitation_part_size_threshold = 5368709120 div 75"

definition g_s3express_connection_limitation_object_size_threshold :: u64 where
  "g_s3express_connection_limitation_object_size_threshold = TB_TO_BYTES 4"

subsection \<open>Ranged gets\<close>

definition aws_s3_calculate_auto_ranged_get_num_parts :: "usize \<Rightarrow> u64 \<Rightarrow> u64 \<Rightarrow> u64 \<Rightarrow> u32" where
  "aws_s3_calculate_auto_ranged_get_num_parts part_size first_part_size object_range_start object_range_end =
     (let num_parts = 1 in
      if first_part_size = 0 then num_parts
      else let second_part_start = object_range_start + first_part_size in
      if second_part_start \<le> object_range_end
      then let aligned_range_remainder = object_range_end + 1 - second_part_start;
               num_parts = num_parts + ucast (aligned_range_remainder div part_size)
           in if aligned_range_remainder mod part_size > 0 then num_parts + 1 else num_parts
      else num_parts)"

definition aws_s3_calculate_auto_ranged_get_part_range ::
    "u64 \<Rightarrow> u64 \<Rightarrow> usize \<Rightarrow> u64 \<Rightarrow> u32 \<Rightarrow> u64 \<times> u64" where
  "aws_s3_calculate_auto_ranged_get_part_range object_range_start object_range_end part_size first_part_size part_number =
     (let part_index = part_number - 1;
          (part_range_start, part_range_end) =
            (if part_index = 0
             then (object_range_start, object_range_start + first_part_size - 1)
             else let start = object_range_start + ucast (part_index - 1) * part_size + first_part_size
                  in (start, start + part_size - 1))
      in if part_range_end > object_range_end
         then (part_range_start, object_range_end)
         else (part_range_start, part_range_end))"

subsection \<open>Multipart uploads\<close>

definition aws_s3_calculate_optimal_mpu_part_size_and_num_parts ::
    "u64 \<Rightarrow> usize \<Rightarrow> u64 \<Rightarrow> (usize \<times> u32) result" where
  "aws_s3_calculate_optimal_mpu_part_size_and_num_parts content_length client_part_size client_max_part_size =
     (if content_length = 0 then Inr (0, 0)
      else
        let part_size = content_length div ucast g_s3_max_num_upload_parts;
            part_size = (if content_length mod ucast g_s3_max_num_upload_parts > 0 then part_size + 1 else part_size)
        in if part_size > (- 1 :: usize) then Inl AWS_ERROR_INVALID_ARGUMENT
        else
        let part_size = (if part_size < client_part_size then client_part_size else part_size);
            part_size = (if content_length < part_size then content_length else part_size);
            num_parts = (ucast (content_length div part_size) :: u32);
            num_parts = (if content_length mod part_size > 0 then num_parts + 1 else num_parts)
        in Inr (part_size, num_parts))"

subsection \<open>Part sizes derived from the memory limit\<close>

definition aws_s3_calculate_client_optimal_range_size :: "u64 \<Rightarrow> u32 \<Rightarrow> u64 result" where
  "aws_s3_calculate_client_optimal_range_size memory_limit_in_bytes max_connections =
     (if memory_limit_in_bytes = 0 \<or> max_connections = 0 then Inl AWS_ERROR_INVALID_ARGUMENT
      else
        let memory_constrained_size =
              memory_limit_in_bytes div ucast max_connections div ucast s_optimal_range_size_memory_divisor;
            optimal_size = memory_constrained_size;
            optimal_size = (if optimal_size < g_default_part_size_fallback
                            then g_default_part_size_fallback else optimal_size);
            optimal_size = (if optimal_size > g_default_max_part_size
                            then g_default_max_part_size else optimal_size)
        in Inr optimal_size)"

definition aws_s3_calculate_request_optimal_range_size :: "u64 \<Rightarrow> u64 \<Rightarrow> bool \<Rightarrow> u64 result" where
  "aws_s3_calculate_request_optimal_range_size client_optimal_range_size estimated_object_stored_part_size is_express =
     (if client_optimal_range_size = 0 then Inl AWS_ERROR_INVALID_ARGUMENT
      else
        let optimal_size = client_optimal_range_size;
            optimal_size = (if estimated_object_stored_part_size > 0 \<and>
                               estimated_object_stored_part_size < client_optimal_range_size
                            then estimated_object_stored_part_size else optimal_size);
            optimal_size = (if optimal_size < g_default_part_size_fallback
                            then g_default_part_size_fallback else optimal_size);
            optimal_size = (if is_express then min optimal_size (MB_TO_BYTES 128)
                            else min optimal_size (GB_TO_BYTES 2))
        in Inr optimal_size)"

subsection \<open>Delivery order\<close>

datatype aws_tribool = AWS_TRIBOOL_UNSET | AWS_TRIBOOL_FALSE | AWS_TRIBOOL_TRUE

definition aws_s3_allow_out_of_order_delivery ::
    "bool \<Rightarrow> bool \<Rightarrow> aws_tribool \<Rightarrow> aws_tribool \<Rightarrow> aws_tribool \<Rightarrow> bool" where
  "aws_s3_allow_out_of_order_delivery file_sink callback_sink request_override client_setting env_setting =
     (if \<not> file_sink \<and> \<not> callback_sink then False
      else
        let out_of_order = file_sink;
            preference = request_override;
            preference = (if preference = AWS_TRIBOOL_UNSET then client_setting else preference);
            preference = (if preference = AWS_TRIBOOL_UNSET then env_setting else preference)
        in if preference \<noteq> AWS_TRIBOOL_UNSET then preference = AWS_TRIBOOL_TRUE else out_of_order)"

subsection \<open>The ranged gets tile the object range\<close>

text \<open>
  The reference: part \<open>n\<close> (from 1) of a range starting at \<open>s\<close> begins at \<open>s\<close> for \<open>n = 1\<close> and
  at \<open>s + f + (n - 2) * p\<close> after that, and the range \<open>s..e\<close> needs one part and as many more
  as the bytes after the first part fill.
\<close>

definition part_start :: "nat \<Rightarrow> nat \<Rightarrow> nat \<Rightarrow> nat \<Rightarrow> nat" where
  "part_start s f p n = (if n \<le> 1 then s else s + f + (n - 2) * p)"

definition num_parts_spec :: "nat \<Rightarrow> nat \<Rightarrow> nat \<Rightarrow> nat \<Rightarrow> nat" where
  "num_parts_spec p f s e = 1 + div_ceil (e + 1 - (s + f)) p"

text \<open>What the range arithmetic needs: a non-empty range, sizes above zero, no sum past \<open>2^64\<close>.\<close>

definition range_ok :: "u64 \<Rightarrow> u64 \<Rightarrow> usize \<Rightarrow> u64 \<Rightarrow> bool" where
  "range_ok s e p f \<longleftrightarrow>
     s \<le> e \<and> 0 < p \<and> 0 < f \<and> unat e + unat p < 2 ^ 64 \<and> unat s + unat f < 2 ^ 64 \<and>
     num_parts_spec (unat p) (unat f) (unat s) (unat e) < 2 ^ 32"

lemma part_start_mono_step: "n \<ge> 1 \<Longrightarrow> 0 < f \<Longrightarrow> 0 < p \<Longrightarrow> part_start s f p n < part_start s f p (Suc n)"
  by (auto simp: part_start_def)

lemma num_parts_covers: "0 < p \<Longrightarrow> e < part_start s f p (Suc (num_parts_spec p f s e))"
  using div_ceil_mult_ge [of p "e + 1 - (s + f)"] by (simp add: part_start_def num_parts_spec_def)

lemma part_start_within:
  assumes "0 < p" "s \<le> e" "1 \<le> n" "n \<le> num_parts_spec p f s e"
  shows "part_start s f p n \<le> e"
proof (cases "n = 1")
  case False
  then have "n - 2 < div_ceil (e + 1 - (s + f)) p"
    using assms by (auto simp: num_parts_spec_def)
  then have "(n - 2) * p < e + 1 - (s + f)" using assms(1) by (simp add: div_ceil_less_mult)
  then show ?thesis using False assms(3) by (auto simp: part_start_def)
qed (use assms in \<open>simp add: part_start_def\<close>)

lemma range_okD:
  assumes "range_ok s e p f"
  shows "unat s \<le> unat e" "0 < unat p" "0 < unat f" "unat e + unat p < 2 ^ 64" "unat e + 1 < 2 ^ 64"
    "unat (s + f) = unat s + unat f" "num_parts_spec (unat p) (unat f) (unat s) (unat e) < 2 ^ 32"
  using assms by (auto simp: range_ok_def word_le_nat_alt word_less_nat_alt unat_add_nowrap)

lemma num_parts_eq:
  assumes "range_ok s e p f"
  shows "unat (aws_s3_calculate_auto_ranged_get_num_parts p f s e) = num_parts_spec (unat p) (unat f) (unat s) (unat e)"
proof (cases "s + f \<le> e")
  case True
  note ok = range_okD [OF assms]
  define r where "r = e + 1 - (s + f)"
  have "unat (e + 1) = unat e + 1" using ok(5) by (simp add: unat_add_nowrap)
  moreover have "unat s + unat f \<le> unat e" using True ok(6) by (simp add: word_le_nat_alt)
  ultimately have r: "unat r = unat e + 1 - (unat s + unat f)"
    using ok(6) by (simp add: r_def unat_sub_nowrap)
  have spec: "num_parts_spec (unat p) (unat f) (unat s) (unat e) = 1 + div_ceil (unat r) (unat p)"
    by (simp add: num_parts_spec_def r)
  with ok(7) have small: "unat (r div p) + 2 \<le> 2 ^ 32 \<or> unat r mod unat p = 0 \<and> unat (r div p) + 1 < 2 ^ 32"
    by (auto simp: div_ceil_def unat_div split: if_splits)
  then have c: "unat (ucast (r div p) :: u32) = unat (r div p)"
    by (subst unat_u32_of_u64) auto
  then have c1: "unat (1 + ucast (r div p) :: u32) = 1 + unat (r div p)"
    using small by (subst unat_add_nowrap) auto
  have fnz: "f \<noteq> 0" using ok(3) by auto
  have m: "(r mod p > 0) \<longleftrightarrow> unat r mod unat p > 0"
    by (simp add: word_less_nat_alt unat_mod)
  show ?thesis
  proof (cases "r mod p > 0")
    case True
    with small m have "1 + unat (r div p) + 1 < 2 ^ 32 \<or> 1 + unat (r div p) + 1 = 2 ^ 32" by auto
    with True m ok(7) spec c1 have "unat (1 + ucast (r div p) + 1 :: u32) = 2 + unat (r div p)"
      by (subst unat_add_nowrap) (auto simp: div_ceil_def unat_div)
    with True \<open>s + f \<le> e\<close> fnz spec m show ?thesis
      by (simp add: aws_s3_calculate_auto_ranged_get_num_parts_def Let_def r_def div_ceil_def unat_div)
  next
    case False
    with \<open>s + f \<le> e\<close> fnz spec m c1 show ?thesis
      by (simp add: aws_s3_calculate_auto_ranged_get_num_parts_def Let_def r_def div_ceil_def unat_div)
  qed
next
  case False
  note ok = range_okD [OF assms]
  from False ok(6) have "unat e + 1 - (unat s + unat f) = 0" by (simp add: word_le_nat_alt)
  then have "num_parts_spec (unat p) (unat f) (unat s) (unat e) = 1"
    by (simp add: num_parts_spec_def div_ceil_def)
  with False ok(3) show ?thesis
    by (auto simp: aws_s3_calculate_auto_ranged_get_num_parts_def)
qed

lemma part_range_first:
  "aws_s3_calculate_auto_ranged_get_part_range s e p f 1 = (s, if s + f - 1 > e then e else s + f - 1)"
  by (simp add: aws_s3_calculate_auto_ranged_get_part_range_def)

lemma part_range_later:
  assumes "n \<noteq> 1"
  shows "aws_s3_calculate_auto_ranged_get_part_range s e p f n =
     (let a = s + ucast (n - 2) * p + f in (a, if a + p - 1 > e then e else a + p - 1))"
  using assms by (simp add: aws_s3_calculate_auto_ranged_get_part_range_def Let_def diff_diff_eq)

lemma unat_capped_end:
  fixes b e :: u64
  assumes "unat b + 1 = m"
  shows "unat (if b > e then e else b) + 1 = min m (unat e + 1)"
  using assms by (auto simp: word_less_nat_alt)

lemma part_range_eq:
  assumes ok: "range_ok s e p f"
    and n: "1 \<le> unat n" "unat n \<le> num_parts_spec (unat p) (unat f) (unat s) (unat e)"
    and eq: "aws_s3_calculate_auto_ranged_get_part_range s e p f n = (a, b)"
  shows "unat a = part_start (unat s) (unat f) (unat p) (unat n)"
    and "unat b + 1 = min (part_start (unat s) (unat f) (unat p) (unat n + 1)) (unat e + 1)"
proof -
  note okD = range_okD [OF ok]
  have "unat a = part_start (unat s) (unat f) (unat p) (unat n) \<and>
        unat b + 1 = min (part_start (unat s) (unat f) (unat p) (unat n + 1)) (unat e + 1)"
  proof (cases "n = 1")
    case True
    have "unat (s + f - 1) + 1 = unat s + unat f"
      using okD(3,6) by (subst unat_sub_nowrap) auto
    with True eq show ?thesis
      using unat_capped_end [of "s + f - 1" "unat s + unat f" e]
      by (auto simp: part_range_first part_start_def)
  next
    case False
    then have n2: "2 \<le> unat n" using n(1) by (metis One_nat_def Suc_1 le_antisym not_less_eq_eq unat_1 word_unat_eq_iff)
    have idx: "unat (ucast (n - 2) :: u64) = unat n - 2" using n2 by (simp add: unat_sub_nowrap)
    have le: "part_start (unat s) (unat f) (unat p) (unat n) \<le> unat e"
      using part_start_within [OF okD(2,1) n] .
    have st: "part_start (unat s) (unat f) (unat p) (unat n) = unat s + (unat n - 2) * unat p + unat f"
      using n2 by (simp add: part_start_def)
    have e64: "unat e < 2 ^ 64" using okD(5) by simp
    have m: "unat (ucast (n - 2) * p) = (unat n - 2) * unat p"
      using le st e64 idx by (subst unat_mult_nowrap) auto
    have s1: "unat (s + ucast (n - 2) * p) = unat s + (unat n - 2) * unat p"
      using le st e64 m by (subst unat_add_nowrap) auto
    have s2: "unat (s + ucast (n - 2) * p + f) = part_start (unat s) (unat f) (unat p) (unat n)"
      using le st e64 s1 by (subst unat_add_nowrap) auto
    let ?a = "s + ucast (n - 2) * p + f"
    have "unat (?a + p) = unat ?a + unat p"
      using le s2 okD(4) by (subst unat_add_nowrap) auto
    then have en: "unat (?a + p - 1) + 1 = part_start (unat s) (unat f) (unat p) (unat n) + unat p"
      using okD(2) s2 by (subst unat_sub_nowrap) auto
    have nxt: "part_start (unat s) (unat f) (unat p) (unat n + 1) = part_start (unat s) (unat f) (unat p) (unat n) + unat p"
    proof -
      obtain k where "unat n = 2 + k" using n2 le_Suc_ex by blast
      then show ?thesis by (simp add: part_start_def)
    qed
    show ?thesis using eq s2 unat_capped_end [OF en, of e] nxt False
      by (auto simp: part_range_later Let_def)
  qed
  then show "unat a = part_start (unat s) (unat f) (unat p) (unat n)"
    and "unat b + 1 = min (part_start (unat s) (unat f) (unat p) (unat n + 1)) (unat e + 1)" by simp_all
qed

text \<open>A strictly increasing sequence of cut points tiles the interval between its ends.\<close>

lemma cuts_tile:
  fixes c :: "nat \<Rightarrow> nat"
  assumes mono: "\<And>n. 1 \<le> n \<Longrightarrow> n \<le> N \<Longrightarrow> c n < c (Suc n)" and N: "1 \<le> N" and k: "c 1 \<le> k" "k < c (Suc N)"
  shows "\<exists>!n. 1 \<le> n \<and> n \<le> N \<and> c n \<le> k \<and> k < c (Suc n)"
proof -
  have le: "c i \<le> c j" if "1 \<le> i" "i \<le> j" "j \<le> Suc N" for i j
    using that(2,3)
  proof (induction j rule: dec_induct)
    case (step j)
    then have "c i \<le> c j" and "c j < c (Suc j)" using that(1) mono by auto
    then show ?case by simp
  qed simp
  have ex: "\<exists>n. 1 \<le> n \<and> n \<le> N \<and> c n \<le> k \<and> k < c (Suc n)"
    using N k(2)
  proof (induction N rule: dec_induct)
    case base
    then show ?case using k(1) by auto
  next
    case (step m)
    then show ?case by (cases "k < c (Suc m)") (auto intro: le_SucI)
  qed
  moreover have "i = j" if i: "1 \<le> i" "i \<le> N" "c i \<le> k" "k < c (Suc i)"
    and j: "1 \<le> j" "j \<le> N" "c j \<le> k" "k < c (Suc j)" for i j
  proof (rule ccontr)
    assume "i \<noteq> j"
    then consider "Suc i \<le> j" | "Suc j \<le> i" by linarith
    then show False
      using le [of "Suc i" j] le [of "Suc j" i] i j by cases auto
  qed
  ultimately show ?thesis by blast
qed

lemma part_range_covers_iff:
  assumes ok: "range_ok s e p f"
    and n: "1 \<le> unat n" "unat n \<le> num_parts_spec (unat p) (unat f) (unat s) (unat e)"
    and R: "aws_s3_calculate_auto_ranged_get_part_range s e p f n = R" and k: "k \<le> e"
  shows "fst R \<le> k \<and> k \<le> snd R \<longleftrightarrow>
     part_start (unat s) (unat f) (unat p) (unat n) \<le> unat k \<and> unat k < part_start (unat s) (unat f) (unat p) (Suc (unat n))"
  using part_range_eq [OF ok n, of "fst R" "snd R"] R k by (auto simp: word_le_nat_alt)

lemma part_range_bounds:
  assumes ok: "range_ok s e p f"
    and n: "1 \<le> unat n" "unat n \<le> num_parts_spec (unat p) (unat f) (unat s) (unat e)"
    and R: "aws_s3_calculate_auto_ranged_get_part_range s e p f n = R"
  shows "s \<le> fst R" "fst R \<le> snd R" "snd R \<le> e"
proof -
  note D = range_okD [OF ok]
  have "part_start (unat s) (unat f) (unat p) (unat n) < part_start (unat s) (unat f) (unat p) (unat n + 1)"
    using part_start_mono_step [OF n(1) D(3,2)] by simp
  moreover have "part_start (unat s) (unat f) (unat p) (unat n) \<le> unat e"
    by (rule part_start_within [OF D(2,1) n])
  moreover have "unat s \<le> part_start (unat s) (unat f) (unat p) (unat n)" by (simp add: part_start_def)
  ultimately show "s \<le> fst R" "fst R \<le> snd R" "snd R \<le> e"
    using part_range_eq [OF ok n, of "fst R" "snd R"] R by (auto simp: word_le_nat_alt)
qed

lemma part_number_iff:
  assumes "range_ok s e p f"
  shows "(1 \<le> n \<and> n \<le> aws_s3_calculate_auto_ranged_get_num_parts p f s e) \<longleftrightarrow>
     1 \<le> unat n \<and> unat n \<le> num_parts_spec (unat p) (unat f) (unat s) (unat e)"
  using num_parts_eq [OF assms] by (simp add: word_le_nat_alt)

lemma exactly_one_part_covers:
  assumes ok: "range_ok s e p f" and k: "s \<le> k" "k \<le> e"
  shows "\<exists>!n. 1 \<le> n \<and> n \<le> aws_s3_calculate_auto_ranged_get_num_parts p f s e \<and>
     fst (aws_s3_calculate_auto_ranged_get_part_range s e p f n) \<le> k \<and>
     k \<le> snd (aws_s3_calculate_auto_ranged_get_part_range s e p f n)" (is "\<exists>!n. ?P n")
proof -
  note D = range_okD [OF ok]
  let ?N = "num_parts_spec (unat p) (unat f) (unat s) (unat e)"
  let ?c = "part_start (unat s) (unat f) (unat p)"
  have iff: "?P n \<longleftrightarrow> 1 \<le> unat n \<and> unat n \<le> ?N \<and> ?c (unat n) \<le> unat k \<and> unat k < ?c (Suc (unat n))" for n
    using part_number_iff [OF ok, of n] part_range_covers_iff [OF ok _ _ refl k(2), of n] by blast
  have "\<exists>!m. 1 \<le> m \<and> m \<le> ?N \<and> ?c m \<le> unat k \<and> unat k < ?c (Suc m)"
  proof (rule cuts_tile)
    show "?c 1 \<le> unat k" using k by (simp add: part_start_def word_le_nat_alt)
    have "unat k \<le> unat e" using k by (simp add: word_le_nat_alt)
    then show "unat k < ?c (Suc ?N)" using num_parts_covers [OF D(2)] order_le_less_trans by blast
  qed (auto intro: part_start_mono_step D simp: num_parts_spec_def)
  then obtain m where m: "1 \<le> m \<and> m \<le> ?N \<and> ?c m \<le> unat k \<and> unat k < ?c (Suc m)"
    and uniq: "\<And>j. 1 \<le> j \<and> j \<le> ?N \<and> ?c j \<le> unat k \<and> unat k < ?c (Suc j) \<Longrightarrow> j = m" by blast
  have "unat (of_nat m :: u32) = m" using m D(7) by (simp add: unat_of_nat)
  then show ?thesis unfolding iff using m uniq by (metis word_unat_eq_iff)
qed

text \<open>
  C1. The ranged gets of an auto-ranged get tile the object range. For a range that fits the
  64-bit arithmetic, every part asks for a non-empty range inside the object range, and every
  byte of the object range is asked for by exactly one of the parts \<open>1..num_parts\<close>.
\<close>

theorem ranged_gets_tile_object_range:
  assumes "range_ok s e p f"
    and "N = aws_s3_calculate_auto_ranged_get_num_parts p f s e"
    and "R = aws_s3_calculate_auto_ranged_get_part_range s e p f"
  shows "(\<forall>n. 1 \<le> n \<and> n \<le> N \<longrightarrow> s \<le> fst (R n) \<and> fst (R n) \<le> snd (R n) \<and> snd (R n) \<le> e) \<and>
    (\<forall>k. s \<le> k \<and> k \<le> e \<longrightarrow> (\<exists>!n. 1 \<le> n \<and> n \<le> N \<and> fst (R n) \<le> k \<and> k \<le> snd (R n)))"
proof (intro conjI allI impI)
  fix n assume "1 \<le> n \<and> n \<le> N"
  then have n: "1 \<le> unat n" "unat n \<le> num_parts_spec (unat p) (unat f) (unat s) (unat e)"
    using part_number_iff [OF assms(1)] assms(2) by simp_all
  show "s \<le> fst (R n)" "fst (R n) \<le> snd (R n)" "snd (R n) \<le> e"
    unfolding assms(3) by (rule part_range_bounds [OF assms(1) n refl])+
next
  fix k assume "s \<le> k \<and> k \<le> e"
  then show "\<exists>!n. 1 \<le> n \<and> n \<le> N \<and> fst (R n) \<le> k \<and> k \<le> snd (R n)"
    unfolding assms(2,3) by (intro exactly_one_part_covers [OF assms(1)]) simp_all
qed

theorem ranged_gets_tile_object_range_witness:
  "range_ok 7 31 10 10 \<and> aws_s3_calculate_auto_ranged_get_num_parts 10 10 7 31 = 3 \<and>
   aws_s3_calculate_auto_ranged_get_part_range 7 31 10 10 3 = (27, 31) \<and>
   (\<exists>!n. 1 \<le> n \<and> n \<le> 3 \<and> fst (aws_s3_calculate_auto_ranged_get_part_range 7 31 10 10 n) \<le> 30 \<and>
      30 \<le> snd (aws_s3_calculate_auto_ranged_get_part_range 7 31 10 10 n))"
proof -
  have ok: "range_ok 7 31 10 10" by (simp add: range_ok_def num_parts_spec_def div_ceil_def)
  have n: "aws_s3_calculate_auto_ranged_get_num_parts 10 10 7 31 = 3"
    by (simp add: aws_s3_calculate_auto_ranged_get_num_parts_def Let_def)
  have r: "aws_s3_calculate_auto_ranged_get_part_range 7 31 10 10 3 = (27, 31)"
    by (simp add: aws_s3_calculate_auto_ranged_get_part_range_def Let_def)
  have "\<exists>!n. 1 \<le> n \<and> n \<le> aws_s3_calculate_auto_ranged_get_num_parts 10 10 7 31 \<and>
      fst (aws_s3_calculate_auto_ranged_get_part_range 7 31 10 10 n) \<le> 30 \<and>
      30 \<le> snd (aws_s3_calculate_auto_ranged_get_part_range 7 31 10 10 n)"
    by (rule ranged_gets_tile_object_range [OF ok refl refl, THEN conjunct2, rule_format]) simp
  with ok n r show ?thesis by (simp only: simp_thms)
qed

subsection \<open>Multipart uploads stay within the part limit\<close>

lemma unat_ceil_u64:
  fixes a b :: u64
  assumes "1 < unat b"
  shows "unat (if a mod b > 0 then a div b + 1 else a div b) = div_ceil (unat a) (unat b)"
proof -
  have "unat a div unat b \<le> unat a div 2" using assms by (intro div_le_mono2) auto
  then have "unat (a div b) + 1 < 2 ^ 64" using unat_lt2p64 [of a] by (simp add: unat_div)
  then have "unat (a div b + 1) = unat (a div b) + 1" by (simp add: unat_add_nowrap)
  then show ?thesis by (simp add: div_ceil_def word_less_nat_alt unat_mod unat_div)
qed

lemma unat_ceil_u32:
  fixes a b :: u64
  assumes "div_ceil (unat a) (unat b) < 2 ^ 32"
  shows "unat (if a mod b > 0 then ucast (a div b) + 1 else ucast (a div b) :: u32) = div_ceil (unat a) (unat b)"
proof (cases "a mod b > 0")
  case True
  then have "unat (a div b) + 1 < 2 ^ 32"
    using assms by (simp add: div_ceil_def word_less_nat_alt unat_mod unat_div)
  then have "unat (ucast (a div b) + 1 :: u32) = unat (a div b) + 1"
    by (subst unat_add_nowrap) (simp_all add: unat_u32_of_u64)
  with True show ?thesis by (simp add: div_ceil_def word_less_nat_alt unat_mod unat_div)
next
  case False
  then have "unat (a div b) < 4294967296"
    using assms by (simp add: div_ceil_def unat_div split: if_splits)
  with False show ?thesis
    by (simp add: div_ceil_def word_less_nat_alt unat_mod unat_div unat_u32_of_u64)
qed



subsection \<open>Derived part sizes respect the memory limit\<close>

lemma client_optimal_range_size_memory:
  assumes "aws_s3_calculate_client_optimal_range_size memory_limit max_connections = Inr z"
  shows "unat z = 8388608 \<or> 3 * unat max_connections * unat z \<le> unat memory_limit"
proof -
  let ?m = "unat memory_limit" and ?c = "unat max_connections"
  have "unat z = 8388608 \<or> unat z \<le> ?m div ?c div 3"
    using assms(1) by (auto simp: aws_s3_calculate_client_optimal_range_size_def Let_def TO_BYTES_defs
        g_default_part_size_fallback_def g_default_max_part_size_def s_optimal_range_size_memory_divisor_def
        word_less_nat_alt unat_div split: if_splits)
  moreover have "3 * ?c * (?m div ?c div 3) \<le> ?m"
  proof -
    have "?c * (3 * (?m div ?c div 3)) \<le> ?c * (?m div ?c)" by (intro mult_le_mono2) simp
    also have "\<dots> \<le> ?m" by simp
    finally show ?thesis by (simp add: mult.assoc mult.left_commute)
  qed
  ultimately show ?thesis by (auto intro: order_trans [OF mult_le_mono2])
qed

text \<open>
  C3. The part size chosen for a download without a configured part size: at least 8 MiB, at most 128 MiB on
  S3 Express and 2 GiB otherwise; and either three parts of the chosen size per connection fit in the memory limit, or
  the chosen size is the least one, 8 MiB, which is not lowered for a small limit.
\<close>

theorem request_optimal_range_size_fits_memory:
  assumes "aws_s3_calculate_client_optimal_range_size memory_limit max_connections = Inr client_size"
    and "aws_s3_calculate_request_optimal_range_size client_size stored_part_size is_express = Inr range_size"
  shows "MB_TO_BYTES 8 \<le> range_size \<and> range_size \<le> (if is_express then MB_TO_BYTES 128 else GB_TO_BYTES 2) \<and>
    (range_size = MB_TO_BYTES 8 \<or> 3 * unat max_connections * unat range_size \<le> unat memory_limit)"
proof -
  have c: "MB_TO_BYTES 8 \<le> client_size"
    using assms(1) by (auto simp: aws_s3_calculate_client_optimal_range_size_def Let_def TO_BYTES_defs
        g_default_part_size_fallback_def g_default_max_part_size_def split: if_splits)
  then have le: "range_size \<le> client_size"
    using assms(2) by (auto simp: aws_s3_calculate_request_optimal_range_size_def Let_def TO_BYTES_defs
        g_default_part_size_fallback_def min_def split: if_splits)
  have bounds: "MB_TO_BYTES 8 \<le> range_size" "range_size \<le> (if is_express then MB_TO_BYTES 128 else GB_TO_BYTES 2)"
    using c assms(2) by (auto simp: aws_s3_calculate_request_optimal_range_size_def Let_def TO_BYTES_defs
        g_default_part_size_fallback_def min_def split: if_splits)
  have "range_size = MB_TO_BYTES 8 \<or> 3 * unat max_connections * unat range_size \<le> unat memory_limit"
    using client_optimal_range_size_memory [OF assms(1)]
  proof
    assume "unat client_size = 8388608"
    then have "unat range_size = unat (MB_TO_BYTES 8)" using le bounds(1) by (simp add: word_le_nat_alt TO_BYTES_defs)
    then show ?thesis by (simp add: word_unat_eq_iff)
  next
    assume "3 * unat max_connections * unat client_size \<le> unat memory_limit"
    moreover have "3 * unat max_connections * unat range_size \<le> 3 * unat max_connections * unat client_size"
      using le by (simp add: word_le_nat_alt)
    ultimately show ?thesis by (intro disjI2) (rule order_trans)
  qed
  then show ?thesis using bounds by blast
qed

theorem request_optimal_range_size_fits_memory_witness:
  "aws_s3_calculate_client_optimal_range_size 8589934592 100 = Inr 28633115 \<and>
   aws_s3_calculate_request_optimal_range_size 28633115 0 False = Inr 28633115 \<and>
   MB_TO_BYTES 8 \<le> 28633115 \<and> 3 * unat (100 :: u32) * unat (28633115 :: u64) \<le> unat (8589934592 :: u64)"
proof -
  have c: "aws_s3_calculate_client_optimal_range_size 8589934592 100 = Inr 28633115"
    by (simp add: aws_s3_calculate_client_optimal_range_size_def Let_def TO_BYTES_defs
        g_default_part_size_fallback_def g_default_max_part_size_def s_optimal_range_size_memory_divisor_def)
  have r: "aws_s3_calculate_request_optimal_range_size 28633115 0 False = Inr 28633115"
    by (simp add: aws_s3_calculate_request_optimal_range_size_def Let_def TO_BYTES_defs
        g_default_part_size_fallback_def)
  show ?thesis using request_optimal_range_size_fits_memory [OF c r] c r by (simp add: TO_BYTES_defs)
qed

end
