(* ===== verification/S3_Buffer_Pool.thy ===== *)
theory S3_Buffer_Pool
  imports S3_Prelude "HOL-Library.Multiset"
begin

unbundle bit_operations_syntax

section \<open>The default buffer pool (\<^verbatim>\<open>source/s3_default_buffer_pool.c\<close>)\<close>

text \<open>
  The pool is an arena: a primary area of 16-chunk blocks with one bit per chunk, a special
  area of whole blocks per registered size, a secondary area served by the allocator, and
  caller-owned buffers registered per meta request. A reservation yields a ticket, claiming a
  ticket yields memory, releasing it returns memory or reservation and serves the reservations
  that had to wait.

  State: record \<open>pool\<close> has the fields of \<open>struct aws_s3_default_buffer_pool\<close>. Array lists are
  lists, the hash table of special sizes is an association list (its iteration order is not
  observable: every entry is trimmed on its own), the table of caller-owned buffers is a map.
  Memory addresses are natural numbers with 0 for \<open>NULL\<close>. What the allocator returns is an
  argument (\<open>mem_acquire\<close>), as is the state of the futures of aws-c-io (\<open>is_done\<close>) and the
  checked arithmetic of aws-c-common (\<open>aws_math\<close>). A failed \<open>AWS_FATAL_ASSERT\<close> is \<open>None\<close>.
\<close>

subsection \<open>Data\<close>

record s3_buffer_pool_block =
  block_size :: usize
  block_ptr :: nat
  alloc_bit_mask :: u16

datatype reserved_from =
    RESERVED_FROM_SECONDARY
  | RESERVED_FROM_PRIMARY
  | RESERVED_FROM_SPECIAL

record ticket =
  t_size :: usize
  t_ptr :: nat
  t_chunks_used :: usize
  t_forced :: bool
  t_reserved_from :: reserved_from

record reserve_meta =
  m_meta_request :: "nat option"
  m_size :: usize
  m_can_block :: bool
  m_local_offset :: u64

record pending_reserve =
  pr_future :: nat
  pr_meta :: reserve_meta

record byte_buf =
  buf_buffer :: nat
  buf_capacity :: usize

record pool =
  pool_block_size :: usize
  chunk_size :: usize
  primary_size_cutoff :: usize
  primary_size_min_cutoff :: usize
  mem_limit :: usize
  primary_allocated :: usize
  primary_reserved :: usize
  primary_used :: usize
  special_blocks_allocated :: usize
  special_blocks_reserved :: usize
  special_blocks_used :: usize
  secondary_reserved :: usize
  secondary_used :: usize
  forced_used :: usize
  blocks :: "s3_buffer_pool_block list"
  pending_reserves :: "pending_reserve list"
  special_blocks :: "(usize \<times> s3_buffer_pool_block list) list"
  preallocated_buffers :: "nat \<rightharpoonup> byte_buf"
  force_keeping_special_blocks :: bool

record pool_config =
  cfg_part_size :: usize
  cfg_max_part_size :: usize
  cfg_memory_limit :: usize

subsection \<open>Constants\<close>

definition s_buffer_pool_reserved_mem :: usize where
  "s_buffer_pool_reserved_mem = MB_TO_BYTES 128"

definition s_chunks_per_block :: usize where
  "s_chunks_per_block = 16"

definition s_max_chunk_size_for_buffer_reuse :: usize where
  "s_max_chunk_size_for_buffer_reuse = MB_TO_BYTES 64"

definition s_max_impact_of_forced_buffers_on_memory_limit_as_percentage :: nat where
  "s_max_impact_of_forced_buffers_on_memory_limit_as_percentage = 80"

definition s_primary_min_cutoff :: usize where
  "s_primary_min_cutoff = KB_TO_BYTES 512"

subsection \<open>Bit masks\<close>

definition s_set_bits :: "u16 \<Rightarrow> nat \<Rightarrow> nat \<Rightarrow> u16" where
  "s_set_bits num position n = (let mask = drop_bit (8 - n) (0x00FF :: u16) in num OR push_bit position mask)"

definition s_clear_bits :: "u16 \<Rightarrow> nat \<Rightarrow> nat \<Rightarrow> u16" where
  "s_clear_bits num position n = (let mask = drop_bit (8 - n) (0x00FF :: u16) in num AND NOT (push_bit position mask))"

definition s_check_bits :: "u16 \<Rightarrow> nat \<Rightarrow> nat \<Rightarrow> bool" where
  "s_check_bits num position n = (let mask = drop_bit (8 - n) (0x00FF :: u16) in (drop_bit position num) AND mask \<noteq> 0)"

subsection \<open>Creation\<close>

definition aws_s3_default_buffer_pool_new :: "pool_config \<Rightarrow> pool result" where
  "aws_s3_default_buffer_pool_new config =
     (let chunk = cfg_part_size config in
      if cfg_memory_limit config < MB_TO_BYTES 256 then Inl AWS_ERROR_S3_INVALID_MEMORY_LIMIT_CONFIG
      else if cfg_max_part_size config > 0 \<and> chunk > cfg_max_part_size config
      then Inl AWS_ERROR_S3_PART_SIZE_EXCEEDS_MEMORY_LIMIT
      else let adjusted_mem_lim = cfg_memory_limit config - s_buffer_pool_reserved_mem in
      if cfg_max_part_size config > adjusted_mem_lim then Inl AWS_ERROR_S3_INVALID_MEMORY_LIMIT_CONFIG
      else
        let chunk = (if chunk > s_max_chunk_size_for_buffer_reuse \<or> chunk * s_chunks_per_block > adjusted_mem_lim
                     then 0 else chunk);
            min_primary_size = (if 4 * chunk \<ge> s_primary_min_cutoff then s_primary_min_cutoff else 0)
        in Inr \<lparr>pool_block_size = s_chunks_per_block * chunk, chunk_size = chunk,
                primary_size_cutoff = chunk * 4, primary_size_min_cutoff = min_primary_size,
                mem_limit = adjusted_mem_lim,
                primary_allocated = 0, primary_reserved = 0, primary_used = 0,
                special_blocks_allocated = 0, special_blocks_reserved = 0, special_blocks_used = 0,
                secondary_reserved = 0, secondary_used = 0, forced_used = 0,
                blocks = [], pending_reserves = [], special_blocks = [],
                preallocated_buffers = Map.empty, force_keeping_special_blocks = False\<rparr>)"

subsection \<open>Trimming\<close>

text \<open>
  The loops over a block list erase every block whose mask is 0 and subtract its size from the
  allocated total: \<open>trim_blocks\<close> returns the remaining blocks and the new total.
\<close>

fun trim_blocks :: "usize \<Rightarrow> s3_buffer_pool_block list \<Rightarrow> usize \<times> s3_buffer_pool_block list" where
  "trim_blocks allocated [] = (allocated, [])"
| "trim_blocks allocated (b # bs) =
     (if alloc_bit_mask b = 0 then trim_blocks (allocated - block_size b) bs
      else let (allocated', bs') = trim_blocks allocated bs in (allocated', b # bs'))"

fun trim_special_lists ::
    "bool \<Rightarrow> usize \<Rightarrow> (usize \<times> s3_buffer_pool_block list) list \<Rightarrow> usize \<times> (usize \<times> s3_buffer_pool_block list) list" where
  "trim_special_lists removable allocated [] = (allocated, [])"
| "trim_special_lists removable allocated ((buffer_size, bs) # rest) =
     (let (allocated1, bs') = trim_blocks allocated bs;
          (allocated2, rest') = trim_special_lists removable allocated1 rest
      in (allocated2, if bs' = [] \<and> removable then rest' else (buffer_size, bs') # rest'))"

definition s_buffer_pool_trim_special_blocks_synced :: "pool \<Rightarrow> pool" where
  "s_buffer_pool_trim_special_blocks_synced p =
     (let removable = (special_blocks_reserved p = 0 \<and> \<not> force_keeping_special_blocks p);
          (allocated, lists) = trim_special_lists removable (special_blocks_allocated p) (special_blocks p)
      in p\<lparr>special_blocks_allocated := allocated, special_blocks := lists\<rparr>)"

definition s_buffer_pool_trim_synced :: "pool \<Rightarrow> pool" where
  "s_buffer_pool_trim_synced p =
     (let (allocated, bs) = trim_blocks (primary_allocated p) (blocks p)
      in s_buffer_pool_trim_special_blocks_synced (p\<lparr>primary_allocated := allocated, blocks := bs\<rparr>))"

subsection \<open>Reserving\<close>

text \<open>
  \<open>(size_t)(mem_limit * (80 / 100.0))\<close> is a product of doubles. \<open>round_double\<close> rounds a natural
  number to 53 significant bits, ties to even; \<open>80 / 100.0\<close> is the double
  \<open>7205759403792794 / 2^53\<close>; the cast truncates.
\<close>

fun significant_bits :: "nat \<Rightarrow> nat" where
  "significant_bits n = (if n = 0 then 0 else Suc (significant_bits (n div 2)))"

declare significant_bits.simps [simp del]

definition round_double :: "nat \<Rightarrow> nat" where
  "round_double n =
     (let k = significant_bits n - 53; q = n div 2 ^ k; r = n mod 2 ^ k
      in if 2 * r > 2 ^ k \<or> (2 * r = 2 ^ k \<and> odd q) then (q + 1) * 2 ^ k else q * 2 ^ k)"

definition max_impact_of_forced_on_limit :: "usize \<Rightarrow> usize" where
  "max_impact_of_forced_on_limit limit =
     of_nat (round_double (round_double (unat limit) * 7205759403792794) div 2 ^ 53)"

definition overall_taken :: "pool \<Rightarrow> usize" where
  "overall_taken p = primary_used p + primary_reserved p + secondary_used p + secondary_reserved p +
     special_blocks_reserved p + special_blocks_used p"

definition s_should_trim_for_reserve_synced :: "aws_math \<Rightarrow> bool \<Rightarrow> usize \<Rightarrow> pool \<Rightarrow> usize \<Rightarrow> bool" where
  "s_should_trim_for_reserve_synced M from_special to_reserve p taken =
     (if from_special \<or> to_reserve \<le> primary_size_cutoff p then False
      else case aws_add_size_checked M taken to_reserve of
        None \<Rightarrow> False
      | Some total_allocation_needs \<Rightarrow>
          if total_allocation_needs < mem_limit p then False
          else
            let primary_overallocation = aws_sub_size_saturating M (primary_allocated p) (primary_used p);
                primary_overallocation = aws_sub_size_saturating M primary_overallocation (primary_reserved p);
                special_overallocation = aws_sub_size_saturating M (special_blocks_allocated p) (special_blocks_used p);
                special_overallocation = aws_sub_size_saturating M special_overallocation (special_blocks_reserved p);
                total_overallocation = aws_add_size_saturating M special_overallocation primary_overallocation
            in \<not> total_overallocation < to_reserve)"

definition new_ticket :: "usize \<Rightarrow> bool \<Rightarrow> reserved_from \<Rightarrow> ticket" where
  "new_ticket sz forced src =
     \<lparr>t_size = sz, t_ptr = 0, t_chunks_used = 0, t_forced = forced, t_reserved_from = src\<rparr>"

definition s_try_reserve_synced :: "aws_math \<Rightarrow> pool \<Rightarrow> reserve_meta \<Rightarrow> pool \<times> ticket option" where
  "s_try_reserve_synced M p0 meta =
     (let from_special = (map_of (special_blocks p0) (m_size meta) \<noteq> None);
          p = (if s_should_trim_for_reserve_synced M from_special (m_size meta) p0 (overall_taken p0)
               then s_buffer_pool_trim_synced p0 else p0);
          taken = overall_taken p;
          impact = max_impact_of_forced_on_limit (mem_limit p);
          taken = (if forced_used p > impact then (taken - forced_used p) + impact else taken)
      in if m_size meta + taken \<le> mem_limit p
         then
           if from_special
           then (p\<lparr>special_blocks_reserved := special_blocks_reserved p + m_size meta\<rparr>,
                 Some (new_ticket (m_size meta) False RESERVED_FROM_SPECIAL))
           else if m_size meta \<le> primary_size_cutoff p
           then
             if m_size meta \<le> primary_size_min_cutoff p
             then (p\<lparr>secondary_reserved := secondary_reserved p + m_size meta\<rparr>,
                   Some (new_ticket (m_size meta) False RESERVED_FROM_SECONDARY))
             else if primary_used p + primary_reserved p + m_size meta > primary_allocated p \<and>
                     taken + pool_block_size p > mem_limit p
             then (p\<lparr>secondary_reserved := secondary_reserved p + m_size meta\<rparr>,
                   Some (new_ticket (m_size meta) False RESERVED_FROM_SECONDARY))
             else (p\<lparr>primary_reserved := primary_reserved p + m_size meta\<rparr>,
                   Some (new_ticket (m_size meta) False RESERVED_FROM_PRIMARY))
           else (p\<lparr>secondary_reserved := secondary_reserved p + m_size meta\<rparr>,
                 Some (new_ticket (m_size meta) False RESERVED_FROM_SECONDARY))
         else (p, None))"

text \<open>Caller-owned buffers.\<close>

definition s_reserve_from_preallocated_buffer :: "byte_buf \<Rightarrow> reserve_meta \<Rightarrow> byte_buf result" where
  "s_reserve_from_preallocated_buffer buffer meta =
     (if m_local_offset meta > buf_capacity buffer \<or> m_size meta > buf_capacity buffer - m_local_offset meta
      then Inl AWS_ERROR_SHORT_BUFFER
      else Inr \<lparr>buf_buffer = buf_buffer buffer + unat (m_local_offset meta), buf_capacity = m_size meta\<rparr>)"

definition s_default_pool_add_preallocated_buffer :: "pool \<Rightarrow> nat \<Rightarrow> byte_buf \<Rightarrow> pool" where
  "s_default_pool_add_preallocated_buffer p meta_request buffer =
     p\<lparr>preallocated_buffers := (preallocated_buffers p)(meta_request \<mapsto> buffer)\<rparr>"

definition s_default_pool_remove_preallocated_buffer :: "pool \<Rightarrow> nat \<Rightarrow> pool" where
  "s_default_pool_remove_preallocated_buffer p meta_request =
     p\<lparr>preallocated_buffers := (preallocated_buffers p)(meta_request := None)\<rparr>"

definition s_find_preallocated_buffer :: "pool \<Rightarrow> nat option \<Rightarrow> byte_buf option" where
  "s_find_preallocated_buffer p meta_request = Option.bind meta_request (preallocated_buffers p)"

text \<open>
  What the future returned by a reservation holds: a ticket on the caller's buffer, a pool
  ticket, an error, or nothing yet (the reservation was queued).
\<close>

datatype reservation =
    Preallocated byte_buf
  | Granted ticket
  | Failed aws_error
  | Queued

definition aws_s3_default_buffer_pool_reserve ::
    "aws_math \<Rightarrow> nat \<Rightarrow> pool \<Rightarrow> reserve_meta \<Rightarrow> (pool \<times> reservation) option" where
  "aws_s3_default_buffer_pool_reserve M future p meta =
     (if m_size meta = 0 then None
      else case s_find_preallocated_buffer p (m_meta_request meta) of
        Some buffer \<Rightarrow>
          Some (p, case s_reserve_from_preallocated_buffer buffer meta of Inl e \<Rightarrow> Failed e | Inr b \<Rightarrow> Preallocated b)
      | None \<Rightarrow>
          if m_size meta > mem_limit p then Some (p, Failed AWS_ERROR_S3_PART_SIZE_EXCEEDS_MEMORY_LIMIT)
          else if m_can_block meta
          then Some (p, Granted (new_ticket (m_size meta) True
                 (if m_size meta \<le> primary_size_cutoff p \<and> m_size meta \<ge> primary_size_min_cutoff p
                  then RESERVED_FROM_PRIMARY else RESERVED_FROM_SECONDARY)))
          else case s_try_reserve_synced M p meta of
            (p', Some t) \<Rightarrow> Some (p', Granted t)
          | (p', None) \<Rightarrow>
              Some (p'\<lparr>pending_reserves := pending_reserves p' @ [\<lparr>pr_future = future, pr_meta = meta\<rparr>]\<rparr>, Queued))"

subsection \<open>Claiming memory\<close>

definition chunks_of :: "pool \<Rightarrow> usize \<Rightarrow> usize" where
  "chunks_of p sz = (if sz mod chunk_size p \<noteq> 0 then sz div chunk_size p + 1 else sz div chunk_size p)"

text \<open>The search of the existing blocks: the first block with a free run of chunks, lowest chunk first.\<close>

definition find_chunks :: "u16 \<Rightarrow> usize \<Rightarrow> nat option" where
  "find_chunks bits chunks_needed =
     List.find (\<lambda>chunk_i. \<not> s_check_bits bits chunk_i (unat chunks_needed))
       [0..<unat (s_chunks_per_block - chunks_needed + 1)]"

definition primary_search ::
    "usize \<Rightarrow> usize \<Rightarrow> s3_buffer_pool_block list \<Rightarrow> (s3_buffer_pool_block list \<times> nat) option" where
  "primary_search chunk chunks_needed =
     update_first (\<lambda>b.
       case find_chunks (alloc_bit_mask b) chunks_needed of
         Some chunk_i \<Rightarrow>
           Some (b\<lparr>alloc_bit_mask := s_set_bits (alloc_bit_mask b) chunk_i (unat chunks_needed)\<rparr>,
                 block_ptr b + chunk_i * unat chunk)
       | None \<Rightarrow> None)"

text \<open>Without a free run, a new block is appended and its first chunks are taken.\<close>

definition primary_place :: "(usize \<Rightarrow> nat) \<Rightarrow> pool \<Rightarrow> usize \<Rightarrow> pool \<times> nat" where
  "primary_place mem_acquire p chunks_needed =
     (case primary_search (chunk_size p) chunks_needed (blocks p) of
        Some (bs, ptr) \<Rightarrow> (p\<lparr>blocks := bs\<rparr>, ptr)
      | None \<Rightarrow>
          let ptr = mem_acquire (pool_block_size p);
              block = \<lparr>block_size = pool_block_size p, block_ptr = ptr,
                       alloc_bit_mask = s_set_bits 0 0 (unat chunks_needed)\<rparr>
          in (p\<lparr>blocks := blocks p @ [block],
                primary_allocated := primary_allocated p + pool_block_size p\<rparr>, ptr))"

definition s_primary_acquire_synced :: "(usize \<Rightarrow> nat) \<Rightarrow> pool \<Rightarrow> ticket \<Rightarrow> pool \<times> ticket" where
  "s_primary_acquire_synced mem_acquire p t =
     (let chunks_needed = chunks_of p (t_size t);
          (p1, alloc_ptr) = primary_place mem_acquire p chunks_needed;
          p2 = p1\<lparr>primary_used := primary_used p1 + t_size t\<rparr>;
          p3 = (if \<not> t_forced t then p2\<lparr>primary_reserved := primary_reserved p2 - t_size t\<rparr> else p2)
      in (p3, t\<lparr>t_ptr := alloc_ptr, t_chunks_used := chunks_needed\<rparr>))"

text \<open>The search of a special list: the first block not in use is taken whole.\<close>

definition special_search :: "s3_buffer_pool_block list \<Rightarrow> (s3_buffer_pool_block list \<times> nat) option" where
  "special_search =
     update_first (\<lambda>b. if alloc_bit_mask b = 0 then Some (b\<lparr>alloc_bit_mask := - 1\<rparr>, block_ptr b) else None)"

fun alist_set :: "'k \<Rightarrow> 'v \<Rightarrow> ('k \<times> 'v) list \<Rightarrow> ('k \<times> 'v) list" where
  "alist_set k v [] = []"
| "alist_set k v ((k', v') # rest) = (if k' = k then (k, v) # rest else (k', v') # alist_set k v rest)"

definition s_acquire_buffer_synced :: "(usize \<Rightarrow> nat) \<Rightarrow> pool \<Rightarrow> ticket \<Rightarrow> (pool \<times> ticket) option" where
  "s_acquire_buffer_synced mem_acquire p t =
     Option.bind
       (case t_reserved_from t of
          RESERVED_FROM_SPECIAL \<Rightarrow>
            (case map_of (special_blocks p) (t_size t) of
               None \<Rightarrow> None
             | Some bs \<Rightarrow>
                 let (p1, ptr) =
                   (case special_search bs of
                      Some (bs', ptr) \<Rightarrow> (p\<lparr>special_blocks := alist_set (t_size t) bs' (special_blocks p)\<rparr>, ptr)
                    | None \<Rightarrow>
                        let ptr = mem_acquire (t_size t);
                            block = \<lparr>block_size = t_size t, block_ptr = ptr, alloc_bit_mask = - 1\<rparr>
                        in (p\<lparr>special_blocks := alist_set (t_size t) (bs @ [block]) (special_blocks p),
                              special_blocks_allocated := special_blocks_allocated p + t_size t\<rparr>, ptr))
                 in Some (p1\<lparr>special_blocks_used := special_blocks_used p1 + t_size t,
                            special_blocks_reserved := special_blocks_reserved p1 - t_size t\<rparr>,
                          t\<lparr>t_ptr := ptr\<rparr>))
        | RESERVED_FROM_PRIMARY \<Rightarrow> Some (s_primary_acquire_synced mem_acquire p t)
        | RESERVED_FROM_SECONDARY \<Rightarrow>
            let p1 = p\<lparr>secondary_used := secondary_used p + t_size t\<rparr>;
                p2 = (if \<not> t_forced t then p1\<lparr>secondary_reserved := secondary_reserved p1 - t_size t\<rparr> else p1)
            in Some (p2, t\<lparr>t_ptr := mem_acquire (t_size t)\<rparr>))
       (\<lambda>(p', t'). Some (if t_forced t' then p'\<lparr>forced_used := forced_used p' + t_size t'\<rparr> else p', t'))"

definition aws_s3_default_buffer_pool_acquire_buffer ::
    "(usize \<Rightarrow> nat) \<Rightarrow> pool \<Rightarrow> ticket \<Rightarrow> (pool \<times> ticket) option" where
  "aws_s3_default_buffer_pool_acquire_buffer mem_acquire p t =
     (if t_ptr t \<noteq> 0 then Some (p, t) else s_acquire_buffer_synced mem_acquire p t)"

subsection \<open>Releasing a ticket\<close>

text \<open>The block of a special list that holds the ticket's memory is marked free, if it was in use.\<close>

definition special_return :: "nat \<Rightarrow> s3_buffer_pool_block list \<Rightarrow> s3_buffer_pool_block list option" where
  "special_return ptr bs =
     map_option fst (update_first (\<lambda>b.
       if block_ptr b = ptr \<and> alloc_bit_mask b = - 1 then Some (b\<lparr>alloc_bit_mask := 0\<rparr>, ()) else None) bs)"

text \<open>The bits of the primary block that contains the ticket's memory are cleared.\<close>

definition primary_return ::
    "usize \<Rightarrow> usize \<Rightarrow> nat \<Rightarrow> s3_buffer_pool_block list \<Rightarrow> s3_buffer_pool_block list option" where
  "primary_return chunk chunks_used ptr bs =
     map_option fst (update_first (\<lambda>b.
       if block_ptr b \<le> ptr \<and> block_ptr b + unat (block_size b) > ptr
       then let alloc_i = (ptr - block_ptr b) div unat chunk
            in Some (b\<lparr>alloc_bit_mask := s_clear_bits (alloc_bit_mask b) alloc_i (unat chunks_used)\<rparr>, ())
       else None) bs)"

definition return_ticket :: "pool \<Rightarrow> ticket \<Rightarrow> pool option" where
  "return_ticket p t =
     (if t_ptr t = 0
      then Some (case t_reserved_from t of
          RESERVED_FROM_SPECIAL \<Rightarrow> p\<lparr>special_blocks_reserved := special_blocks_reserved p - t_size t\<rparr>
        | RESERVED_FROM_PRIMARY \<Rightarrow> p\<lparr>primary_reserved := primary_reserved p - t_size t\<rparr>
        | RESERVED_FROM_SECONDARY \<Rightarrow> p\<lparr>secondary_reserved := secondary_reserved p - t_size t\<rparr>)
      else case t_reserved_from t of
          RESERVED_FROM_SPECIAL \<Rightarrow>
            Some (case map_of (special_blocks p) (t_size t) of
                None \<Rightarrow> p
              | Some bs \<Rightarrow>
                  (case special_return (t_ptr t) bs of
                     None \<Rightarrow> p
                   | Some bs' \<Rightarrow>
                       p\<lparr>special_blocks := alist_set (t_size t) bs' (special_blocks p),
                         special_blocks_used := special_blocks_used p - t_size t\<rparr>))
        | RESERVED_FROM_PRIMARY \<Rightarrow>
            (case primary_return (chunk_size p) (chunks_of p (t_size t)) (t_ptr t) (blocks p) of
               None \<Rightarrow> None
             | Some bs \<Rightarrow>
                 let p1 = p\<lparr>blocks := bs, primary_used := primary_used p - t_size t\<rparr>
                 in Some (if t_forced t then p1\<lparr>forced_used := forced_used p1 - t_size t\<rparr> else p1))
        | RESERVED_FROM_SECONDARY \<Rightarrow>
            let p1 = p\<lparr>secondary_used := secondary_used p - t_size t\<rparr>
            in Some (if t_forced t then p1\<lparr>forced_used := forced_used p1 - t_size t\<rparr> else p1))"

text \<open>The waiting reservations are served in order until one of them cannot be.\<close>

fun serve_pending :: "aws_math \<Rightarrow> pool \<Rightarrow> pending_reserve list \<Rightarrow> pool \<times> (nat \<times> ticket) list" where
  "serve_pending M p [] = (p\<lparr>pending_reserves := []\<rparr>, [])"
| "serve_pending M p (r # rs) =
     (case s_try_reserve_synced M p (pr_meta r) of
        (p', Some t) \<Rightarrow> let (p'', done) = serve_pending M p' rs in (p'', (pr_future r, t) # done)
      | (p', None) \<Rightarrow> (p'\<lparr>pending_reserves := r # rs\<rparr>, []))"

text \<open>
  A future that is done while its reservation waits was cancelled; the code asserts that such a
  future holds an error (\<open>failed\<close>), drops it, and then serves the remaining reservations.
\<close>

definition s_aws_ticket_wrapper_destroy ::
    "aws_math \<Rightarrow> (nat \<Rightarrow> bool) \<Rightarrow> (nat \<Rightarrow> bool) \<Rightarrow> pool \<Rightarrow> ticket \<Rightarrow> (pool \<times> (nat \<times> ticket) list) option" where
  "s_aws_ticket_wrapper_destroy M is_done failed p t =
     (case return_ticket p t of
        None \<Rightarrow> None
      | Some p1 \<Rightarrow>
          if list_ex (\<lambda>r. is_done (pr_future r) \<and> \<not> failed (pr_future r)) (pending_reserves p1) then None
          else Some (serve_pending M p1 (filter (\<lambda>r. \<not> is_done (pr_future r)) (pending_reserves p1))))"

subsection \<open>Special sizes, alignment, usage, destruction\<close>

definition s_default_pool_add_special_size :: "pool \<Rightarrow> usize \<Rightarrow> pool" where
  "s_default_pool_add_special_size p buffer_size =
     (if buffer_size \<le> primary_size_cutoff p then p
      else if map_of (special_blocks p) buffer_size \<noteq> None then p
      else p\<lparr>special_blocks := special_blocks p @ [(buffer_size, [])]\<rparr>)"

definition s_default_pool_release_special_size :: "pool \<Rightarrow> usize \<Rightarrow> pool" where
  "s_default_pool_release_special_size p buffer_size = s_buffer_pool_trim_special_blocks_synced p"

definition s_default_pool_derive_aligned_buffer_size :: "pool \<Rightarrow> u64 \<Rightarrow> u64" where
  "s_default_pool_derive_aligned_buffer_size p sz =
     (if chunk_size p = 0 then sz
      else let chunks_needed = sz div chunk_size p;
               chunks_needed = (if sz mod chunk_size p \<noteq> 0 then chunks_needed + 1 else chunks_needed)
           in chunks_needed * chunk_size p)"

record usage_stats =
  us_mem_limit :: usize
  us_primary_cutoff :: usize
  us_primary_min_cutoff :: usize
  us_primary_allocated :: usize
  us_primary_used :: usize
  us_primary_reserved :: usize
  us_primary_num_blocks :: usize
  us_secondary_used :: usize
  us_secondary_reserved :: usize
  us_special_blocks_allocated :: usize
  us_special_blocks_num :: usize
  us_special_blocks_reserved :: usize
  us_special_blocks_used :: usize
  us_forced_used :: usize

definition aws_s3_default_buffer_pool_get_usage :: "pool \<Rightarrow> usage_stats" where
  "aws_s3_default_buffer_pool_get_usage p =
     \<lparr>us_mem_limit = mem_limit p, us_primary_cutoff = primary_size_cutoff p,
      us_primary_min_cutoff = primary_size_min_cutoff p, us_primary_allocated = primary_allocated p,
      us_primary_used = primary_used p, us_primary_reserved = primary_reserved p,
      us_primary_num_blocks = of_nat (length (blocks p)), us_secondary_used = secondary_used p,
      us_secondary_reserved = secondary_reserved p, us_special_blocks_allocated = special_blocks_allocated p,
      us_special_blocks_num = of_nat (length (special_blocks p)), us_special_blocks_reserved = special_blocks_reserved p,
      us_special_blocks_used = special_blocks_used p, us_forced_used = forced_used p\<rparr>"

definition aws_s3_default_buffer_pool_destroy :: "(nat \<Rightarrow> bool) \<Rightarrow> pool \<Rightarrow> unit option" where
  "aws_s3_default_buffer_pool_destroy is_done p =
     (if list_all (\<lambda>b. alloc_bit_mask b = 0) (blocks p) \<and>
         list_all (\<lambda>r. is_done (pr_future r)) (pending_reserves p)
      then Some () else None)"

subsection \<open>The bit masks are sets of chunks\<close>

lemma chunk_mask_bit: "n \<le> 8 \<Longrightarrow> bit (drop_bit (8 - n) (0x00FF :: u16)) k \<longleftrightarrow> k < n"
proof -
  assume "n \<le> 8"
  have "(0x00FF :: u16) = mask 8" by (simp add: mask_eq_exp_minus_1)
  then show ?thesis using \<open>n \<le> 8\<close> by (simp only: bit_drop_bit_eq bit_mask_iff o_def) auto
qed

lemma bit_s_set_bits:
  assumes "n \<le> 8" "pos + n \<le> 16"
  shows "bit (s_set_bits num pos n) c \<longleftrightarrow> bit num c \<or> (pos \<le> c \<and> c < pos + n)"
  using assms unfolding s_set_bits_def Let_def bit_or_iff bit_push_bit_iff
  by (auto simp: chunk_mask_bit)

lemma bit_s_clear_bits:
  assumes "n \<le> 8" "pos + n \<le> 16"
  shows "bit (s_clear_bits num pos n) c \<longleftrightarrow> bit num c \<and> \<not> (pos \<le> c \<and> c < pos + n)"
  using assms bit_imp_le_length [of num c]
  unfolding s_clear_bits_def Let_def bit_and_iff bit_not_iff bit_push_bit_iff
  by (auto simp: chunk_mask_bit)

lemma s_check_bits_iff:
  assumes "n \<le> 8"
  shows "s_check_bits num pos n \<longleftrightarrow> (\<exists>c. pos \<le> c \<and> c < pos + n \<and> bit num c)"
proof -
  have "s_check_bits num pos n \<longleftrightarrow> (\<exists>k. bit num (pos + k) \<and> k < n)"
  proof -
    have nz: "w \<noteq> 0 \<longleftrightarrow> (\<exists>k. bit w k)" for w :: u16
      by (metis bit_0_eq bit_eq_iff bot_apply bot_bool_def)
    have "bit (drop_bit pos num AND drop_bit (8 - n) (0x00FF :: u16)) k \<longleftrightarrow> bit num (pos + k) \<and> k < n" for k
      by (subst bit_and_iff, subst chunk_mask_bit [OF assms]) (simp add: bit_drop_bit_eq)
    then show ?thesis unfolding s_check_bits_def Let_def nz by (rule ex_cong1)
  qed
  also have "\<dots> \<longleftrightarrow> (\<exists>c. pos \<le> c \<and> c < pos + n \<and> bit num c)"
    by (metis add_less_cancel_left le_add1 le_Suc_ex)
  finally show ?thesis .
qed

subsection \<open>The forced-buffer allowance stays below the limit\<close>

lemma significant_bits_bounds: "n < 2 ^ significant_bits n \<and> (n > 0 \<longrightarrow> 2 ^ (significant_bits n - 1) \<le> n)"
proof (induction n rule: significant_bits.induct)
  case (1 n)
  show ?case
  proof (cases "n = 0")
    case False
    with 1 have IH: "n div 2 < 2 ^ significant_bits (n div 2)"
      "n div 2 > 0 \<longrightarrow> 2 ^ (significant_bits (n div 2) - 1) \<le> n div 2" by auto
    have eq: "significant_bits n = Suc (significant_bits (n div 2))" using False by (simp add: significant_bits.simps [of n])
    have "2 ^ significant_bits (n div 2) \<le> n"
    proof (cases "n div 2 = 0")
      case True then show ?thesis using False by (simp add: significant_bits.simps)
    next
      case n2: False
      then have "significant_bits (n div 2) > 0" by (simp add: significant_bits.simps)
      then obtain k where "significant_bits (n div 2) = Suc k" by (cases "significant_bits (n div 2)") auto
      with IH(2) n2 have "2 * 2 ^ k \<le> 2 * (n div 2)" by simp
      also have "\<dots> \<le> n" by simp
      finally show ?thesis by (simp add: \<open>significant_bits (n div 2) = Suc k\<close>)
    qed
    moreover have "n < 2 * 2 ^ significant_bits (n div 2)" using IH(1) by linarith
    ultimately show ?thesis by (simp add: eq)
  qed (simp add: significant_bits.simps)
qed

lemma round_double_le: "round_double n * 2 ^ 53 \<le> n * (2 ^ 53 + 1)"
proof (cases "significant_bits n \<le> 53")
  case True
  then show ?thesis by (simp add: round_double_def)
next
  case False
  define k where "k = significant_bits n - 53"
  have n0: "n > 0" using False by (cases n) (auto simp: significant_bits.simps)
  have "2 ^ (k + 52) \<le> n"
    using significant_bits_bounds [of n] n0 False by (simp add: k_def)
  then have big: "2 ^ k * 2 ^ 52 \<le> n" by (simp add: power_add)
  have "round_double n * 2 \<le> n * 2 + 2 ^ k"
  proof -
    have "n = n div 2 ^ k * 2 ^ k + n mod 2 ^ k" by (rule div_mult_mod_eq [symmetric])
    moreover have "2 * (n mod 2 ^ k) \<ge> 2 ^ k \<or> round_double n = n div 2 ^ k * 2 ^ k"
      by (simp add: round_double_def k_def Let_def)
    moreover have "round_double n \<le> n div 2 ^ k * 2 ^ k + 2 ^ k"
      by (simp add: round_double_def k_def Let_def)
    ultimately show ?thesis by linarith
  qed
  then have "round_double n * 2 * 2 ^ 52 \<le> (n * 2 + 2 ^ k) * 2 ^ 52" by (rule mult_le_mono1)
  then show ?thesis using big by simp
qed

lemma max_impact_le_limit: "max_impact_of_forced_on_limit limit \<le> limit"
proof -
  let ?L = "unat limit"
  define A where "A = round_double ?L"
  define B where "B = round_double (A * 7205759403792794)"
  have "A * 2 ^ 53 \<le> ?L * (2 ^ 53 + 1)" unfolding A_def by (rule round_double_le)
  then have "A * 7205759403792794 * (2 ^ 53 + 1) * 2 ^ 53 \<le> ?L * (2 ^ 53 + 1) * (7205759403792794 * (2 ^ 53 + 1))"
    by (simp add: mult.assoc mult.commute mult.left_commute)
  moreover have "B * 2 ^ 53 \<le> A * 7205759403792794 * (2 ^ 53 + 1)" unfolding B_def by (rule round_double_le)
  ultimately have "B * (2 ^ 53 * 2 ^ 53) \<le> ?L * ((2 ^ 53 + 1) * (7205759403792794 * (2 ^ 53 + 1)))" by simp
  also have "\<dots> \<le> ?L * (2 ^ 53 * 2 ^ 53 * 2 ^ 53)" by (intro mult_le_mono2) simp
  finally have "B \<le> ?L * 2 ^ 53" by simp
  then have le: "B div 2 ^ 53 \<le> ?L" by (metis div_le_mono nonzero_mult_div_cancel_right power_not_zero zero_neq_numeral)
  then have "unat (of_nat (B div 2 ^ 53) :: usize) = B div 2 ^ 53"
    using unat_lt2p64 [of limit] by (simp add: unat_of_nat)
  with le show ?thesis by (simp add: word_le_nat_alt max_impact_of_forced_on_limit_def B_def A_def)
qed

end
