(* ===== verification/S3_Buffer_Pool_Inv.thy ===== *)
theory S3_Buffer_Pool_Inv
  imports S3_Buffer_Pool
begin

section \<open>The invariant of the buffer pool\<close>

text \<open>
  The invariant of a pool together with the multiset of its outstanding tickets: the usage
  counters are the sums over the tickets, the tickets that are not forced stay within the
  memory limit, and the bit masks describe exactly which memory is in use. The lemmas here say
  what the searches of the code find and how placing a ticket in a block, taking it out and
  changing a special list affect the parts of the invariant.
\<close>

subsection \<open>Disjoint regions\<close>

type_synonym region = "nat \<times> nat"

definition disj :: "region \<Rightarrow> region \<Rightarrow> bool" where
  "disj r q \<longleftrightarrow> fst r + snd r \<le> fst q \<or> fst q + snd q \<le> fst r"

definition pdisj :: "region multiset \<Rightarrow> bool" where
  "pdisj M \<longleftrightarrow> (\<forall>x y. add_mset x {#y#} \<subseteq># M \<longrightarrow> disj x y)"

lemma disj_sym: "disj r q \<longleftrightarrow> disj q r"
  by (auto simp: disj_def)

lemma pdisj_empty [simp]: "pdisj {#}"
  by (simp add: pdisj_def)

lemma pdisj_subset: "pdisj M \<Longrightarrow> N \<subseteq># M \<Longrightarrow> pdisj N"
  by (meson pdisj_def subset_mset.order_trans)

lemma pdisj_add: "pdisj (add_mset x M) \<longleftrightarrow> pdisj M \<and> (\<forall>y\<in>#M. disj x y)"
proof
  assume *: "pdisj (add_mset x M)"
  then have "pdisj M" by (rule pdisj_subset) simp
  moreover have "disj x y" if "y \<in># M" for y
  proof -
    have "add_mset x {#y#} \<subseteq># add_mset x M" using that by (simp only: mset_subset_eq_add_mset_cancel single_subset_iff)
    with * show ?thesis unfolding pdisj_def by blast
  qed
  ultimately show "pdisj M \<and> (\<forall>y\<in>#M. disj x y)" by blast
next
  assume *: "pdisj M \<and> (\<forall>y\<in>#M. disj x y)"
  show "pdisj (add_mset x M)" unfolding pdisj_def
  proof (intro allI impI)
    fix a b assume sub: "add_mset a {#b#} \<subseteq># add_mset x M"
    consider "a = x" | "b = x" "a \<noteq> x" | "a \<noteq> x" "b \<noteq> x" by blast
    then show "disj a b"
    proof cases
      case 1
      with sub have "{#b#} \<subseteq># M" by (simp only: mset_subset_eq_add_mset_cancel)
      then have "b \<in># M" by (rule mset_subset_eqD) simp
      with * 1 show ?thesis by simp
    next
      case 2
      then have "a \<in># M" using mset_subset_eqD [OF sub, of a] by simp
      with * 2 show ?thesis by (simp add: disj_sym)
    next
      case 3
      have "count (add_mset a {#b#}) z \<le> count M z" for z
        using mset_subset_eq_count [OF sub, of z] 3 by (cases "z = x") auto
      then have "add_mset a {#b#} \<subseteq># M" unfolding subseteq_mset_def by blast
      with * show ?thesis unfolding pdisj_def by blast
    qed
  qed
qed

subsection \<open>Sums over the outstanding tickets\<close>

definition wsum :: "(ticket \<Rightarrow> bool) \<Rightarrow> ticket multiset \<Rightarrow> usize" where
  "wsum P L = (\<Sum>t\<in>#filter_mset P L. t_size t)"

definition nsum :: "(ticket \<Rightarrow> bool) \<Rightarrow> ticket multiset \<Rightarrow> nat" where
  "nsum P L = (\<Sum>t\<in>#filter_mset P L. unat (t_size t))"

lemma wsum_simps [simp]:
  "wsum P {#} = 0" "wsum P (add_mset t L) = (if P t then t_size t else 0) + wsum P L"
  by (simp_all add: wsum_def)

lemma nsum_simps [simp]:
  "nsum P {#} = 0" "nsum P (add_mset t L) = (if P t then unat (t_size t) else 0) + nsum P L"
  by (simp_all add: nsum_def)

lemma wsum_of_nsum: "wsum P L = of_nat (nsum P L)"
  by (induction L) simp_all

lemma nsum_split: "nsum P L = nsum (\<lambda>t. P t \<and> Q t) L + nsum (\<lambda>t. P t \<and> \<not> Q t) L"
  by (induction L) auto

lemma nsum_mono: "(\<And>t. t \<in># L \<Longrightarrow> P t \<Longrightarrow> Q t) \<Longrightarrow> nsum P L \<le> nsum Q L"
  by (induction L) (auto intro: add_mono)

lemma nsum_member: "t \<in># L \<Longrightarrow> P t \<Longrightarrow> unat (t_size t) \<le> nsum P L"
  by (auto dest!: multi_member_split)

subsection \<open>The invariant\<close>

definition claimed :: "ticket \<Rightarrow> bool" where
  "claimed t \<longleftrightarrow> t_ptr t \<noteq> 0"

abbreviation in_primary :: "ticket \<Rightarrow> bool" where "in_primary t \<equiv> t_reserved_from t = RESERVED_FROM_PRIMARY"
abbreviation in_secondary :: "ticket \<Rightarrow> bool" where "in_secondary t \<equiv> t_reserved_from t = RESERVED_FROM_SECONDARY"
abbreviation in_special :: "ticket \<Rightarrow> bool" where "in_special t \<equiv> t_reserved_from t = RESERVED_FROM_SPECIAL"

text \<open>How the sizes of a pool relate, and that its limit leaves room in the 64-bit sums.\<close>

definition shape :: "pool \<Rightarrow> bool" where
  "shape p \<longleftrightarrow> unat (mem_limit p) < 2 ^ 62 \<and> unat (pool_block_size p) = 16 * unat (chunk_size p) \<and>
     unat (primary_size_cutoff p) = 4 * unat (chunk_size p)"

definition ticket_ok :: "pool \<Rightarrow> ticket \<Rightarrow> bool" where
  "ticket_ok p t \<longleftrightarrow> 0 < t_size t \<and> t_size t \<le> mem_limit p \<and>
     (in_primary t \<longrightarrow> t_size t \<le> primary_size_cutoff p) \<and> (in_special t \<longrightarrow> \<not> t_forced t)"

definition pending_ok :: "pool \<Rightarrow> bool" where
  "pending_ok p \<longleftrightarrow> (\<forall>r\<in>set (pending_reserves p). 0 < m_size (pr_meta r) \<and> m_size (pr_meta r) \<le> mem_limit p)"

text \<open>
  The counters are the sums over the outstanding tickets \<open>L\<close>, less what was subtracted for the forced tickets \<open>U\<close> that
  were released without being claimed: reserving them had added nothing.
\<close>

definition accounts :: "ticket multiset \<Rightarrow> pool \<Rightarrow> ticket multiset \<Rightarrow> bool" where
  "accounts U p L \<longleftrightarrow>
     primary_used p = wsum (\<lambda>t. claimed t \<and> in_primary t) L \<and>
     primary_reserved p = wsum (\<lambda>t. \<not> claimed t \<and> in_primary t \<and> \<not> t_forced t) L - wsum in_primary U \<and>
     secondary_used p = wsum (\<lambda>t. claimed t \<and> in_secondary t) L \<and>
     secondary_reserved p = wsum (\<lambda>t. \<not> claimed t \<and> in_secondary t \<and> \<not> t_forced t) L - wsum in_secondary U \<and>
     special_blocks_used p = wsum (\<lambda>t. claimed t \<and> in_special t) L \<and>
     special_blocks_reserved p = wsum (\<lambda>t. \<not> claimed t \<and> in_special t \<and> \<not> t_forced t) L \<and>
     forced_used p = wsum (\<lambda>t. claimed t \<and> t_forced t) L \<and>
     (\<forall>t\<in>#U. \<not> in_special t)"

text \<open>The bytes of a collection of tickets.\<close>

definition bytes_of :: "ticket multiset \<Rightarrow> nat" where
  "bytes_of U = (\<Sum>t\<in>#U. unat (t_size t))"

lemma bytes_of_simps [simp]:
  "bytes_of {#} = 0" "bytes_of (add_mset t U) = unat (t_size t) + bytes_of U"
  by (simp_all add: bytes_of_def)

definition within_limit :: "ticket multiset \<Rightarrow> pool \<Rightarrow> ticket multiset \<Rightarrow> bool" where
  "within_limit U p L \<longleftrightarrow> nsum (\<lambda>t. \<not> t_forced t) L \<le> unat (mem_limit p) + bytes_of U \<and>
     nsum (\<lambda>t. claimed t \<and> t_forced t) L < 2 ^ 62 \<and> bytes_of U < 2 ^ 62"

text \<open>Regions of memory obtained from the allocator, and the chunks of a block a ticket covers.\<close>

definition block_region :: "s3_buffer_pool_block \<Rightarrow> region" where
  "block_region b = (block_ptr b, unat (block_size b))"

definition ticket_region :: "ticket \<Rightarrow> region" where
  "ticket_region t = (t_ptr t, unat (t_size t))"

definition regions :: "pool \<Rightarrow> ticket multiset \<Rightarrow> region multiset" where
  "regions p L = image_mset block_region (mset (blocks p)) +
     image_mset block_region (mset (concat (map snd (special_blocks p)))) +
     image_mset ticket_region (filter_mset (\<lambda>t. claimed t \<and> in_secondary t) L)"

definition placed :: "pool \<Rightarrow> s3_buffer_pool_block \<Rightarrow> nat \<Rightarrow> ticket \<Rightarrow> bool" where
  "placed p b i t \<longleftrightarrow> claimed t \<and> in_primary t \<and> t_ptr t = block_ptr b + i * unat (chunk_size p)"

definition covers :: "pool \<Rightarrow> s3_buffer_pool_block \<Rightarrow> nat \<Rightarrow> ticket \<Rightarrow> bool" where
  "covers p b c t \<longleftrightarrow> (\<exists>i. placed p b i t \<and> i \<le> c \<and> c < i + unat (chunks_of p (t_size t)))"

definition primary_ok :: "pool \<Rightarrow> ticket multiset \<Rightarrow> bool" where
  "primary_ok p L \<longleftrightarrow>
     (\<forall>b\<in>set (blocks p). block_size b = pool_block_size p \<and> 0 < block_ptr b \<and>
        (\<forall>c<16. size (filter_mset (covers p b c) L) = of_bool (bit (alloc_bit_mask b) c))) \<and>
     (\<forall>t\<in>#L. claimed t \<and> in_primary t \<longrightarrow>
        (\<exists>b\<in>set (blocks p). \<exists>i. placed p b i t \<and> i + unat (chunks_of p (t_size t)) \<le> 16))"

definition held :: "usize \<Rightarrow> s3_buffer_pool_block \<Rightarrow> ticket \<Rightarrow> bool" where
  "held sz b t \<longleftrightarrow> claimed t \<and> in_special t \<and> t_size t = sz \<and> t_ptr t = block_ptr b"

definition special_ok :: "pool \<Rightarrow> ticket multiset \<Rightarrow> bool" where
  "special_ok p L \<longleftrightarrow>
     distinct (map fst (special_blocks p)) \<and>
     (\<forall>sz bs b. (sz, bs) \<in> set (special_blocks p) \<longrightarrow> b \<in> set bs \<longrightarrow> block_size b = sz \<and> 0 < block_ptr b \<and>
        (alloc_bit_mask b = 0 \<or> alloc_bit_mask b = - 1) \<and>
        size (filter_mset (held sz b) L) = of_bool (alloc_bit_mask b = - 1)) \<and>
     (\<forall>t\<in>#L. in_special t \<longrightarrow>
        (\<exists>bs. map_of (special_blocks p) (t_size t) = Some bs \<and> (claimed t \<longrightarrow> (\<exists>b\<in>set bs. held (t_size t) b t))))"

definition pool_inv :: "ticket multiset \<Rightarrow> pool \<Rightarrow> ticket multiset \<Rightarrow> bool" where
  "pool_inv U p L \<longleftrightarrow> shape p \<and> (\<forall>t\<in>#L. ticket_ok p t) \<and> pending_ok p \<and> accounts U p L \<and> within_limit U p L \<and>
     primary_ok p L \<and> special_ok p L \<and> pdisj (regions p L)"

subsection \<open>Chunk counts\<close>

lemma chunks_of_bounds:
  assumes "shape p" "0 < sz" "sz \<le> primary_size_cutoff p"
  shows "0 < unat (chunk_size p)" "1 \<le> unat (chunks_of p sz)" "unat (chunks_of p sz) \<le> 4"
    "unat sz \<le> unat (chunks_of p sz) * unat (chunk_size p)"
proof -
  have sz: "0 < unat sz" "unat sz \<le> 4 * unat (chunk_size p)"
    using assms by (auto simp: shape_def word_le_nat_alt word_less_nat_alt)
  then show pos: "0 < unat (chunk_size p)" by linarith
  have le: "div_ceil (unat sz) (unat (chunk_size p)) \<le> 4" using sz pos by (intro div_ceil_bound) auto
  have "unat (chunks_of p sz) = div_ceil (unat sz) (unat (chunk_size p))"
  proof (cases "sz mod chunk_size p \<noteq> 0")
    case True
    then have m: "unat sz mod unat (chunk_size p) > 0" by (simp add: word_unat_eq_iff unat_mod)
    with le have "unat (sz div chunk_size p) + 1 \<le> 4" by (simp add: div_ceil_def unat_div)
    then have "unat (sz div chunk_size p + 1) = unat (sz div chunk_size p) + 1" by (simp add: unat_add_nowrap)
    with True m show ?thesis by (simp add: chunks_of_def div_ceil_def unat_div)
  next
    case False
    then show ?thesis by (simp add: chunks_of_def div_ceil_def unat_div word_unat_eq_iff unat_mod)
  qed
  with le pos sz show "1 \<le> unat (chunks_of p sz)" "unat (chunks_of p sz) \<le> 4"
    "unat sz \<le> unat (chunks_of p sz) * unat (chunk_size p)"
    using div_ceil_less_mult [OF pos, of 0 "unat sz"] div_ceil_mult_ge [OF pos, of "unat sz"] by auto
qed

lemma chunks_of_cong: "chunk_size p = chunk_size q \<Longrightarrow> chunks_of p = chunks_of q"
  by (simp add: chunks_of_def fun_eq_iff)

subsection \<open>What the searches find\<close>

lemma find_chunks_Some:
  assumes "find_chunks m n = Some i" "1 \<le> unat n" "unat n \<le> 4"
  shows "i + unat n \<le> 16" "\<forall>c. i \<le> c \<and> c < i + unat n \<longrightarrow> \<not> bit m c"
proof -
  have "unat (s_chunks_per_block - n) = 16 - unat n"
    using assms by (simp add: s_chunks_per_block_def unat_sub_nowrap)
  then have "unat (s_chunks_per_block - n + 1) = 17 - unat n"
    using assms by (subst unat_add_nowrap) auto
  moreover from assms(1) have "i < unat (s_chunks_per_block - n + 1)" and nb: "\<not> s_check_bits m i (unat n)"
    by (auto simp: find_chunks_def find_Some_iff)
  ultimately show "i + unat n \<le> 16" using assms by linarith
  show "\<forall>c. i \<le> c \<and> c < i + unat n \<longrightarrow> \<not> bit m c"
    using nb s_check_bits_iff [of "unat n" m i] assms by auto
qed

lemma primary_search_SomeE:
  assumes "primary_search cs n bs = Some (bs', ptr)" "1 \<le> unat n" "unat n \<le> 4"
  obtains xs b ys i where "bs = xs @ b # ys"
    "bs' = xs @ b\<lparr>alloc_bit_mask := s_set_bits (alloc_bit_mask b) i (unat n)\<rparr> # ys"
    "ptr = block_ptr b + i * unat cs" "i + unat n \<le> 16"
    "\<forall>c. i \<le> c \<and> c < i + unat n \<longrightarrow> \<not> bit (alloc_bit_mask b) c"
proof -
  from assms(1) obtain us x vs i where "bs = us @ x # vs" and i: "find_chunks (alloc_bit_mask x) n = Some i"
    and "bs' = us @ x\<lparr>alloc_bit_mask := s_set_bits (alloc_bit_mask x) i (unat n)\<rparr> # vs" "ptr = block_ptr x + i * unat cs"
    unfolding primary_search_def by (elim update_first_SomeE) (auto split: option.splits)
  then show thesis using that find_chunks_Some [OF i assms(2,3)] by blast
qed

lemma primary_return_SomeE:
  assumes "primary_return cs n ptr bs = Some bs'"
  obtains xs b ys where "bs = xs @ b # ys" "block_ptr b \<le> ptr" "ptr < block_ptr b + unat (block_size b)"
    "bs' = xs @ b\<lparr>alloc_bit_mask := s_clear_bits (alloc_bit_mask b) ((ptr - block_ptr b) div unat cs) (unat n)\<rparr> # ys"
proof -
  from assms obtain r where "update_first (\<lambda>b.
       if block_ptr b \<le> ptr \<and> block_ptr b + unat (block_size b) > ptr
       then let alloc_i = (ptr - block_ptr b) div unat cs
            in Some (b\<lparr>alloc_bit_mask := s_clear_bits (alloc_bit_mask b) alloc_i (unat n)\<rparr>, ())
       else None) bs = Some (bs', r)"
    unfolding primary_return_def by (cases, auto)
  then show thesis using that by (elim update_first_SomeE) (auto simp: Let_def split: if_splits)
qed

lemma primary_return_None_iff:
  "primary_return cs n ptr bs = None \<longleftrightarrow>
     (\<forall>b\<in>set bs. \<not> (block_ptr b \<le> ptr \<and> ptr < block_ptr b + unat (block_size b)))"
  by (auto simp: primary_return_def update_first_None_iff Let_def)

lemma special_search_SomeE:
  assumes "special_search bs = Some (bs', ptr)"
  obtains xs b ys where "bs = xs @ b # ys" "alloc_bit_mask b = 0" "bs' = xs @ b\<lparr>alloc_bit_mask := - 1\<rparr> # ys" "ptr = block_ptr b"
  using assms unfolding special_search_def by (elim update_first_SomeE) (auto split: if_splits)

lemma special_return_SomeE:
  assumes "special_return ptr bs = Some bs'"
  obtains xs b ys where "bs = xs @ b # ys" "block_ptr b = ptr" "alloc_bit_mask b = - 1" "bs' = xs @ b\<lparr>alloc_bit_mask := 0\<rparr> # ys"
proof -
  from assms obtain r where "update_first (\<lambda>b.
       if block_ptr b = ptr \<and> alloc_bit_mask b = - 1 then Some (b\<lparr>alloc_bit_mask := 0\<rparr>, ()) else None) bs = Some (bs', r)"
    unfolding special_return_def by (cases, auto)
  then show thesis using that by (elim update_first_SomeE) (auto split: if_splits)
qed

lemma special_return_None_iff:
  "special_return ptr bs = None \<longleftrightarrow> (\<forall>b\<in>set bs. \<not> (block_ptr b = ptr \<and> alloc_bit_mask b = - 1))"
  by (auto simp: special_return_def update_first_None_iff)

lemma trim_blocks_eq: "snd (trim_blocks a bs) = filter (\<lambda>b. alloc_bit_mask b \<noteq> 0) bs"
  by (induction a bs rule: trim_blocks.induct) (auto simp: Let_def split: prod.splits)

definition trimmed_lists where
  "trimmed_lists removable ls = filter (\<lambda>(sz, bs). \<not> (bs = [] \<and> removable))
     (map (\<lambda>(sz, bs). (sz, filter (\<lambda>b. alloc_bit_mask b \<noteq> 0) bs)) ls)"

lemma trim_special_lists_eq: "snd (trim_special_lists removable a ls) = trimmed_lists removable ls"
  by (induction ls arbitrary: a)
    (auto simp: trimmed_lists_def Let_def split_beta trim_blocks_eq)

subsection \<open>Frame facts\<close>

lemma placed_cong: "chunk_size p = chunk_size q \<Longrightarrow> placed p = placed q"
  by (simp add: placed_def fun_eq_iff)

lemma covers_cong: "chunk_size p = chunk_size q \<Longrightarrow> covers p = covers q"
  using placed_cong [of p q] chunks_of_cong [of p q] by (simp add: covers_def fun_eq_iff)

lemma placed_mask [simp]: "placed p (b\<lparr>alloc_bit_mask := m\<rparr>) = placed p b"
  by (simp add: placed_def fun_eq_iff)

lemma covers_mask [simp]: "covers p (b\<lparr>alloc_bit_mask := m\<rparr>) = covers p b"
  by (simp add: covers_def fun_eq_iff)

lemma block_region_mask [simp]: "block_region (b\<lparr>alloc_bit_mask := m\<rparr>) = block_region b"
  by (simp add: block_region_def)

lemma held_mask [simp]: "held sz (b\<lparr>alloc_bit_mask := m\<rparr>) = held sz b"
  by (simp add: held_def fun_eq_iff)

lemma primary_ok_cong:
  "chunk_size p = chunk_size q \<Longrightarrow> pool_block_size p = pool_block_size q \<Longrightarrow> blocks p = blocks q \<Longrightarrow>
   primary_ok p L = primary_ok q L"
  using placed_cong [of p q] covers_cong [of p q] chunks_of_cong [of p q] by (simp add: primary_ok_def)

lemma special_ok_cong: "special_blocks p = special_blocks q \<Longrightarrow> special_ok p L = special_ok q L"
  by (simp add: special_ok_def)

lemma regions_cong: "blocks p = blocks q \<Longrightarrow> special_blocks p = special_blocks q \<Longrightarrow> regions p L = regions q L"
  by (simp add: regions_def)

lemma shape_cong:
  "mem_limit p = mem_limit q \<Longrightarrow> pool_block_size p = pool_block_size q \<Longrightarrow> chunk_size p = chunk_size q \<Longrightarrow>
   primary_size_cutoff p = primary_size_cutoff q \<Longrightarrow> shape p = shape q"
  by (simp add: shape_def)

lemma ticket_ok_cong:
  "mem_limit p = mem_limit q \<Longrightarrow> primary_size_cutoff p = primary_size_cutoff q \<Longrightarrow> ticket_ok p = ticket_ok q"
  by (simp add: ticket_ok_def fun_eq_iff)

lemma not_covers: "\<not> claimed t \<or> \<not> in_primary t \<Longrightarrow> \<not> covers p b c t"
  by (auto simp: covers_def placed_def)

lemma primary_ok_other: "\<not> claimed t \<or> \<not> in_primary t \<Longrightarrow> primary_ok p (add_mset t L) \<longleftrightarrow> primary_ok p L"
  by (auto simp: primary_ok_def not_covers)

lemma special_ok_other: "\<not> in_special t \<Longrightarrow> special_ok p (add_mset t L) \<longleftrightarrow> special_ok p L"
  by (auto simp: special_ok_def held_def)

lemma regions_other: "\<not> claimed t \<or> \<not> in_secondary t \<Longrightarrow> regions p (add_mset t L) = regions p L"
  by (auto simp: regions_def)

lemma blocks_disjoint:
  assumes "pdisj (image_mset block_region (mset (xs @ b # ys)))" "a \<in> set xs \<union> set ys"
  shows "disj (block_region b) (block_region a)"
  using assms by (auto simp: pdisj_add)

lemma placed_inside:
  assumes "placed p b i t" "i < 16" "block_size b = pool_block_size p" "shape p" "0 < unat (chunk_size p)"
  shows "block_ptr b \<le> t_ptr t" "t_ptr t < block_ptr b + unat (block_size b)"
  using assms by (auto simp: placed_def shape_def)

lemma placed_one_block:
  assumes "placed p b i t" "i < 16" "placed p a j t" "j < 16" "disj (block_region b) (block_region a)"
    "block_size b = pool_block_size p" "block_size a = pool_block_size p" "shape p" "0 < unat (chunk_size p)"
  shows False
  using placed_inside [OF assms(1,2,6,8,9)] placed_inside [OF assms(3,4,7,8,9)] assms(5)
  by (auto simp: disj_def block_region_def)

lemma placed_unique: "placed p b i t \<Longrightarrow> placed p b j t \<Longrightarrow> 0 < unat (chunk_size p) \<Longrightarrow> i = j"
  by (simp add: placed_def)

subsection \<open>Placing a ticket in a block and taking it out\<close>

lemma placed_chunks:
  assumes "shape p" "ticket_ok p t" "placed p b i t" "n = unat (chunks_of p (t_size t))"
  shows "1 \<le> n" "n \<le> 4" "0 < unat (chunk_size p)"
  using chunks_of_bounds [OF assms(1), of "t_size t"] assms(2-4) by (auto simp: ticket_ok_def placed_def)

lemma placed_covers:
  assumes sh: "shape p" and t: "ticket_ok p t" "placed p b i t" and n: "n = unat (chunks_of p (t_size t))"
  shows "covers p b c t \<longleftrightarrow> i \<le> c \<and> c < i + n"
  using t(2) placed_unique [OF t(2)] placed_chunks [OF sh t n] n unfolding covers_def by blast

lemma placed_covers_other:
  assumes sh: "shape p" and pd: "pdisj (image_mset block_region (mset (xs @ b # ys)))"
    and bsz: "\<forall>x\<in>set (xs @ b # ys). block_size x = pool_block_size p"
    and t: "ticket_ok p t" "placed p b i t"
    and n: "n = unat (chunks_of p (t_size t))" "i + n \<le> 16"
    and a: "a \<in> set xs \<union> set ys" and c: "c < 16"
  shows "\<not> covers p a c t"
  using placed_one_block [OF t(2) _ _ _ blocks_disjoint [OF pd a] _ _ sh] bsz placed_chunks [OF sh t n(1)] n a c
  unfolding covers_def by force

lemma primary_ok_place:
  assumes ok: "primary_ok p L" and sh: "shape p" and bs: "blocks p = xs @ b # ys"
    and pd: "pdisj (image_mset block_region (mset (xs @ b # ys)))"
    and t: "ticket_ok p t" "placed p b i t"
    and n: "n = unat (chunks_of p (t_size t))" "i + n \<le> 16"
    and free: "\<forall>c. i \<le> c \<and> c < i + n \<longrightarrow> \<not> bit (alloc_bit_mask b) c"
    and q: "blocks q = xs @ b\<lparr>alloc_bit_mask := s_set_bits (alloc_bit_mask b) i n\<rparr> # ys"
      "chunk_size q = chunk_size p" "pool_block_size q = pool_block_size p"
  shows "primary_ok q (add_mset t L)"
proof -
  have same: "placed q = placed p" "covers q = covers p" "chunks_of q = chunks_of p"
    using q(2) placed_cong covers_cong chunks_of_cong by metis+
  have bsz: "\<forall>x\<in>set (xs @ b # ys). block_size x = pool_block_size p"
    using ok bs unfolding primary_ok_def by metis
  note cov = placed_covers [OF sh t n(1)] and cov_other = placed_covers_other [OF sh pd bsz t n]
    and n1 = placed_chunks [OF sh t n(1)]
  have count: "size (filter_mset (covers p a c) (add_mset t L)) = of_bool (bit (alloc_bit_mask a') c)"
    if a: "a' \<in> set (blocks q)" "a = a'\<lparr>alloc_bit_mask := 0\<rparr>" and c: "c < 16" for a a' c
  proof -
    consider "a' = b\<lparr>alloc_bit_mask := s_set_bits (alloc_bit_mask b) i n\<rparr>" | "a' \<in> set xs \<union> set ys"
      using a(1) q(1) by auto
    then show ?thesis
    proof cases
      case 1
      have "size (filter_mset (covers p b c) L) = of_bool (bit (alloc_bit_mask b) c)"
        using ok bs c unfolding primary_ok_def by auto
      then show ?thesis using 1 a(2) cov [of c] free n1 n(2) by (auto simp: bit_s_set_bits)
    next
      case 2
      then have "size (filter_mset (covers p a' c) L) = of_bool (bit (alloc_bit_mask a') c)"
        using ok bs c unfolding primary_ok_def by auto
      then show ?thesis using a(2) cov_other [OF 2 c] by simp
    qed
  qed
  have tickets: "\<exists>a\<in>set (blocks q). \<exists>j. placed p a j u \<and> j + unat (chunks_of p (t_size u)) \<le> 16"
    if u: "u \<in># add_mset t L" "claimed u" "in_primary u" for u
  proof (cases "u = t")
    case True
    then show ?thesis using t(2) n q(1) by (auto intro!: bexI [of _ "b\<lparr>alloc_bit_mask := s_set_bits (alloc_bit_mask b) i n\<rparr>"])
  next
    case False
    with u ok obtain a j where "a \<in> set (blocks p)" "placed p a j u" "j + unat (chunks_of p (t_size u)) \<le> 16"
      unfolding primary_ok_def by auto
    then show ?thesis using bs q(1) by (cases "a = b") auto
  qed
  have ptrs: "block_size a = pool_block_size p \<and> 0 < block_ptr a" if "a \<in> set (blocks q)" for a
    using that ok bs q(1) unfolding primary_ok_def by auto
  show ?thesis unfolding primary_ok_def same q(3)
    using count ptrs tickets by simp
qed

lemma primary_ok_new_block:
  assumes ok: "primary_ok p L" and sh: "shape p" and cs: "0 < unat (chunk_size p)"
    and b: "block_size b = pool_block_size p" "0 < block_ptr b" "alloc_bit_mask b = 0"
    and fresh: "\<forall>a\<in>set (blocks p). disj (block_region b) (block_region a)"
    and wf: "\<forall>t\<in>#L. ticket_ok p t"
    and q: "blocks q = blocks p @ [b]" "chunk_size q = chunk_size p" "pool_block_size q = pool_block_size p"
  shows "primary_ok q L"
proof -
  have same: "placed q = placed p" "covers q = covers p" "chunks_of q = chunks_of p"
    using q(2) placed_cong covers_cong chunks_of_cong by metis+
  have "\<not> covers p b c t" if c: "c < 16" and t: "t \<in># L" for c t
  proof
    assume "covers p b c t"
    then obtain i where i: "placed p b i t" "i \<le> c" by (auto simp: covers_def)
    then have "claimed t" "in_primary t" by (auto simp: placed_def)
    with ok t obtain a j where a: "a \<in> set (blocks p)" "placed p a j t" "j + unat (chunks_of p (t_size t)) \<le> 16"
      unfolding primary_ok_def by blast
    have "1 \<le> unat (chunks_of p (t_size t))"
      using chunks_of_bounds [OF sh] wf t \<open>in_primary t\<close> by (auto simp: ticket_ok_def)
    then show False
      using placed_one_block [OF i(1) _ a(2) _ _ b(1) _ sh cs] i(2) c a ok fresh
      unfolding primary_ok_def by force
  qed
  then have "size (filter_mset (covers p b c) L) = of_bool (bit (alloc_bit_mask b) c)" if "c < 16" for c
    using that b(3) by (simp add: filter_mset_eq_conv [THEN iffD2])
  then show ?thesis using ok b(1,2) unfolding primary_ok_def same q by auto
qed

lemma primary_ok_unplace:
  assumes ok: "primary_ok p (add_mset t L)" and sh: "shape p" and bs: "blocks p = xs @ b # ys"
    and pd: "pdisj (image_mset block_region (mset (xs @ b # ys)))"
    and t: "ticket_ok p t" "placed p b i t"
    and n: "n = unat (chunks_of p (t_size t))" "i + n \<le> 16"
    and q: "blocks q = xs @ b\<lparr>alloc_bit_mask := s_clear_bits (alloc_bit_mask b) i n\<rparr> # ys"
      "chunk_size q = chunk_size p" "pool_block_size q = pool_block_size p"
  shows "primary_ok q L"
proof -
  have same: "placed q = placed p" "covers q = covers p" "chunks_of q = chunks_of p"
    using q(2) placed_cong covers_cong chunks_of_cong by metis+
  have bsz: "\<forall>x\<in>set (xs @ b # ys). block_size x = pool_block_size p"
    using ok bs unfolding primary_ok_def by metis
  note cov = placed_covers [OF sh t n(1)] and cov_other = placed_covers_other [OF sh pd bsz t n]
    and n1 = placed_chunks [OF sh t n(1)]
  have count: "size (filter_mset (covers p a c) L) = of_bool (bit (alloc_bit_mask a) c)"
    if a: "a \<in> set (blocks q)" and c: "c < 16" for a c
  proof -
    consider "a = b\<lparr>alloc_bit_mask := s_clear_bits (alloc_bit_mask b) i n\<rparr>" | "a \<in> set xs \<union> set ys"
      using a(1) q(1) by auto
    then show ?thesis
    proof cases
      case 1
      have "size (filter_mset (covers p b c) (add_mset t L)) = of_bool (bit (alloc_bit_mask b) c)"
        using ok bs c unfolding primary_ok_def by auto
      then show ?thesis using 1 cov [of c] n1 n(2)
        by (cases "bit (alloc_bit_mask b) c") (auto simp: bit_s_clear_bits split: if_splits)
    next
      case 2
      then have "size (filter_mset (covers p a c) (add_mset t L)) = of_bool (bit (alloc_bit_mask a) c)"
        using ok bs c unfolding primary_ok_def by auto
      then show ?thesis using cov_other [OF 2 c] by simp
    qed
  qed
  have tickets: "\<exists>a\<in>set (blocks q). \<exists>j. placed p a j u \<and> j + unat (chunks_of p (t_size u)) \<le> 16"
    if u: "u \<in># L" "claimed u" "in_primary u" for u
  proof -
    from u(1) have "u \<in># add_mset t L" by simp
    with u ok obtain a j where "a \<in> set (blocks p)" "placed p a j u" "j + unat (chunks_of p (t_size u)) \<le> 16"
      unfolding primary_ok_def by blast
    then show ?thesis using bs q(1) by (cases "a = b") auto
  qed
  have ptrs: "block_size a = pool_block_size p \<and> 0 < block_ptr a" if "a \<in> set (blocks q)" for a
    using that ok bs q(1) unfolding primary_ok_def by auto
  show ?thesis unfolding primary_ok_def same q(3)
    using count ptrs tickets by simp
qed

text \<open>A block with mask 0 holds no ticket, so trimming frees no memory in use.\<close>

lemma primary_ok_trim:
  assumes ok: "primary_ok p L" and sh: "shape p" and wf: "\<forall>t\<in>#L. ticket_ok p t"
    and q: "blocks q = filter (\<lambda>b. alloc_bit_mask b \<noteq> 0) (blocks p)"
      "chunk_size q = chunk_size p" "pool_block_size q = pool_block_size p"
  shows "primary_ok q L"
proof -
  have same: "placed q = placed p" "covers q = covers p" "chunks_of q = chunks_of p"
    using q(2) placed_cong covers_cong chunks_of_cong by metis+
  have "\<exists>a\<in>set (blocks q). \<exists>j. placed p a j u \<and> j + unat (chunks_of p (t_size u)) \<le> 16"
    if u: "u \<in># L" "claimed u" "in_primary u" for u
  proof -
    from u ok obtain a j where a: "a \<in> set (blocks p)" "placed p a j u" "j + unat (chunks_of p (t_size u)) \<le> 16"
      unfolding primary_ok_def by blast
    have ch: "1 \<le> unat (chunks_of p (t_size u))"
      using chunks_of_bounds [OF sh] wf u by (auto simp: ticket_ok_def)
    with a have "covers p a j u" by (auto simp: covers_def)
    with u(1) have "u \<in># filter_mset (covers p a j) L" by simp
    then have "size (filter_mset (covers p a j) L) \<noteq> 0" by (metis empty_iff set_mset_empty size_eq_0_iff_empty)
    moreover have "size (filter_mset (covers p a j) L) = of_bool (bit (alloc_bit_mask a) j)"
      using ok a ch unfolding primary_ok_def by auto
    ultimately have "bit (alloc_bit_mask a) j" by (metis of_bool_eq(1))
    then have "alloc_bit_mask a \<noteq> 0" by auto
    with a q(1) show ?thesis by auto
  qed
  then show ?thesis using ok unfolding primary_ok_def same q by auto
qed

subsection \<open>Special lists\<close>

lemma alist_set_split:
  assumes "map_of l k = Some v"
  obtains us vs where "l = us @ (k, v) # vs" "\<And>v'. alist_set k v' l = us @ (k, v') # vs"
  using assms
proof (induction l arbitrary: thesis)
  case (Cons x l)
  show ?case
  proof (cases "fst x = k")
    case True
    with Cons.prems(2) have "x = (k, v)" by (cases x) auto
    then show ?thesis using Cons.prems(1) [of "[]" l] by simp
  next
    case False
    with Cons.prems(2) have "map_of l k = Some v" by (cases x) auto
    from Cons.IH [OF _ this] obtain us vs where "l = us @ (k, v) # vs" "\<And>v'. alist_set k v' l = us @ (k, v') # vs" by blast
    with False show ?thesis using Cons.prems(1) [of "x # us" vs] by (cases x) auto
  qed
qed simp

lemma special_ok_lists:
  assumes "special_ok p L" "special_blocks p = us @ (sz, bs) # vs"
  shows "distinct (map fst (us @ (sz, bs') # vs))" "map_of (us @ (sz, bs') # vs) sz = Some bs'"
    "k \<noteq> sz \<Longrightarrow> map_of (us @ (sz, bs') # vs) k = map_of (special_blocks p) k"
    "(k, cs) \<in> set us \<union> set vs \<Longrightarrow> k \<noteq> sz"
proof -
  have d: "distinct (map fst (us @ (sz, bs) # vs))" using assms unfolding special_ok_def by metis
  then show "distinct (map fst (us @ (sz, bs') # vs))" by simp
  then show "map_of (us @ (sz, bs') # vs) sz = Some bs'" by (rule map_of_is_SomeI) simp
  show "k \<noteq> sz \<Longrightarrow> map_of (us @ (sz, bs') # vs) k = map_of (special_blocks p) k"
    by (simp add: assms(2) map_add_def split: option.split)
  show "(k, cs) \<in> set us \<union> set vs \<Longrightarrow> k \<noteq> sz" using d by force
qed

lemma special_ok_update:
  assumes ok: "special_ok p L" and sp: "special_blocks p = us @ (sz, bs) # vs"
    and q: "special_blocks q = us @ (sz, bs') # vs"
    and other: "\<And>k a. k \<noteq> sz \<Longrightarrow> size (filter_mset (held k a) L') = size (filter_mset (held k a) L)"
    and here: "\<And>a. a \<in> set bs' \<Longrightarrow> block_size a = sz \<and> 0 < block_ptr a \<and>
        (alloc_bit_mask a = 0 \<or> alloc_bit_mask a = - 1) \<and>
        size (filter_mset (held sz a) L') = of_bool (alloc_bit_mask a = - 1)"
    and tickets: "\<And>t. t \<in># L' \<Longrightarrow> in_special t \<Longrightarrow>
        t \<in># L \<and> (t_size t = sz \<and> claimed t \<longrightarrow> (\<exists>b\<in>set bs'. held sz b t)) \<or>
        t_size t = sz \<and> (\<exists>b\<in>set bs'. held sz b t)"
  shows "special_ok q L'"
proof -
  note lists = special_ok_lists(1-3) [OF ok sp, where bs' = bs'] special_ok_lists(4) [OF ok sp]
  have "\<exists>cs. map_of (special_blocks q) (t_size t) = Some cs \<and> (claimed t \<longrightarrow> (\<exists>b\<in>set cs. held (t_size t) b t))"
    if "t \<in># L'" "in_special t" for t
  proof (cases "t_size t = sz")
    case True
    then show ?thesis using tickets [OF that] lists(2) q by auto
  next
    case False
    with tickets [OF that] have "t \<in># L" by blast
    with ok that(2) lists(3) [OF False] q show ?thesis unfolding special_ok_def by metis
  qed
  moreover have "block_size b = k \<and> 0 < block_ptr b \<and> (alloc_bit_mask b = 0 \<or> alloc_bit_mask b = - 1) \<and>
      size (filter_mset (held k b) L') = of_bool (alloc_bit_mask b = - 1)"
    if kb: "(k, cs) \<in> set (special_blocks q)" "b \<in> set cs" for k cs b
  proof (cases "(k, cs) = (sz, bs')")
    case True
    then show ?thesis using here kb by simp
  next
    case False
    with kb q have m: "(k, cs) \<in> set us \<union> set vs" by auto
    then have "(k, cs) \<in> set (special_blocks p)" using sp by auto
    then have "block_size b = k \<and> 0 < block_ptr b \<and> (alloc_bit_mask b = 0 \<or> alloc_bit_mask b = - 1) \<and>
      size (filter_mset (held k b) L) = of_bool (alloc_bit_mask b = - 1)"
      using ok kb(2) unfolding special_ok_def by blast
    then show ?thesis using other [OF lists(4) [OF m]] by simp
  qed
  ultimately show ?thesis using lists(1) q unfolding special_ok_def by metis
qed

lemma held_unique:
  assumes "pdisj (image_mset block_region (mset (xs @ b # ys)))" "a \<in> set xs \<union> set ys"
    "block_size a = sz" "block_size b = sz" "0 < sz"
  shows "block_ptr a \<noteq> block_ptr b"
  using blocks_disjoint [OF assms(1,2)] assms(3-5) by (auto simp: disj_def block_region_def word_less_nat_alt)

end
