(* ===== verification/S3_Buffer_Pool_Safety.thy ===== *)
theory S3_Buffer_Pool_Safety
  imports S3_Buffer_Pool_Inv
begin

section \<open>Safety of the buffer pool\<close>

text \<open>
  The pool and what its clients hold, as one transition system: a state is a pool, the multiset of outstanding tickets,
  the forced tickets released without being claimed, and the futures of the reservations; a step is one call of the pool's
  interface or the cancelling of a reservation. Every step keeps the invariant, which gives memory safety (no two claimed
  buffers overlap), what is left of the memory limit, and that the fatal assertions of the code cannot fail.
\<close>

subsection \<open>Trimming keeps the invariant\<close>

lemma map_of_trimmed:
  assumes "distinct (map fst ls)" "map_of ls k = Some bs" "filter (\<lambda>b. alloc_bit_mask b \<noteq> 0) bs \<noteq> [] \<or> \<not> r"
  shows "map_of (trimmed_lists r ls) k = Some (filter (\<lambda>b. alloc_bit_mask b \<noteq> 0) bs)"
proof (rule map_of_is_SomeI)
  show "distinct (map fst (trimmed_lists r ls))"
    using assms(1) by (auto simp: trimmed_lists_def o_def split_def intro!: distinct_map_filter)
  show "(k, filter (\<lambda>b. alloc_bit_mask b \<noteq> 0) bs) \<in> set (trimmed_lists r ls)"
    using map_of_SomeD [OF assms(2)] assms(3) by (force simp: trimmed_lists_def)
qed

lemma trimmed_blocks_subset: "mset (concat (map snd (trimmed_lists r ls))) \<subseteq># mset (concat (map snd ls))"
proof (induction ls)
  case (Cons x ls)
  have "mset (filter (\<lambda>b. alloc_bit_mask b \<noteq> 0) (snd x)) \<subseteq># mset (snd x)"
    by (simp add: mset_filter multiset_filter_subset)
  with Cons show ?case
    by (auto simp: trimmed_lists_def split_def intro: subset_mset.add_mono subset_mset.add_increasing)
qed (simp add: trimmed_lists_def)

lemma reserved_special_nonzero:
  assumes "accounts U p L" "within_limit U p L" "shape p" "t \<in># L" "in_special t" "\<not> claimed t" "ticket_ok p t"
  shows "special_blocks_reserved p \<noteq> 0"
proof -
  let ?P = "\<lambda>t. \<not> claimed t \<and> in_special t \<and> \<not> t_forced t"
  have "unat (t_size t) \<le> nsum ?P L" using assms(4-7) by (intro nsum_member) (auto simp: ticket_ok_def)
  moreover have "0 < unat (t_size t)" using assms(7) by (simp add: ticket_ok_def word_less_nat_alt)
  moreover have "nsum ?P L \<le> nsum (\<lambda>t. \<not> t_forced t) L" by (rule nsum_mono) simp
  moreover have "nsum (\<lambda>t. \<not> t_forced t) L < 2 ^ 63" using assms(2,3) by (auto simp: within_limit_def shape_def)
  ultimately have "0 < nsum ?P L" "nsum ?P L < 2 ^ 64" by auto
  then have "unat (of_nat (nsum ?P L) :: usize) \<noteq> 0" by (simp add: unat_of_nat)
  then show ?thesis using assms(1) by (auto simp: accounts_def wsum_of_nsum)
qed

lemma held_in_use:
  assumes "special_ok p L" "(sz, bs) \<in> set (special_blocks p)" "b \<in> set bs" "t \<in># L" "held sz b t"
  shows "alloc_bit_mask b = - 1"
proof -
  from assms(4,5) have "t \<in># filter_mset (held sz b) L" by simp
  then have "size (filter_mset (held sz b) L) \<noteq> 0" by (metis empty_iff set_mset_empty size_eq_0_iff_empty)
  moreover have "size (filter_mset (held sz b) L) = of_bool (alloc_bit_mask b = - 1)"
    using assms(1-3) unfolding special_ok_def by blast
  ultimately show ?thesis by (metis of_bool_eq(1))
qed

lemma special_ok_trim:
  assumes ok: "special_ok p L" and q: "special_blocks q = trimmed_lists r (special_blocks p)"
    and r: "\<And>t. r \<Longrightarrow> t \<in># L \<Longrightarrow> in_special t \<Longrightarrow> claimed t"
  shows "special_ok q L"
proof -
  have d: "distinct (map fst (special_blocks p))" using ok by (simp add: special_ok_def)
  then have "distinct (map fst (special_blocks q))"
    by (auto simp: q trimmed_lists_def o_def split_def intro!: distinct_map_filter)
  moreover have "\<exists>cs. (k, cs) \<in> set (special_blocks p) \<and> set bs \<subseteq> set cs" if "(k, bs) \<in> set (special_blocks q)" for k bs
    using that by (fastforce simp: q trimmed_lists_def)
  moreover have "\<exists>bs. map_of (special_blocks q) (t_size t) = Some bs \<and> (claimed t \<longrightarrow> (\<exists>b\<in>set bs. held (t_size t) b t))"
    if t: "t \<in># L" "in_special t" for t
  proof -
    obtain bs where bs: "map_of (special_blocks p) (t_size t) = Some bs" "claimed t \<longrightarrow> (\<exists>b\<in>set bs. held (t_size t) b t)"
      using ok t unfolding special_ok_def by blast
    show ?thesis
    proof (cases "claimed t")
      case True
      with bs obtain b where b: "b \<in> set bs" "held (t_size t) b t" by blast
      have "alloc_bit_mask b = - 1" using held_in_use [OF ok map_of_SomeD [OF bs(1)] b(1) t(1) b(2)] .
      with b have "b \<in> set (filter (\<lambda>b. alloc_bit_mask b \<noteq> 0) bs)" by simp
      moreover from this have "map_of (special_blocks q) (t_size t) = Some (filter (\<lambda>b. alloc_bit_mask b \<noteq> 0) bs)"
        unfolding q by (intro map_of_trimmed [OF d bs(1)]) (metis empty_iff empty_set)
      ultimately show ?thesis using b(2) by blast
    next
      case False
      with r t have "\<not> r" by blast
      then show ?thesis using False map_of_trimmed [OF d bs(1)] q by simp
    qed
  qed
  ultimately show ?thesis using ok unfolding special_ok_def by (meson subsetD)
qed

lemma trim_special_fields [simp]:
  fixes p defines "q \<equiv> s_buffer_pool_trim_special_blocks_synced p"
  shows "pool_block_size q = pool_block_size p" "chunk_size q = chunk_size p" "mem_limit q = mem_limit p"
    "primary_size_cutoff q = primary_size_cutoff p" "primary_size_min_cutoff q = primary_size_min_cutoff p"
    "primary_used q = primary_used p" "primary_reserved q = primary_reserved p"
    "secondary_used q = secondary_used p" "secondary_reserved q = secondary_reserved p"
    "special_blocks_used q = special_blocks_used p" "special_blocks_reserved q = special_blocks_reserved p"
    "forced_used q = forced_used p" "pending_reserves q = pending_reserves p" "blocks q = blocks p"
  by (simp_all add: q_def s_buffer_pool_trim_special_blocks_synced_def Let_def split_beta)

lemma trim_special_inv:
  assumes "pool_inv U p L"
  shows "pool_inv U (s_buffer_pool_trim_special_blocks_synced p) L"
proof -
  let ?q = "s_buffer_pool_trim_special_blocks_synced p"
  let ?r = "special_blocks_reserved p = 0 \<and> \<not> force_keeping_special_blocks p"
  note inv = assms [unfolded pool_inv_def]
  have q: "special_blocks ?q = trimmed_lists ?r (special_blocks p)"
    by (simp add: s_buffer_pool_trim_special_blocks_synced_def Let_def split_beta trim_special_lists_eq)
  have "special_ok ?q L"
    using inv reserved_special_nonzero by (intro special_ok_trim [OF _ q]) blast+
  moreover have "regions ?q L \<subseteq># regions p L"
    unfolding regions_def q trim_special_fields
    by (intro subset_mset.add_mono image_mset_subseteq_mono trimmed_blocks_subset subset_mset.order_refl)
  then have "pdisj (regions ?q L)" using inv pdisj_subset by blast
  ultimately show ?thesis
    using inv unfolding pool_inv_def
    by (simp add: shape_def ticket_ok_def pending_ok_def accounts_def within_limit_def
        primary_ok_cong [of ?q p])
qed

lemma trim_inv:
  assumes "pool_inv U p L"
  shows "pool_inv U (s_buffer_pool_trim_synced p) L"
proof -
  note inv = assms [unfolded pool_inv_def]
  define q where "q = p\<lparr>primary_allocated := fst (trim_blocks (primary_allocated p) (blocks p)),
    blocks := filter (\<lambda>b. alloc_bit_mask b \<noteq> 0) (blocks p)\<rparr>"
  have "primary_ok q L" using inv by (intro primary_ok_trim [of p L q]) (auto simp: q_def)
  moreover have "regions q L \<subseteq># regions p L"
    unfolding regions_def q_def
    by (auto intro!: image_mset_subseteq_mono simp: mset_filter multiset_filter_subset)
  then have "pdisj (regions q L)" using inv pdisj_subset by blast
  moreover have "special_ok q L" using inv special_ok_cong [of q p L] by (simp add: q_def)
  ultimately have "pool_inv U q L"
    using inv unfolding pool_inv_def
    by (simp add: q_def shape_def ticket_ok_def pending_ok_def accounts_def within_limit_def)
  then show ?thesis
    using trim_special_inv [of U q L]
    by (simp add: s_buffer_pool_trim_synced_def split_beta trim_blocks_eq q_def)
qed

subsection \<open>Reserving keeps the invariant\<close>

definition same_store :: "pool \<Rightarrow> pool \<Rightarrow> bool" where
  "same_store p q \<longleftrightarrow> mem_limit q = mem_limit p \<and> pool_block_size q = pool_block_size p \<and> chunk_size q = chunk_size p \<and>
     primary_size_cutoff q = primary_size_cutoff p \<and> blocks q = blocks p \<and> special_blocks q = special_blocks p \<and>
     pending_reserves q = pending_reserves p"

lemma same_store_inv:
  assumes "same_store p q"
  shows "shape q = shape p" "ticket_ok q = ticket_ok p" "pending_ok q = pending_ok p" "within_limit U q = within_limit U p"
    "primary_ok q = primary_ok p" "special_ok q = special_ok p" "regions q = regions p"
  using assms primary_ok_cong [of q p]
  by (auto simp: same_store_def shape_def ticket_ok_def pending_ok_def within_limit_def special_ok_def regions_def fun_eq_iff)

lemma grant_inv:
  assumes inv: "pool_inv U p L" and t: "\<not> claimed t" "ticket_ok p t"
    and sp: "in_special t \<Longrightarrow> map_of (special_blocks p) (t_size t) \<noteq> None"
    and lim: "\<not> t_forced t \<Longrightarrow> nsum (\<lambda>t. \<not> t_forced t) L + unat (t_size t) \<le> unat (mem_limit p) + bytes_of U"
    and q: "same_store p q" "accounts U q (add_mset t L)"
  shows "pool_inv U q (add_mset t L)"
proof -
  note inv = inv [unfolded pool_inv_def]
  have "within_limit U p (add_mset t L)" using inv t(1) lim by (auto simp: within_limit_def)
  moreover have "special_ok p (add_mset t L)"
  proof (cases "in_special t")
    case True
    have "\<not> held sz b t" for sz b using t(1) by (simp add: held_def)
    then show ?thesis using inv sp [OF True] t(1) by (auto simp: special_ok_def)
  next
    case False
    then show ?thesis using inv by (simp add: special_ok_other)
  qed
  ultimately show ?thesis
    using inv t q(2) unfolding pool_inv_def same_store_inv [OF q(1)]
    by (simp add: primary_ok_other regions_other)
qed

lemma wsum_primary_secondary:
  "\<forall>t\<in>#U. \<not> in_special t \<Longrightarrow> wsum in_primary U + wsum in_secondary U = of_nat (bytes_of U)"
proof (induction U)
  case (add t U)
  then show ?case by (cases "t_reserved_from t") (auto simp: algebra_simps)
qed simp

lemma overall_taken_sum:
  assumes "accounts U p L" "\<forall>t\<in>#L. ticket_ok p t"
  shows "overall_taken p = of_nat (nsum (\<lambda>t. \<not> t_forced t) L + nsum (\<lambda>t. claimed t \<and> t_forced t) L) - of_nat (bytes_of U)"
proof -
  have "wsum (\<lambda>t. claimed t \<and> in_primary t) L + wsum (\<lambda>t. \<not> claimed t \<and> in_primary t \<and> \<not> t_forced t) L +
      wsum (\<lambda>t. claimed t \<and> in_secondary t) L + wsum (\<lambda>t. \<not> claimed t \<and> in_secondary t \<and> \<not> t_forced t) L +
      wsum (\<lambda>t. \<not> claimed t \<and> in_special t \<and> \<not> t_forced t) L + wsum (\<lambda>t. claimed t \<and> in_special t) L =
      wsum (\<lambda>t. \<not> t_forced t) L + wsum (\<lambda>t. claimed t \<and> t_forced t) L"
    using assms(2)
  proof (induction L)
    case (add t L)
    then have "in_special t \<longrightarrow> \<not> t_forced t" by (simp add: ticket_ok_def)
    with add show ?case by (cases "t_reserved_from t") (auto simp: algebra_simps)
  qed simp
  moreover have "wsum in_primary U + wsum in_secondary U = of_nat (bytes_of U)"
    using assms(1) by (intro wsum_primary_secondary) (simp add: accounts_def)
  moreover have "a + (b - u) + c + (e - v) + f + g = (a + b + c + e + f + g) - (u + v)" for a b c e f g u v :: usize
    by (simp add: algebra_simps)
  ultimately show ?thesis
    using assms(1) by (simp only: accounts_def overall_taken_def of_nat_add wsum_of_nsum [symmetric])
qed

lemma limit_check:
  assumes inv: "pool_inv U p L" and sz: "sz \<le> mem_limit p"
    and impact: "impact \<le> mem_limit p"
    and chk: "sz + (if forced_used p > impact then (overall_taken p - forced_used p) + impact else overall_taken p) \<le> mem_limit p"
  shows "nsum (\<lambda>t. \<not> t_forced t) L + unat sz \<le> unat (mem_limit p) + bytes_of U"
proof -
  note inv = inv [unfolded pool_inv_def]
  define nf where "nf = nsum (\<lambda>t. \<not> t_forced t) L"
  define fc where "fc = nsum (\<lambda>t. claimed t \<and> t_forced t) L"
  define d where "d = bytes_of U"
  have b: "nf < 2 ^ 63" "fc < 2 ^ 62" "unat (mem_limit p) < 2 ^ 62"
    using inv by (auto simp: nf_def fc_def within_limit_def shape_def)
  have s: "unat sz \<le> unat (mem_limit p)" "unat impact \<le> unat (mem_limit p)"
    using sz impact by (simp_all add: word_le_nat_alt)
  have taken: "overall_taken p = of_nat (nf + fc) - of_nat d" "forced_used p = of_nat fc"
    using inv overall_taken_sum [of U p L] by (auto simp: nf_def fc_def d_def accounts_def wsum_of_nsum)
  define x where "x = (if forced_used p > impact then unat impact else fc)"
  have x: "x < 2 ^ 62" using b s by (auto simp: x_def)
  have eq: "sz + (if forced_used p > impact then (overall_taken p - forced_used p) + impact else overall_taken p) =
      of_nat (unat sz + (nf + x)) - of_nat d"
    by (simp add: taken x_def)
  show ?thesis
  proof (cases "d \<le> unat sz + (nf + x)")
    case True
    then have "of_nat (unat sz + (nf + x) - d) \<le> mem_limit p" using chk eq by (simp add: of_nat_diff)
    moreover have "unat (of_nat (unat sz + (nf + x) - d) :: usize) = unat sz + (nf + x) - d"
      unfolding unat_of_nat using b s x by simp
    ultimately show ?thesis by (simp add: word_le_nat_alt nf_def [symmetric] d_def [symmetric])
  qed (simp add: nf_def [symmetric] d_def [symmetric])
qed

lemma trim_mem_limit [simp]:
  "mem_limit (s_buffer_pool_trim_synced p) = mem_limit p"
  "pending_reserves (s_buffer_pool_trim_synced p) = pending_reserves p"
  "primary_size_cutoff (s_buffer_pool_trim_synced p) = primary_size_cutoff p"
  by (simp_all add: s_buffer_pool_trim_synced_def split_beta)

text \<open>What one attempt to reserve does: nothing but trimming, or it grants one ticket within the limit.\<close>

definition taken_for_limit :: "pool \<Rightarrow> usize" where
  "taken_for_limit p =
     (if forced_used p > max_impact_of_forced_on_limit (mem_limit p)
      then (overall_taken p - forced_used p) + max_impact_of_forced_on_limit (mem_limit p) else overall_taken p)"

definition granted :: "pool \<Rightarrow> usize \<Rightarrow> reserved_from \<Rightarrow> pool \<Rightarrow> bool" where
  "granted p sz src q \<longleftrightarrow> sz + taken_for_limit p \<le> mem_limit p \<and>
     (case src of
        RESERVED_FROM_SPECIAL \<Rightarrow> map_of (special_blocks p) sz \<noteq> None \<and>
          q = p\<lparr>special_blocks_reserved := special_blocks_reserved p + sz\<rparr>
      | RESERVED_FROM_PRIMARY \<Rightarrow> sz \<le> primary_size_cutoff p \<and> q = p\<lparr>primary_reserved := primary_reserved p + sz\<rparr>
      | RESERVED_FROM_SECONDARY \<Rightarrow> q = p\<lparr>secondary_reserved := secondary_reserved p + sz\<rparr>)"

lemma try_reserve_cases:
  assumes r: "s_try_reserve_synced M p0 meta = (q, r)"
  obtains p where "p = p0 \<or> p = s_buffer_pool_trim_synced p0" "r = None" "q = p"
  | p src where "p = p0 \<or> p = s_buffer_pool_trim_synced p0"
      "r = Some (new_ticket (m_size meta) False src)" "granted p (m_size meta) src q"
proof -
  let ?sp = "map_of (special_blocks p0) (m_size meta) \<noteq> None"
  define p where "p = (if s_should_trim_for_reserve_synced M ?sp (m_size meta) p0 (overall_taken p0)
      then s_buffer_pool_trim_synced p0 else p0)"
  have p: "p = p0 \<or> p = s_buffer_pool_trim_synced p0" by (simp add: p_def)
  have sp: "?sp \<Longrightarrow> p = p0" by (simp add: p_def s_should_trim_for_reserve_synced_def)
  have "(q, r) = (if m_size meta + taken_for_limit p \<le> mem_limit p
      then if ?sp then (p\<lparr>special_blocks_reserved := special_blocks_reserved p + m_size meta\<rparr>,
                 Some (new_ticket (m_size meta) False RESERVED_FROM_SPECIAL))
           else if m_size meta \<le> primary_size_cutoff p
           then
             if m_size meta \<le> primary_size_min_cutoff p
             then (p\<lparr>secondary_reserved := secondary_reserved p + m_size meta\<rparr>,
                   Some (new_ticket (m_size meta) False RESERVED_FROM_SECONDARY))
             else if primary_used p + primary_reserved p + m_size meta > primary_allocated p \<and>
                     taken_for_limit p + pool_block_size p > mem_limit p
             then (p\<lparr>secondary_reserved := secondary_reserved p + m_size meta\<rparr>,
                   Some (new_ticket (m_size meta) False RESERVED_FROM_SECONDARY))
             else (p\<lparr>primary_reserved := primary_reserved p + m_size meta\<rparr>,
                   Some (new_ticket (m_size meta) False RESERVED_FROM_PRIMARY))
           else (p\<lparr>secondary_reserved := secondary_reserved p + m_size meta\<rparr>,
                 Some (new_ticket (m_size meta) False RESERVED_FROM_SECONDARY))
      else (p, None))"
    unfolding r [symmetric] s_try_reserve_synced_def Let_def p_def [symmetric] taken_for_limit_def by (rule refl)
  then show thesis
    using that(1) [OF p] that(2) [OF p] sp by (auto simp: granted_def split: if_splits)
qed

lemma granted_inv:
  assumes inv: "pool_inv U p L" and sz: "0 < sz" "sz \<le> mem_limit p" and g: "granted p sz src q"
  shows "pool_inv U q (add_mset (new_ticket sz False src) L)"
proof (rule grant_inv [OF inv])
  have "nsum (\<lambda>t. \<not> t_forced t) L + unat sz \<le> unat (mem_limit p) + bytes_of U"
    using limit_check [OF inv sz(2) max_impact_le_limit] g by (simp add: granted_def taken_for_limit_def)
  then show "nsum (\<lambda>t. \<not> t_forced t) L + unat (t_size (new_ticket sz False src)) \<le> unat (mem_limit p) + bytes_of U"
    by (simp add: new_ticket_def)
  have "accounts U p L" using inv by (simp add: pool_inv_def)
  with g show "accounts U q (add_mset (new_ticket sz False src) L)"
    by (cases src) (auto simp: granted_def new_ticket_def claimed_def accounts_def)
qed (use sz g in \<open>cases src; auto simp: granted_def new_ticket_def claimed_def ticket_ok_def same_store_def\<close>)+

lemma pending_update_inv:
  assumes "pool_inv U p L" "\<forall>r\<in>set rs. 0 < m_size (pr_meta r) \<and> m_size (pr_meta r) \<le> mem_limit p"
  shows "pool_inv U (p\<lparr>pending_reserves := rs\<rparr>) L"
proof -
  let ?q = "p\<lparr>pending_reserves := rs\<rparr>"
  have "primary_ok ?q L = primary_ok p L" "special_ok ?q L = special_ok p L" "regions ?q L = regions p L"
    by (rule primary_ok_cong special_ok_cong regions_cong; simp)+
  then show ?thesis
    using assms unfolding pool_inv_def
    by (simp add: shape_def ticket_ok_def pending_ok_def accounts_def within_limit_def)
qed

lemma try_reserve_inv:
  assumes "pool_inv U p L" "0 < m_size meta" "m_size meta \<le> mem_limit p" "s_try_reserve_synced M p meta = (q, r)"
  shows "pool_inv U q (case r of None \<Rightarrow> L | Some t \<Rightarrow> add_mset t L)"
  using assms(4)
proof (cases rule: try_reserve_cases)
  case (1 p')
  then show ?thesis using assms(1) trim_inv by auto
next
  case (2 p' src)
  then show ?thesis using granted_inv [of U p' L "m_size meta" src q] assms(1-3) trim_inv by auto
qed

lemma try_reserve_frame:
  assumes "s_try_reserve_synced M p meta = (q, r)"
  shows "mem_limit q = mem_limit p" "pending_reserves q = pending_reserves p"
    "r = Some t \<Longrightarrow> t_size t = m_size meta \<and> \<not> t_forced t \<and> \<not> claimed t"
  using assms
  by (cases rule: try_reserve_cases;
      force simp: granted_def new_ticket_def claimed_def split: reserved_from.splits)+

lemma serve_pending_inv:
  assumes "pool_inv U p L" "\<forall>r\<in>set rs. 0 < m_size (pr_meta r) \<and> m_size (pr_meta r) \<le> mem_limit p"
    "serve_pending M p rs = (q, served)"
  shows "pool_inv U q (L + mset (map snd served))"
  using assms
proof (induction M p rs arbitrary: L q served rule: serve_pending.induct)
  case (1 M p)
  then show ?case using pending_update_inv by force
next
  case (2 M p r rs)
  obtain p' res where attempt: "s_try_reserve_synced M p (pr_meta r) = (p', res)" by fastforce
  have inv: "pool_inv U p' (case res of None \<Rightarrow> L | Some t \<Rightarrow> add_mset t L)"
    using try_reserve_inv [OF 2(2) _ _ attempt] 2(3) by simp
  note frame = try_reserve_frame(1,2) [OF attempt]
  show ?case
  proof (cases res)
    case None
    then show ?thesis using 2(3,4) attempt inv frame pending_update_inv [of U p' L "r # rs"] by auto
  next
    case (Some t)
    obtain p'' rest where serve: "serve_pending M p' rs = (p'', rest)" by fastforce
    with Some 2(4) attempt have "q = p''" "served = (pr_future r, t) # rest" by auto
    moreover have "pool_inv U p'' (add_mset t L + mset (map snd rest))"
      using 2(1) [OF attempt [symmetric] Some _ _ serve, of "add_mset t L"] inv Some 2(3) frame by simp
    ultimately show ?thesis by simp
  qed
qed

subsection \<open>Claiming keeps the invariant\<close>

definition same_config :: "pool \<Rightarrow> pool \<Rightarrow> bool" where
  "same_config p q \<longleftrightarrow> mem_limit q = mem_limit p \<and> pool_block_size q = pool_block_size p \<and> chunk_size q = chunk_size p \<and>
     primary_size_cutoff q = primary_size_cutoff p \<and> pending_reserves q = pending_reserves p"

lemma same_config_inv:
  assumes "same_config p q"
  shows "shape q = shape p" "ticket_ok q = ticket_ok p" "pending_ok q = pending_ok p" "within_limit U q = within_limit U p"
  using assms
  by (auto simp: same_config_def shape_def ticket_ok_def pending_ok_def within_limit_def fun_eq_iff)

text \<open>Memory from the allocator is not null and overlaps no memory the pool has obtained.\<close>

definition fresh_memory :: "(usize \<Rightarrow> nat) \<Rightarrow> pool \<Rightarrow> ticket multiset \<Rightarrow> bool" where
  "fresh_memory mem_acquire p L \<longleftrightarrow>
     (\<forall>sz > 0. 0 < mem_acquire sz \<and> (\<forall>r\<in>#regions p L. disj (mem_acquire sz, unat sz) r))"

abbreviation forced_room :: "ticket \<Rightarrow> ticket multiset \<Rightarrow> bool" where
  "forced_room t L \<equiv> t_forced t \<longrightarrow> nsum (\<lambda>t. claimed t \<and> t_forced t) L + unat (t_size t) < 2 ^ 62"

lemma unclaimed_inv:
  assumes "pool_inv U p (add_mset t L)" "t_ptr t = 0"
  shows "primary_ok p L" "pdisj (regions p L)" "shape p" "ticket_ok p t" "\<forall>t\<in>#L. ticket_ok p t"
    "regions p (add_mset t L) = regions p L" "accounts U p (add_mset t L)"
  using assms primary_ok_other [of t p L] regions_other [of t p L] by (auto simp: pool_inv_def claimed_def)

lemma claim_inv:
  assumes inv: "pool_inv U p (add_mset t L)" "t_ptr t = 0" and t': "t' = t\<lparr>t_ptr := ptr, t_chunks_used := n\<rparr>" "0 < ptr"
    and room: "forced_room t L" and q: "same_config p q" "accounts U q (add_mset t' L)"
    "primary_ok q (add_mset t' L)" "special_ok q (add_mset t' L)" "pdisj (regions q (add_mset t' L))"
  shows "pool_inv U q (add_mset t' L)"
proof -
  have "within_limit U p (add_mset t' L)" "\<forall>u\<in>#add_mset t' L. ticket_ok p u"
    using inv t' room by (auto simp: pool_inv_def within_limit_def claimed_def ticket_ok_def)
  then show ?thesis using inv(1) q unfolding pool_inv_def same_config_inv [OF q(1)] by blast
qed

lemma regions_parts:
  "image_mset block_region (mset (blocks p)) \<subseteq># regions p L"
  "image_mset block_region (mset (concat (map snd (special_blocks p)))) \<subseteq># regions p L"
  "image_mset ticket_region (filter_mset (\<lambda>t. claimed t \<and> in_secondary t) L) \<subseteq># regions p L"
  by (simp_all add: regions_def)

lemma primary_blocks_disjoint: "pdisj (regions p L) \<Longrightarrow> pdisj (image_mset block_region (mset (blocks p)))"
  using pdisj_subset regions_parts(1) by blast

lemma primary_place_frame:
  assumes "primary_place mem p n = (p1, ptr)"
  shows "same_config p p1" "special_blocks p1 = special_blocks p"
    "primary_used p1 = primary_used p" "primary_reserved p1 = primary_reserved p"
    "secondary_used p1 = secondary_used p" "secondary_reserved p1 = secondary_reserved p"
    "special_blocks_used p1 = special_blocks_used p" "special_blocks_reserved p1 = special_blocks_reserved p"
    "forced_used p1 = forced_used p"
  using assms by (auto simp: primary_place_def Let_def same_config_def split: option.splits)

lemma primary_place_inv:
  assumes inv: "pool_inv U p (add_mset t L)" "t_ptr t = 0" "in_primary t" and fresh: "fresh_memory mem p L"
    and n: "n = chunks_of p (t_size t)" and pl: "primary_place mem p n = (p1, ptr)"
    and t': "t' = t\<lparr>t_ptr := ptr, t_chunks_used := n\<rparr>"
  shows "0 < ptr \<and> primary_ok p1 (add_mset t' L) \<and> pdisj (regions p1 L)"
proof -
  note u = unclaimed_inv [OF inv(1,2)]
  have bnd: "0 < unat (chunk_size p)" "1 \<le> unat n" "unat n \<le> 4"
    using chunks_of_bounds [OF u(3), of "t_size t"] u(4) inv(3) by (auto simp: ticket_ok_def n)
  have tok: "ticket_ok p t'" "in_primary t'" "t_size t' = t_size t" "t_ptr t' = ptr"
    using u(4) inv(3) by (auto simp: t' ticket_ok_def)
  show ?thesis
  proof (cases "primary_search (chunk_size p) n (blocks p)")
    case (Some r)
    then obtain bs where "primary_search (chunk_size p) n (blocks p) = Some (bs, ptr)" and p1: "p1 = p\<lparr>blocks := bs\<rparr>"
      using pl by (cases r) (auto simp: primary_place_def)
    then obtain xs b ys i where bs: "blocks p = xs @ b # ys" "ptr = block_ptr b + i * unat (chunk_size p)" "i + unat n \<le> 16"
        "bs = xs @ b\<lparr>alloc_bit_mask := s_set_bits (alloc_bit_mask b) i (unat n)\<rparr> # ys"
        "\<forall>c. i \<le> c \<and> c < i + unat n \<longrightarrow> \<not> bit (alloc_bit_mask b) c"
      using primary_search_SomeE bnd(2,3) by metis
    have pos: "0 < block_ptr b" using u(1) bs(1) by (auto simp: primary_ok_def)
    then have "placed p b i t'" using tok bs(2) by (simp add: placed_def claimed_def)
    then have "primary_ok p1 (add_mset t' L)"
      using primary_blocks_disjoint [OF u(2)] bs n tok p1
      by (intro primary_ok_place [OF u(1,3) bs(1) _ tok(1)]) auto
    moreover have "regions p1 L = regions p L" by (simp add: regions_def p1 bs)
    ultimately show ?thesis using u(2) pos bs(2) by simp
  next
    case None
    define b where "b = \<lparr>block_size = pool_block_size p, block_ptr = ptr, alloc_bit_mask = 0\<rparr>"
    define p0 where "p0 = p\<lparr>blocks := blocks p @ [b]\<rparr>"
    have p1: "blocks p1 = blocks p @ [b\<lparr>alloc_bit_mask := s_set_bits 0 0 (unat n)\<rparr>]" "same_config p p1"
        "special_blocks p1 = special_blocks p" and ptr: "ptr = mem (pool_block_size p)"
      using pl None by (auto simp: primary_place_def Let_def b_def same_config_def)
    have "0 < unat (pool_block_size p)" using u(3) bnd(1) by (simp add: shape_def)
    then have b: "0 < ptr" "\<forall>r\<in>#regions p L. disj (block_region b) r"
      using fresh by (auto simp: fresh_memory_def ptr b_def block_region_def word_less_nat_alt)
    have sub: "block_region a \<in># regions p L" if "a \<in> set (blocks p)" for a
      using that by (auto simp: regions_def)
    have p0: "primary_ok p0 L"
      by (rule primary_ok_new_block [OF u(1,3) bnd(1), of b])
        (use b sub u(5) in \<open>auto simp: b_def p0_def\<close>)
    have reg: "regions p0 L = add_mset (block_region b) (regions p L)" "regions p1 L = regions p0 L"
      by (simp_all add: regions_def p0_def p1 b_def block_region_def)
    then have pd: "pdisj (regions p1 L)" using u(2) b(2) by (simp add: pdisj_add)
    moreover have "primary_ok p1 (add_mset t' L)"
    proof (rule primary_ok_place [OF p0, of "blocks p" b "[]" t' 0 "unat n"])
      show "placed p0 b 0 t'" using tok b(1) by (simp add: placed_def claimed_def b_def)
      show "pdisj (image_mset block_region (mset (blocks p @ [b])))"
        using primary_blocks_disjoint [of p0 L] pd reg by (simp add: p0_def)
    qed (use u(3) tok bnd n p1 in \<open>auto simp: p0_def b_def shape_def ticket_ok_def chunks_of_def same_config_def\<close>)
    ultimately show ?thesis using b(1) by simp
  qed
qed

lemma primary_acquire_inv:
  assumes inv: "pool_inv U p (add_mset t L)" "t_ptr t = 0" "in_primary t" and room: "forced_room t L"
    and fresh: "fresh_memory mem p L" and a: "s_acquire_buffer_synced mem p t = Some (q, t')"
  shows "pool_inv U q (add_mset t' L)"
proof -
  define n where "n = chunks_of p (t_size t)"
  obtain p1 ptr where pl: "primary_place mem p n = (p1, ptr)" by fastforce
  have t': "t' = t\<lparr>t_ptr := ptr, t_chunks_used := n\<rparr>"
    using a inv(3) pl by (auto simp: s_acquire_buffer_synced_def s_primary_acquire_synced_def n_def [symmetric] Let_def)
  note place = primary_place_inv [OF inv fresh n_def pl t'] and frame = primary_place_frame [OF pl]
  have q: "same_config p1 q" "blocks q = blocks p1" "special_blocks q = special_blocks p1"
    using a inv(3) pl
    by (auto simp: s_acquire_buffer_synced_def s_primary_acquire_synced_def n_def [symmetric] Let_def same_config_def)
  have "accounts U p (add_mset t L)" using inv(1) by (simp add: pool_inv_def)
  then have acc: "accounts U q (add_mset t' L)"
    using a inv(2,3) pl place frame
    by (auto simp: accounts_def claimed_def s_acquire_buffer_synced_def s_primary_acquire_synced_def
        n_def [symmetric] Let_def t')
  have "primary_ok q (add_mset t' L)"
    using place primary_ok_cong [of q p1] q by (simp add: same_config_def)
  moreover have "special_ok q (add_mset t' L)"
    using inv special_ok_cong [of q p] q frame(2) special_ok_other [of t' p] special_ok_other [of t p]
    by (simp add: pool_inv_def t')
  moreover have "regions q (add_mset t' L) = regions p1 L"
    using inv(3) q by (simp add: regions_def t')
  ultimately show ?thesis
    using claim_inv [OF inv(1,2) t' _ room _ acc] place q frame(1) by (auto simp: same_config_def)
qed

lemma secondary_acquire_inv:
  assumes inv: "pool_inv U p (add_mset t L)" "t_ptr t = 0" "in_secondary t" and room: "forced_room t L"
    and fresh: "fresh_memory mem p L" and a: "s_acquire_buffer_synced mem p t = Some (q, t')"
  shows "pool_inv U q (add_mset t' L)"
proof -
  note u = unclaimed_inv [OF inv(1,2)]
  have sz: "0 < t_size t" using u(4) by (simp add: ticket_ok_def)
  have t': "t' = t\<lparr>t_ptr := mem (t_size t), t_chunks_used := t_chunks_used t\<rparr>"
    and q: "same_config p q" "blocks q = blocks p" "special_blocks q = special_blocks p"
    using a inv(3) by (auto simp: s_acquire_buffer_synced_def Let_def same_config_def)
  have pos: "0 < mem (t_size t)" using fresh sz by (simp add: fresh_memory_def)
  have acc: "accounts U q (add_mset t' L)"
    using u(7) a inv(2,3) pos by (auto simp: accounts_def claimed_def s_acquire_buffer_synced_def Let_def t')
  have "regions q (add_mset t' L) = add_mset (ticket_region t') (regions p L)"
    using inv(3) q pos by (simp add: regions_def t' claimed_def)
  moreover have "\<forall>r\<in>#regions p L. disj (ticket_region t') r"
    using fresh sz by (simp add: fresh_memory_def ticket_region_def t')
  ultimately have pd: "pdisj (regions q (add_mset t' L))" using u(2) by (simp add: pdisj_add)
  have "primary_ok q (add_mset t' L)"
    using u(1) primary_ok_cong [of q p] primary_ok_other [of t' q L] q inv(3) by (simp add: same_config_def t')
  moreover have "special_ok q (add_mset t' L)"
    using inv special_ok_cong [of q p] q special_ok_other [of t' p] special_ok_other [of t p]
    by (simp add: pool_inv_def t')
  ultimately show ?thesis
    using claim_inv [OF inv(1,2) t' pos room q(1) acc _ _ pd] by blast
qed

lemma special_ok_take:
  assumes ok: "special_ok p (add_mset t L)" and t: "t_ptr t = 0" "in_special t"
    and sp: "special_blocks p = us @ (t_size t, bs) # vs"
    and q: "special_blocks q = us @ (t_size t, xs @ b\<lparr>alloc_bit_mask := - 1\<rparr> # ys) # vs"
    and b: "block_size b = t_size t" "0 < block_ptr b"
    and sub: "set xs \<union> set ys \<subseteq> set bs" "set bs \<subseteq> insert b (set xs \<union> set ys)"
    and uniq: "\<forall>a\<in>set xs \<union> set ys. block_ptr a \<noteq> block_ptr b"
    and none: "\<forall>u\<in>#L. \<not> held (t_size t) b u"
    and t': "t' = t\<lparr>t_ptr := block_ptr b\<rparr>"
  shows "special_ok q (add_mset t' L)"
proof (rule special_ok_update [OF ok sp q])
  have nt: "\<not> held k a t" for k a using t(1) by (simp add: held_def claimed_def)
  show "size (filter_mset (held k a) (add_mset t' L)) = size (filter_mset (held k a) (add_mset t L))"
    if "k \<noteq> t_size t" for k a using that nt by (auto simp: held_def t')
  have bs: "(t_size t, bs) \<in> set (special_blocks p)" using sp by simp
  show "block_size a = t_size t \<and> 0 < block_ptr a \<and> (alloc_bit_mask a = 0 \<or> alloc_bit_mask a = - 1) \<and>
      size (filter_mset (held (t_size t) a) (add_mset t' L)) = of_bool (alloc_bit_mask a = - 1)"
    if "a \<in> set (xs @ b\<lparr>alloc_bit_mask := - 1\<rparr> # ys)" for a
  proof (cases "a \<in> set xs \<union> set ys")
    case True
    then have a: "a \<in> set bs" using sub by blast
    have "\<not> held (t_size t) a t'" using uniq True by (auto simp: held_def t')
    then show ?thesis using ok bs a nt unfolding special_ok_def by auto
  next
    case False
    with that have "a = b\<lparr>alloc_bit_mask := - 1\<rparr>" by auto
    moreover have "filter_mset (held (t_size t) b) L = {#}" using none by (simp add: filter_mset_eq_conv)
    moreover have "held (t_size t) b t'" using t(2) b by (simp add: held_def t' claimed_def)
    ultimately show ?thesis using b by simp
  qed
  show "u \<in># add_mset t L \<and> (t_size u = t_size t \<and> claimed u \<longrightarrow>
        (\<exists>a\<in>set (xs @ b\<lparr>alloc_bit_mask := - 1\<rparr> # ys). held (t_size t) a u)) \<or>
      t_size u = t_size t \<and> (\<exists>a\<in>set (xs @ b\<lparr>alloc_bit_mask := - 1\<rparr> # ys). held (t_size t) a u)"
    if u: "u \<in># add_mset t' L" "in_special u" for u
  proof (cases "u = t'")
    case True
    then show ?thesis using t(2) b by (auto simp: held_def t' claimed_def)
  next
    case False
    with u have uL: "u \<in># L" by simp
    moreover have "\<exists>a\<in>set (xs @ b\<lparr>alloc_bit_mask := - 1\<rparr> # ys). held (t_size t) a u"
      if "t_size u = t_size t" "claimed u"
    proof -
      have m: "map_of (special_blocks p) (t_size t) = Some bs"
        using special_ok_lists(2) [OF ok sp, of bs] sp by simp
      from uL have "u \<in># add_mset t L" by simp
      then have "\<exists>cs. map_of (special_blocks p) (t_size u) = Some cs \<and> (claimed u \<longrightarrow> (\<exists>b\<in>set cs. held (t_size u) b u))"
        using ok u(2) unfolding special_ok_def by blast
      with that m obtain a where "a \<in> set bs" "held (t_size t) a u" by auto
      then show ?thesis using sub by (cases "a = b") auto
    qed
    ultimately show ?thesis by simp
  qed
qed

lemma special_blocks_disjoint:
  assumes "pdisj (regions p L)" "special_blocks p = us @ (sz, bs) # vs"
  shows "pdisj (image_mset block_region (mset bs))"
  using assms(1)
proof (rule pdisj_subset)
  have "image_mset block_region (mset bs) \<subseteq># image_mset block_region (mset (concat (map snd (special_blocks p))))"
    using assms(2) by (auto intro!: image_mset_subseteq_mono)
  then show "image_mset block_region (mset bs) \<subseteq># regions p L"
    using regions_parts(2) subset_mset.order_trans by blast
qed

lemma special_none_held:
  assumes ok: "special_ok p L" and "special_blocks p = us @ (sz, bs) # vs" "b \<in> set bs" "alloc_bit_mask b = 0" "u \<in># L"
  shows "\<not> held sz b u"
  using held_in_use [OF ok, of sz bs b u] assms(2-5) by auto

lemma special_acquire_cases:
  assumes t: "in_special t" "\<not> t_forced t" and m: "map_of (special_blocks p) (t_size t) = Some bs"
    and bsok: "\<forall>x\<in>set bs. block_size x = t_size t" and a: "s_acquire_buffer_synced mem p t = Some (q, t')"
  obtains us vs xs b ys where "special_blocks p = us @ (t_size t, bs) # vs"
    "special_blocks q = us @ (t_size t, xs @ b\<lparr>alloc_bit_mask := - 1\<rparr> # ys) # vs"
    "t' = t\<lparr>t_ptr := block_ptr b, t_chunks_used := t_chunks_used t\<rparr>" "block_size b = t_size t"
    "bs = xs @ b # ys \<and> alloc_bit_mask b = 0 \<or> bs = xs \<and> ys = [] \<and> block_ptr b = mem (t_size t)"
proof -
  obtain us vs where sp: "special_blocks p = us @ (t_size t, bs) # vs"
    and upd: "\<And>bs'. alist_set (t_size t) bs' (special_blocks p) = us @ (t_size t, bs') # vs"
    using alist_set_split [OF m] by blast
  show thesis
  proof (cases "special_search bs")
    case (Some r)
    then obtain bs' ptr where s: "special_search bs = Some (bs', ptr)" by (cases r) auto
    then obtain xs b ys where x: "bs = xs @ b # ys" "alloc_bit_mask b = 0" "bs' = xs @ b\<lparr>alloc_bit_mask := - 1\<rparr> # ys" "ptr = block_ptr b"
      by (rule special_search_SomeE)
    show thesis
      by (rule that [OF sp, of xs b ys]) (use a t m s x upd bsok in \<open>auto simp: s_acquire_buffer_synced_def Let_def\<close>)
  next
    case None
    show thesis
      by (rule that [OF sp, of bs "\<lparr>block_size = t_size t, block_ptr = mem (t_size t), alloc_bit_mask = - 1\<rparr>" "[]"])
        (use a t m None upd in \<open>auto simp: s_acquire_buffer_synced_def Let_def\<close>)
  qed
qed

lemma special_acquire_frame:
  assumes "in_special t" "\<not> t_forced t" "s_acquire_buffer_synced mem p t = Some (q, t')"
  shows "same_config p q" "blocks q = blocks p" "special_blocks_used q = special_blocks_used p + t_size t"
    "special_blocks_reserved q = special_blocks_reserved p - t_size t" "primary_used q = primary_used p"
    "primary_reserved q = primary_reserved p" "secondary_used q = secondary_used p"
    "secondary_reserved q = secondary_reserved p" "forced_used q = forced_used p"
  using assms by (auto simp: s_acquire_buffer_synced_def Let_def same_config_def split: option.splits)

lemma special_block_free:
  assumes ok: "special_ok p (add_mset t L)" and pd: "pdisj (regions p L)" and sz: "0 < t_size t"
    and fresh: "fresh_memory mem p L" and sp: "special_blocks p = us @ (t_size t, bs) # vs"
    and b: "block_size b = t_size t"
    and cases: "bs = xs @ b # ys \<and> alloc_bit_mask b = 0 \<or> bs = xs \<and> ys = [] \<and> block_ptr b = mem (t_size t)"
  shows "\<forall>x\<in>set xs \<union> set ys. block_ptr x \<noteq> block_ptr b" "\<forall>v\<in>#L. \<not> held (t_size t) b v"
proof -
  have m: "map_of (special_blocks p) (t_size t) = Some bs" using special_ok_lists(2) [OF ok sp, of bs] sp by simp
  have bsok: "block_size x = t_size t" if "x \<in> set bs" for x
    using ok map_of_SomeD [OF m] that unfolding special_ok_def by blast
  show uniq: "\<forall>x\<in>set xs \<union> set ys. block_ptr x \<noteq> block_ptr b"
  proof
    fix x assume x: "x \<in> set xs \<union> set ys"
    show "block_ptr x \<noteq> block_ptr b"
    proof (cases "bs = xs @ b # ys")
      case True
      then show ?thesis
        using held_unique [of xs b ys x "t_size t"] x special_blocks_disjoint [OF pd sp] bsok b sz by auto
    next
      case False
      with cases x have "x \<in> set bs" and ptr: "block_ptr b = mem (t_size t)" by auto
      then have "block_region x \<in># regions p L" "block_size x = t_size t" using sp bsok by (auto simp: regions_def)
      then have "disj (mem (t_size t), unat (t_size t)) (block_ptr x, unat (t_size t))"
        using fresh sz by (auto simp: fresh_memory_def block_region_def)
      then show ?thesis using sz ptr by (auto simp: disj_def word_less_nat_alt)
    qed
  qed
  show "\<forall>v\<in>#L. \<not> held (t_size t) b v"
  proof (intro ballI notI)
    fix v assume v: "v \<in># L" and h: "held (t_size t) b v"
    from v have v': "v \<in># add_mset t L" by simp
    then obtain x where x: "x \<in> set bs" "held (t_size t) x v"
      using ok m h unfolding special_ok_def held_def by (metis option.inject)
    from cases show False
    proof
      assume "bs = xs @ b # ys \<and> alloc_bit_mask b = 0"
      then show False using special_none_held [OF ok sp _ _ v', of b] h by auto
    next
      assume "bs = xs \<and> ys = [] \<and> block_ptr b = mem (t_size t)"
      then show False using uniq x h by (simp add: held_def)
    qed
  qed
qed

lemma special_acquire_inv:
  assumes inv: "pool_inv U p (add_mset t L)" "t_ptr t = 0" "in_special t" and room: "forced_room t L"
    and fresh: "fresh_memory mem p L" and a: "s_acquire_buffer_synced mem p t = Some (q, t')"
  shows "pool_inv U q (add_mset t' L)"
proof -
  note u = unclaimed_inv [OF inv(1,2)]
  have sz: "0 < t_size t" and nf: "\<not> t_forced t" and ok: "special_ok p (add_mset t L)"
    using u(4) inv by (auto simp: ticket_ok_def pool_inv_def)
  obtain bs where m: "map_of (special_blocks p) (t_size t) = Some bs"
    using inv(3) ok unfolding special_ok_def by (metis union_single_eq_member)
  have bsok: "\<forall>x\<in>set bs. block_size x = t_size t" "\<forall>x\<in>set bs. 0 < block_ptr x"
    using ok map_of_SomeD [OF m] unfolding special_ok_def by blast+
  note frame = special_acquire_frame [OF inv(3) nf a]
  obtain us vs xs b ys where sp: "special_blocks p = us @ (t_size t, bs) # vs"
    and q: "special_blocks q = us @ (t_size t, xs @ b\<lparr>alloc_bit_mask := - 1\<rparr> # ys) # vs"
    and t': "t' = t\<lparr>t_ptr := block_ptr b, t_chunks_used := t_chunks_used t\<rparr>" and b: "block_size b = t_size t"
    and cases: "bs = xs @ b # ys \<and> alloc_bit_mask b = 0 \<or> bs = xs \<and> ys = [] \<and> block_ptr b = mem (t_size t)"
    by (rule special_acquire_cases [OF inv(3) nf m bsok(1) a])
  have pos: "0 < block_ptr b" using cases bsok fresh sz by (auto simp: fresh_memory_def)
  note free = special_block_free [OF ok u(2) sz fresh sp b cases]
  have sok: "special_ok q (add_mset t' L)"
    by (rule special_ok_take [OF ok inv(2,3) sp q b]) (use cases pos free t' in auto)
  have acc: "accounts U q (add_mset t' L)"
    using u(7) inv(2,3) pos frame nf by (auto simp: accounts_def claimed_def t')
  have "regions q (add_mset t' L) = (if bs = xs @ b # ys then regions p L else add_mset (block_region b) (regions p L))"
    using inv(3) q frame(2) sp cases by (auto simp: regions_def t')
  moreover have "\<forall>r\<in>#regions p L. disj (block_region b) r" if "bs \<noteq> xs @ b # ys"
    using that cases fresh sz b by (auto simp: fresh_memory_def block_region_def)
  ultimately have pd: "pdisj (regions q (add_mset t' L))" using u(2) by (auto simp: pdisj_add)
  have "primary_ok q (add_mset t' L)"
    using u(1) primary_ok_cong [of q p] primary_ok_other [of t' q L] frame inv(3) by (simp add: same_config_def t')
  then show ?thesis
    using claim_inv [OF inv(1,2) t' pos room frame(1) acc _ sok pd] by blast
qed

lemma acquire_inv:
  assumes "pool_inv U p (add_mset t L)" "forced_room t L" "fresh_memory mem p L"
    "aws_s3_default_buffer_pool_acquire_buffer mem p t = Some (q, t')"
  shows "pool_inv U q (add_mset t' L)"
proof (cases "t_ptr t = 0")
  case True
  with assms(4) have a: "s_acquire_buffer_synced mem p t = Some (q, t')"
    by (simp add: aws_s3_default_buffer_pool_acquire_buffer_def)
  show ?thesis
    using primary_acquire_inv [OF assms(1) True _ assms(2,3) a] secondary_acquire_inv [OF assms(1) True _ assms(2,3) a]
      special_acquire_inv [OF assms(1) True _ assms(2,3) a]
    by (cases "t_reserved_from t") auto
next
  case False
  with assms show ?thesis by (simp add: aws_s3_default_buffer_pool_acquire_buffer_def)
qed

lemma acquire_total:
  assumes inv: "pool_inv U p (add_mset t L)" and fresh: "fresh_memory mem p L"
  shows "\<exists>q t'. aws_s3_default_buffer_pool_acquire_buffer mem p t = Some (q, t')"
proof (cases "t_ptr t = 0 \<and> in_special t")
  case True
  then obtain bs where "map_of (special_blocks p) (t_size t) = Some bs"
    using inv unfolding pool_inv_def special_ok_def by (metis union_single_eq_member)
  then show ?thesis using True
    by (auto simp: aws_s3_default_buffer_pool_acquire_buffer_def s_acquire_buffer_synced_def Let_def split_beta)
next
  case False
  then show ?thesis
    by (cases "t_reserved_from t")
      (auto simp: aws_s3_default_buffer_pool_acquire_buffer_def s_acquire_buffer_synced_def Let_def split_beta)
qed

subsection \<open>Releasing keeps the invariant\<close>

lemma drop_inv:
  assumes inv: "pool_inv U p (add_mset t L)" and q: "same_config p q" "accounts U q L" "primary_ok q L" "special_ok q L"
    "pdisj (regions q L)"
  shows "pool_inv U q L"
proof -
  have "within_limit U p L" using inv by (auto simp: pool_inv_def within_limit_def split: if_splits)
  then show ?thesis using inv q unfolding pool_inv_def same_config_inv [OF q(1)] by simp
qed

lemma return_unclaimed_inv:
  assumes inv: "pool_inv U p (add_mset t L)" "t_ptr t = 0" "\<not> t_forced t" and r: "return_ticket p t = Some q"
  shows "pool_inv U q L" "same_config p q"
proof -
  note u = unclaimed_inv [OF inv(1,2)]
  show q: "same_config p q" using inv r by (auto simp: return_ticket_def same_config_def split: reserved_from.splits)
  have q': "blocks q = blocks p" "special_blocks q = special_blocks p"
    using inv r by (auto simp: return_ticket_def split: reserved_from.splits)
  have "accounts U q L"
    using u(7) inv r by (auto simp: return_ticket_def accounts_def claimed_def split: reserved_from.splits)
  moreover have "primary_ok q L" using u(1) primary_ok_cong [of q p] q q' by (simp add: same_config_def)
  moreover have "special_ok p L"
  proof -
    have "\<not> held sz b t" for sz b using inv(2) by (simp add: held_def claimed_def)
    then show ?thesis using inv(1) by (auto simp: pool_inv_def special_ok_def)
  qed
  then have "special_ok q L" using special_ok_cong [of q p L] q' by simp
  ultimately show "pool_inv U q L" using drop_inv [OF inv(1) q] u(2) regions_cong [of q p L] q' by simp
qed

lemma return_secondary_inv:
  assumes inv: "pool_inv U p (add_mset t L)" "t_ptr t \<noteq> 0" "in_secondary t" and r: "return_ticket p t = Some q"
  shows "pool_inv U q L" "same_config p q"
proof -
  show q: "same_config p q" using inv r by (auto simp: return_ticket_def same_config_def Let_def)
  have q': "blocks q = blocks p" "special_blocks q = special_blocks p"
    using inv r by (auto simp: return_ticket_def Let_def)
  have "accounts U p (add_mset t L)" using inv by (simp add: pool_inv_def)
  then have "accounts U q L"
    using inv r by (auto simp: return_ticket_def Let_def accounts_def claimed_def)
  moreover have "primary_ok q L"
    using inv primary_ok_other [of t p L] primary_ok_cong [of q p] q q' by (simp add: same_config_def pool_inv_def)
  moreover have "special_ok q L"
    using inv special_ok_other [of t p L] special_ok_cong [of q p L] q' by (simp add: pool_inv_def)
  moreover have "regions q L \<subseteq># regions p (add_mset t L)" using q' by (simp add: regions_def)
  then have "pdisj (regions q L)" using inv(1) pdisj_subset pool_inv_def by blast
  ultimately show "pool_inv U q L" using drop_inv [OF inv(1) q] by blast
qed

lemma primary_return_placed:
  assumes inv: "pool_inv U p (add_mset t L)" "t_ptr t \<noteq> 0" "in_primary t"
  obtains xs b ys i where "blocks p = xs @ b # ys" "placed p b i t" "i + unat (chunks_of p (t_size t)) \<le> 16"
    "primary_return (chunk_size p) (chunks_of p (t_size t)) (t_ptr t) (blocks p) =
       Some (xs @ b\<lparr>alloc_bit_mask := s_clear_bits (alloc_bit_mask b) i (unat (chunks_of p (t_size t)))\<rparr> # ys)"
proof -
  let ?n = "chunks_of p (t_size t)"
  have sh: "shape p" and ok: "primary_ok p (add_mset t L)" and tok: "ticket_ok p t"
    and pd: "pdisj (image_mset block_region (mset (blocks p)))"
    using inv primary_blocks_disjoint by (auto simp: pool_inv_def)
  obtain b i where b: "b \<in> set (blocks p)" "placed p b i t" "i + unat ?n \<le> 16"
    using ok inv(2,3) unfolding primary_ok_def claimed_def by auto
  note n = placed_chunks [OF sh tok b(2) refl]
  have bsz: "block_size b = pool_block_size p" using ok b(1) by (simp add: primary_ok_def)
  have inside: "block_ptr b \<le> t_ptr t" "t_ptr t < block_ptr b + unat (block_size b)"
    using placed_inside [OF b(2) _ bsz sh n(3)] b(3) n by auto
  then obtain bs where bs: "primary_return (chunk_size p) ?n (t_ptr t) (blocks p) = Some bs"
    using b(1) primary_return_None_iff [of "chunk_size p" ?n "t_ptr t" "blocks p"] by (metis option.exhaust)
  then obtain xs a ys where a: "blocks p = xs @ a # ys" "block_ptr a \<le> t_ptr t" "t_ptr t < block_ptr a + unat (block_size a)"
    "bs = xs @ a\<lparr>alloc_bit_mask := s_clear_bits (alloc_bit_mask a) ((t_ptr t - block_ptr a) div unat (chunk_size p)) (unat ?n)\<rparr> # ys"
    by (rule primary_return_SomeE)
  have "b \<notin> set xs \<union> set ys"
    using blocks_disjoint [of xs a ys b] pd a inside by (auto simp: disj_def block_region_def)
  with b(1) a(1) have "b = a" by auto
  moreover have "(t_ptr t - block_ptr b) div unat (chunk_size p) = i" using b(2) n(3) by (simp add: placed_def)
  ultimately show thesis using that [of xs b ys i] a b bs by simp
qed

lemma return_primary_inv:
  assumes inv: "pool_inv U p (add_mset t L)" "t_ptr t \<noteq> 0" "in_primary t" and r: "return_ticket p t = Some q"
  shows "pool_inv U q L" "same_config p q"
proof -
  obtain xs b ys i where b: "blocks p = xs @ b # ys" "placed p b i t" "i + unat (chunks_of p (t_size t)) \<le> 16"
    "primary_return (chunk_size p) (chunks_of p (t_size t)) (t_ptr t) (blocks p) =
       Some (xs @ b\<lparr>alloc_bit_mask := s_clear_bits (alloc_bit_mask b) i (unat (chunks_of p (t_size t)))\<rparr> # ys)"
    by (rule primary_return_placed [OF inv])
  have q': "blocks q = xs @ b\<lparr>alloc_bit_mask := s_clear_bits (alloc_bit_mask b) i (unat (chunks_of p (t_size t)))\<rparr> # ys"
    "special_blocks q = special_blocks p"
    using inv(2,3) r b(4) by (auto simp: return_ticket_def Let_def)
  show q: "same_config p q" using inv(2,3) r b(4) by (auto simp: return_ticket_def same_config_def Let_def)
  have "accounts U p (add_mset t L)" using inv by (simp add: pool_inv_def)
  then have "accounts U q L"
    using inv(2,3) r b(4) by (auto simp: return_ticket_def Let_def accounts_def claimed_def)
  moreover have "primary_ok q L"
    using inv(1) q b primary_blocks_disjoint [of p "add_mset t L"]
    by (intro primary_ok_unplace [OF _ _ b(1) _ _ b(2) refl b(3) q'(1)]) (auto simp: pool_inv_def same_config_def)
  moreover have "special_ok q L"
    using inv special_ok_other [of t p L] special_ok_cong [of q p L] q' by (simp add: pool_inv_def)
  moreover have "regions q L = regions p (add_mset t L)" using q' b(1) inv(3) by (simp add: regions_def)
  ultimately show "pool_inv U q L" using drop_inv [OF inv(1) q] inv(1) by (simp add: pool_inv_def)
qed

lemma special_return_held:
  assumes inv: "pool_inv U p (add_mset t L)" "t_ptr t \<noteq> 0" "in_special t"
  obtains us bs vs xs b ys where "special_blocks p = us @ (t_size t, bs) # vs" "bs = xs @ b # ys" "held (t_size t) b t"
    "alloc_bit_mask b = - 1"
    "return_ticket p t = Some (p\<lparr>special_blocks := us @ (t_size t, xs @ b\<lparr>alloc_bit_mask := 0\<rparr> # ys) # vs,
       special_blocks_used := special_blocks_used p - t_size t\<rparr>)"
proof -
  have ok: "special_ok p (add_mset t L)" using inv(1) by (simp add: pool_inv_def)
  have "t \<in># add_mset t L" by simp
  with ok inv(3) have "\<exists>bs. map_of (special_blocks p) (t_size t) = Some bs \<and> (claimed t \<longrightarrow> (\<exists>b\<in>set bs. held (t_size t) b t))"
    unfolding special_ok_def by blast
  then obtain bs x where m: "map_of (special_blocks p) (t_size t) = Some bs" and x: "x \<in> set bs" "held (t_size t) x t"
    using inv(2) by (auto simp: claimed_def)
  have "alloc_bit_mask x = - 1" using held_in_use [OF ok map_of_SomeD [OF m] x(1) _ x(2)] by simp
  then obtain bs' where bs': "special_return (t_ptr t) bs = Some bs'"
    using x special_return_None_iff [of "t_ptr t" bs] by (metis held_def option.exhaust)
  then obtain xs b ys where b: "bs = xs @ b # ys" "block_ptr b = t_ptr t" "alloc_bit_mask b = - 1"
    "bs' = xs @ b\<lparr>alloc_bit_mask := 0\<rparr> # ys" by (rule special_return_SomeE)
  obtain us vs where sp: "special_blocks p = us @ (t_size t, bs) # vs"
    and upd: "\<And>bs'. alist_set (t_size t) bs' (special_blocks p) = us @ (t_size t, bs') # vs"
    using alist_set_split [OF m] by blast
  show thesis
    using that [OF sp b(1) _ b(3)] inv(2,3) m bs' b upd by (simp add: return_ticket_def held_def claimed_def)
qed

lemma special_ok_untake:
  assumes ok: "special_ok p (add_mset t L)" and t: "0 < t_size t" and pd: "pdisj (regions p (add_mset t L))"
    and sp: "special_blocks p = us @ (t_size t, bs) # vs" and bs: "bs = xs @ b # ys"
    and h: "held (t_size t) b t" "alloc_bit_mask b = - 1"
    and q: "special_blocks q = us @ (t_size t, xs @ b\<lparr>alloc_bit_mask := 0\<rparr> # ys) # vs"
  shows "special_ok q L"
proof (rule special_ok_update [OF ok sp q])
  show "size (filter_mset (held k a) L) = size (filter_mset (held k a) (add_mset t L))"
    if "k \<noteq> t_size t" for k a using that by (auto simp: held_def)
  have blk: "block_size a = t_size t \<and> 0 < block_ptr a \<and> (alloc_bit_mask a = 0 \<or> alloc_bit_mask a = - 1) \<and>
      size (filter_mset (held (t_size t) a) (add_mset t L)) = of_bool (alloc_bit_mask a = - 1)" if "a \<in> set bs" for a
  proof -
    have "(t_size t, bs) \<in> set (special_blocks p)" using sp by simp
    then show ?thesis using ok that unfolding special_ok_def by blast
  qed
  show "block_size a = t_size t \<and> 0 < block_ptr a \<and> (alloc_bit_mask a = 0 \<or> alloc_bit_mask a = - 1) \<and>
      size (filter_mset (held (t_size t) a) L) = of_bool (alloc_bit_mask a = - 1)"
    if "a \<in> set (xs @ b\<lparr>alloc_bit_mask := 0\<rparr> # ys)" for a
  proof (cases "a \<in> set xs \<union> set ys")
    case True
    then have "block_ptr a \<noteq> block_ptr b"
      using held_unique [of xs b ys a "t_size t"] special_blocks_disjoint [OF pd sp] bs blk t by auto
    then have "\<not> held (t_size t) a t" using h(1) by (auto simp: held_def)
    then show ?thesis using blk [of a] bs True by auto
  next
    case False
    with that have "a = b\<lparr>alloc_bit_mask := 0\<rparr>" by auto
    then show ?thesis using blk [of b] bs h by simp
  qed
  show "u \<in># add_mset t L \<and> (t_size u = t_size t \<and> claimed u \<longrightarrow>
        (\<exists>a\<in>set (xs @ b\<lparr>alloc_bit_mask := 0\<rparr> # ys). held (t_size t) a u)) \<or>
      t_size u = t_size t \<and> (\<exists>a\<in>set (xs @ b\<lparr>alloc_bit_mask := 0\<rparr> # ys). held (t_size t) a u)"
    if u: "u \<in># L" "in_special u" for u
  proof (rule disjI1, intro conjI impI)
    show uL: "u \<in># add_mset t L" using u(1) by simp
    assume eq: "t_size u = t_size t \<and> claimed u"
    have m: "map_of (special_blocks p) (t_size t) = Some bs"
      using special_ok_lists(2) [OF ok sp, of bs] sp by simp
    have "\<exists>cs. map_of (special_blocks p) (t_size u) = Some cs \<and> (claimed u \<longrightarrow> (\<exists>b\<in>set cs. held (t_size u) b u))"
      using ok u(2) uL unfolding special_ok_def by blast
    with eq m obtain a where "a \<in> set bs" "held (t_size t) a u" by auto
    then show "\<exists>a\<in>set (xs @ b\<lparr>alloc_bit_mask := 0\<rparr> # ys). held (t_size t) a u" using bs by (cases "a = b") auto
  qed
qed

lemma return_special_inv:
  assumes inv: "pool_inv U p (add_mset t L)" "t_ptr t \<noteq> 0" "in_special t" and r: "return_ticket p t = Some q"
  shows "pool_inv U q L" "same_config p q"
proof -
  obtain us bs vs xs b ys where sp: "special_blocks p = us @ (t_size t, bs) # vs" "bs = xs @ b # ys"
    and b: "held (t_size t) b t" "alloc_bit_mask b = - 1"
    and "return_ticket p t = Some (p\<lparr>special_blocks := us @ (t_size t, xs @ b\<lparr>alloc_bit_mask := 0\<rparr> # ys) # vs,
       special_blocks_used := special_blocks_used p - t_size t\<rparr>)"
    by (rule special_return_held [OF inv])
  with r have q: "q = p\<lparr>special_blocks := us @ (t_size t, xs @ b\<lparr>alloc_bit_mask := 0\<rparr> # ys) # vs,
       special_blocks_used := special_blocks_used p - t_size t\<rparr>" by simp
  then show sc: "same_config p q" by (simp add: same_config_def)
  have nf: "\<not> t_forced t" "0 < t_size t" using inv by (auto simp: pool_inv_def ticket_ok_def)
  have "accounts U p (add_mset t L)" using inv by (simp add: pool_inv_def)
  then have "accounts U q L" using inv(2,3) nf by (auto simp: q accounts_def claimed_def)
  moreover have "primary_ok q L"
    using inv primary_ok_other [of t p L] primary_ok_cong [of q p] q by (simp add: pool_inv_def)
  moreover have "special_ok q L"
    using inv(1) nf q by (intro special_ok_untake [OF _ nf(2) _ sp b, of L]) (auto simp: pool_inv_def)
  moreover have "regions q L = regions p (add_mset t L)" using sp inv(3) by (simp add: regions_def q)
  ultimately show "pool_inv U q L" using drop_inv [OF inv(1) sc] inv(1) by (simp add: pool_inv_def)
qed

text \<open>
  A forced ticket that was not claimed is given back although nothing was reserved for it: it counts as forfeited
  from then on.
\<close>

definition forfeit :: "ticket \<Rightarrow> ticket multiset \<Rightarrow> ticket multiset" where
  "forfeit t U = (if claimed t \<or> \<not> t_forced t then U else add_mset t U)"

lemma return_forfeit_inv:
  assumes inv: "pool_inv U p (add_mset t L)" "t_ptr t = 0" "t_forced t" and room: "bytes_of (add_mset t U) < 2 ^ 62"
    and r: "return_ticket p t = Some q"
  shows "pool_inv (add_mset t U) q L" "same_config p q"
proof -
  note u = unclaimed_inv [OF inv(1,2)]
  have ns: "\<not> in_special t" using u(4) inv(3) by (auto simp: ticket_ok_def)
  show q: "same_config p q" using inv r by (auto simp: return_ticket_def same_config_def split: reserved_from.splits)
  have q': "blocks q = blocks p" "special_blocks q = special_blocks p"
    using inv r by (auto simp: return_ticket_def split: reserved_from.splits)
  have "accounts (add_mset t U) q L"
    using u(7) inv ns r by (auto simp: return_ticket_def accounts_def claimed_def algebra_simps split: reserved_from.splits)
  moreover have "within_limit (add_mset t U) p L"
    using inv room by (auto simp: pool_inv_def within_limit_def claimed_def)
  moreover have "primary_ok q L" using u(1) primary_ok_cong [of q p] q q' by (simp add: same_config_def)
  moreover have "special_ok q L"
    using inv(1) special_ok_other [OF ns, of p L] special_ok_cong [of q p L] q' by (simp add: pool_inv_def)
  moreover have "pdisj (regions q L)" using u(2) regions_cong [of q p L] q' by simp
  ultimately show "pool_inv (add_mset t U) q L"
    using inv(1) unfolding pool_inv_def same_config_inv(1-3) [OF q] same_config_inv(4) [OF q] by simp
qed

lemma return_inv:
  assumes "pool_inv U p (add_mset t L)" "bytes_of (forfeit t U) < 2 ^ 62" "return_ticket p t = Some q"
  shows "pool_inv (forfeit t U) q L \<and> same_config p q"
proof (cases "t_ptr t = 0 \<and> t_forced t")
  case True
  then show ?thesis using return_forfeit_inv [OF assms(1) _ _ _ assms(3)] assms(2) by (simp add: forfeit_def claimed_def)
next
  case False
  then have "forfeit t U = U" by (auto simp: forfeit_def claimed_def)
  then show ?thesis
    using False return_unclaimed_inv [OF assms(1) _ _ assms(3)] return_primary_inv [OF assms(1) _ _ assms(3)]
      return_secondary_inv [OF assms(1) _ _ assms(3)] return_special_inv [OF assms(1) _ _ assms(3)]
    by (cases "t_ptr t = 0"; cases "t_reserved_from t") auto
qed

lemma return_total:
  assumes "pool_inv U p (add_mset t L)"
  shows "\<exists>q. return_ticket p t = Some q"
proof (cases "t_ptr t \<noteq> 0 \<and> in_primary t")
  case True
  then obtain bs where "primary_return (chunk_size p) (chunks_of p (t_size t)) (t_ptr t) (blocks p) = Some bs"
    using primary_return_placed [OF assms] by metis
  then show ?thesis using True by (simp add: return_ticket_def Let_def)
next
  case False
  then show ?thesis by (cases "t_reserved_from t") (auto simp: return_ticket_def Let_def)
qed

lemma return_pending: "return_ticket p t = Some q \<Longrightarrow> pending_reserves q = pending_reserves p"
  by (auto simp: return_ticket_def Let_def split: if_splits reserved_from.splits option.splits)

lemma destroy_inv:
  assumes "pool_inv U p (add_mset t L)" "bytes_of (forfeit t U) < 2 ^ 62"
    "s_aws_ticket_wrapper_destroy M is_done failed p t = Some (q, served)"
  shows "pool_inv (forfeit t U) q (L + mset (map snd served))"
proof -
  obtain p1 where p1: "return_ticket p t = Some p1"
    "serve_pending M p1 (filter (\<lambda>r. \<not> is_done (pr_future r)) (pending_reserves p1)) = (q, served)"
    using assms(3) by (auto simp: s_aws_ticket_wrapper_destroy_def split: option.splits if_splits)
  have inv: "pool_inv (forfeit t U) p1 L" using return_inv [OF assms(1,2) p1(1)] by simp
  have "\<forall>r\<in>set (filter (\<lambda>r. \<not> is_done (pr_future r)) (pending_reserves p1)).
      0 < m_size (pr_meta r) \<and> m_size (pr_meta r) \<le> mem_limit p1"
    using inv by (simp add: pool_inv_def pending_ok_def)
  then show ?thesis by (rule serve_pending_inv [OF inv _ p1(2)])
qed

subsection \<open>The transition system\<close>

text \<open>
  The pool, the outstanding tickets, the forced tickets that were released without being claimed, and the futures of the
  reservations. A future is waiting until it is given a ticket or an error, and keeps what it was given first.
  Every call of the interface is a step, and so is the cancelling of a waiting future, which
  \<open>aws_s3_meta_request_cancel_pending_buffer_futures_synced\<close> does. Three bounds stand for the size of the memory of a
  machine: the configured limit, the memory claimed by force at one time and the size of all the tickets that were
  forfeited are each below \<open>2^62\<close> bytes.
\<close>

datatype ticket_future = Future_Waiting | Future_Ticket | Future_Error

record pool_world =
  pw_pool :: pool
  pw_tickets :: "ticket multiset"
  pw_forfeited :: "ticket multiset"
  pw_futures :: "nat \<Rightarrow> ticket_future"

abbreviation future_done :: "pool_world \<Rightarrow> nat \<Rightarrow> bool" where
  "future_done w f \<equiv> pw_futures w f \<noteq> Future_Waiting"

abbreviation future_failed :: "pool_world \<Rightarrow> nat \<Rightarrow> bool" where
  "future_failed w f \<equiv> pw_futures w f = Future_Error"

definition granted_tickets :: "reservation \<Rightarrow> ticket multiset" where
  "granted_tickets r = (case r of Granted t \<Rightarrow> {#t#} | _ \<Rightarrow> {#})"

definition reserved_future :: "reservation \<Rightarrow> ticket_future" where
  "reserved_future r =
     (case r of Preallocated _ \<Rightarrow> Future_Ticket | Granted _ \<Rightarrow> Future_Ticket | Failed _ \<Rightarrow> Future_Error | Queued \<Rightarrow> Future_Waiting)"

definition pool_initial :: "pool_world \<Rightarrow> bool" where
  "pool_initial w \<longleftrightarrow> (\<exists>config. cfg_memory_limit config < 2 ^ 62 \<and>
     aws_s3_default_buffer_pool_new config = Inr (pw_pool w) \<and> pw_tickets w = {#} \<and> pw_forfeited w = {#})"

inductive pool_step :: "aws_math \<Rightarrow> pool_world \<Rightarrow> pool_world \<Rightarrow> bool" for M where
  reserve: "future \<notin> pr_future ` set (pending_reserves (pw_pool w)) \<Longrightarrow>
    aws_s3_default_buffer_pool_reserve M future (pw_pool w) meta = Some (q, r) \<Longrightarrow>
    pool_step M w (w\<lparr>pw_pool := q, pw_tickets := pw_tickets w + granted_tickets r,
      pw_futures := (pw_futures w)(future := reserved_future r)\<rparr>)"
| cancel: "pw_futures w future = Future_Waiting \<Longrightarrow>
    pool_step M w (w\<lparr>pw_futures := (pw_futures w)(future := Future_Error)\<rparr>)"
| claim: "pw_tickets w = add_mset t L \<Longrightarrow> fresh_memory mem_acquire (pw_pool w) (pw_tickets w) \<Longrightarrow> forced_room t L \<Longrightarrow>
    aws_s3_default_buffer_pool_acquire_buffer mem_acquire (pw_pool w) t = Some (q, t') \<Longrightarrow>
    pool_step M w (w\<lparr>pw_pool := q, pw_tickets := add_mset t' L\<rparr>)"
| release: "pw_tickets w = add_mset t L \<Longrightarrow> bytes_of (forfeit t (pw_forfeited w)) < 2 ^ 62 \<Longrightarrow>
    s_aws_ticket_wrapper_destroy M (future_done w) (future_failed w) (pw_pool w) t = Some (q, served) \<Longrightarrow>
    pool_step M w (w\<lparr>pw_pool := q, pw_tickets := L + mset (map snd served), pw_forfeited := forfeit t (pw_forfeited w),
      pw_futures := (\<lambda>f. if f \<in> fst ` set served then Future_Ticket else pw_futures w f)\<rparr>)"
| trim: "pool_step M w (w\<lparr>pw_pool := s_buffer_pool_trim_synced (pw_pool w)\<rparr>)"
| add_special: "pool_step M w (w\<lparr>pw_pool := s_default_pool_add_special_size (pw_pool w) buffer_size\<rparr>)"
| release_special: "pool_step M w (w\<lparr>pw_pool := s_default_pool_release_special_size (pw_pool w) buffer_size\<rparr>)"
| add_preallocated:
    "pool_step M w (w\<lparr>pw_pool := s_default_pool_add_preallocated_buffer (pw_pool w) meta_request buffer\<rparr>)"
| remove_preallocated:
    "pool_step M w (w\<lparr>pw_pool := s_default_pool_remove_preallocated_buffer (pw_pool w) meta_request\<rparr>)"

lemma new_pool_inv:
  assumes "cfg_memory_limit config < 2 ^ 62" "aws_s3_default_buffer_pool_new config = Inr p"
  shows "pool_inv {#} p {#}"
proof -
  have lim: "MB_TO_BYTES 256 \<le> cfg_memory_limit config"
    using assms(2) by (auto simp: aws_s3_default_buffer_pool_new_def Let_def split: if_splits)
  have "mem_limit p = cfg_memory_limit config - s_buffer_pool_reserved_mem"
    and ch: "chunk_size p \<le> s_max_chunk_size_for_buffer_reuse"
    and sizes: "pool_block_size p = s_chunks_per_block * chunk_size p" "primary_size_cutoff p = chunk_size p * 4"
    using assms(2) by (auto simp: aws_s3_default_buffer_pool_new_def Let_def split: if_splits)
  moreover have "cfg_memory_limit config - s_buffer_pool_reserved_mem \<le> cfg_memory_limit config"
    using lim by (intro word_sub_le) (auto simp: TO_BYTES_defs s_buffer_pool_reserved_mem_def word_le_nat_alt)
  ultimately have "unat (mem_limit p) < 2 ^ 62"
    using assms(1) by (simp add: word_le_nat_alt word_less_nat_alt)
  moreover have "unat (chunk_size p) \<le> 2 ^ 26"
    using ch by (simp add: s_max_chunk_size_for_buffer_reuse_def TO_BYTES_defs word_le_nat_alt)
  then have "unat (pool_block_size p) = 16 * unat (chunk_size p)" "unat (primary_size_cutoff p) = 4 * unat (chunk_size p)"
    unfolding sizes s_chunks_per_block_def by (subst unat_mult_nowrap; simp)+
  ultimately have "shape p" by (simp add: shape_def)
  moreover have "blocks p = []" "special_blocks p = []" "pending_reserves p = []" "accounts {#} p {#}"
    using assms(2) by (auto simp: aws_s3_default_buffer_pool_new_def Let_def accounts_def split: if_splits)
  ultimately show ?thesis
    by (simp add: pool_inv_def pending_ok_def within_limit_def primary_ok_def special_ok_def regions_def)
qed

lemma reserve_inv:
  assumes inv: "pool_inv U p L" and r: "aws_s3_default_buffer_pool_reserve M future p meta = Some (q, r)"
  shows "pool_inv U q (case r of Granted t \<Rightarrow> add_mset t L | _ \<Rightarrow> L)"
proof -
  let ?nothing = "q = p \<and> (\<forall>t. r \<noteq> Granted t)"
  consider ?nothing | src where "m_can_block meta" "q = p" "r = Granted (new_ticket (m_size meta) True src)"
      "src \<noteq> RESERVED_FROM_SPECIAL" "src = RESERVED_FROM_PRIMARY \<longrightarrow> m_size meta \<le> primary_size_cutoff p"
      "0 < m_size meta" "m_size meta \<le> mem_limit p"
    | p' t where "0 < m_size meta" "m_size meta \<le> mem_limit p" "s_try_reserve_synced M p meta = (p', t)"
      "case t of Some t \<Rightarrow> q = p' \<and> r = Granted t
       | None \<Rightarrow> q = p'\<lparr>pending_reserves := pending_reserves p' @ [\<lparr>pr_future = future, pr_meta = meta\<rparr>]\<rparr> \<and> r = Queued"
    using r by (auto simp: aws_s3_default_buffer_pool_reserve_def word_gt_0 split: if_splits option.splits sum.splits prod.splits)
  then show ?thesis
  proof cases
    case 1
    then show ?thesis using inv by (auto split: reservation.split)
  next
    case (2 src)
    have "accounts U p (add_mset (new_ticket (m_size meta) True src) L)"
      using inv by (simp add: pool_inv_def accounts_def new_ticket_def claimed_def)
    then have "pool_inv U p (add_mset (new_ticket (m_size meta) True src) L)"
      using 2 by (intro grant_inv [OF inv]) (auto simp: new_ticket_def claimed_def ticket_ok_def same_store_def)
    with 2 show ?thesis by simp
  next
    case (3 p' t)
    note inv' = try_reserve_inv [OF inv 3(1,2,3)] and frame = try_reserve_frame(1,2) [OF 3(3)]
    show ?thesis
    proof (cases t)
      case None
      have "\<forall>r\<in>set (pending_reserves p' @ [\<lparr>pr_future = future, pr_meta = meta\<rparr>]).
          0 < m_size (pr_meta r) \<and> m_size (pr_meta r) \<le> mem_limit p'"
        using inv 3(1,2) frame by (auto simp: pool_inv_def pending_ok_def)
      with pending_update_inv [OF _ this] None 3(4) inv' show ?thesis by simp
    qed (use 3(4) inv' in simp)
  qed
qed

lemma add_special_inv:
  assumes inv: "pool_inv U p L"
  shows "pool_inv U (s_default_pool_add_special_size p sz) L"
proof (cases "sz \<le> primary_size_cutoff p \<or> map_of (special_blocks p) sz \<noteq> None")
  case False
  define q where "q = p\<lparr>special_blocks := special_blocks p @ [(sz, [])]\<rparr>"
  have new: "map_of (special_blocks p) sz = None" using False by simp
  then have "sz \<notin> fst ` set (special_blocks p)" by (simp add: map_of_eq_None_iff)
  then have "special_ok q L"
    using inv unfolding pool_inv_def special_ok_def q_def by (fastforce simp: map_add_def split: option.splits)
  moreover have "primary_ok q L" using inv primary_ok_cong [of q p L] by (simp add: q_def pool_inv_def)
  moreover have "regions q L = regions p L" by (simp add: regions_def q_def)
  ultimately have "pool_inv U q L"
    using inv unfolding pool_inv_def
    by (simp add: q_def shape_def ticket_ok_def pending_ok_def accounts_def within_limit_def)
  then show ?thesis using False by (simp add: s_default_pool_add_special_size_def q_def)
qed (use inv in \<open>auto simp: s_default_pool_add_special_size_def\<close>)

lemma preallocated_inv:
  assumes "pool_inv U p L"
  shows "pool_inv U (p\<lparr>preallocated_buffers := m\<rparr>) L"
proof -
  have "same_store p (p\<lparr>preallocated_buffers := m\<rparr>)" by (simp add: same_store_def)
  from same_store_inv [OF this] show ?thesis using assms unfolding pool_inv_def by (simp add: accounts_def)
qed

lemma fresh_memory_other:
  assumes "fresh_memory mem p (add_mset t L)"
  shows "fresh_memory mem p L"
proof -
  have "regions p L \<subseteq># regions p (add_mset t L)" by (simp add: regions_def)
  then show ?thesis using assms unfolding fresh_memory_def by (meson mset_subset_eqD)
qed

text \<open>The futures of waiting reservations are distinct, and none of them has a ticket.\<close>

definition futures_ok :: "pool_world \<Rightarrow> bool" where
  "futures_ok w \<longleftrightarrow> distinct (map pr_future (pending_reserves (pw_pool w))) \<and>
     (\<forall>r\<in>set (pending_reserves (pw_pool w)). pw_futures w (pr_future r) \<noteq> Future_Ticket)"

lemma reserve_pending:
  assumes "aws_s3_default_buffer_pool_reserve M future p meta = Some (q, r)"
  shows "pending_reserves q = pending_reserves p \<and> r \<noteq> Queued \<or>
    pending_reserves q = pending_reserves p @ [\<lparr>pr_future = future, pr_meta = meta\<rparr>] \<and> r = Queued"
  using assms try_reserve_frame(2) [of M p meta]
  by (auto simp: aws_s3_default_buffer_pool_reserve_def split: if_splits option.splits sum.splits prod.splits)

lemma acquire_pending:
  assumes "aws_s3_default_buffer_pool_acquire_buffer mem p t = Some (q, t')"
  shows "pending_reserves q = pending_reserves p"
proof (cases "t_ptr t = 0")
  case True
  then have a: "s_acquire_buffer_synced mem p t = Some (q, t')"
    using assms by (simp add: aws_s3_default_buffer_pool_acquire_buffer_def)
  show ?thesis
  proof (cases "t_reserved_from t")
    case RESERVED_FROM_PRIMARY
    obtain p1 ptr where pl: "primary_place mem p (chunks_of p (t_size t)) = (p1, ptr)" by fastforce
    then have "pending_reserves q = pending_reserves p1"
      using a RESERVED_FROM_PRIMARY by (auto simp: s_acquire_buffer_synced_def s_primary_acquire_synced_def Let_def)
    then show ?thesis using primary_place_frame(1) [OF pl] by (simp add: same_config_def)
  qed (use a in \<open>auto simp: s_acquire_buffer_synced_def Let_def split: option.splits\<close>)
qed (use assms in \<open>simp add: aws_s3_default_buffer_pool_acquire_buffer_def\<close>)

lemma serve_pending_futures:
  assumes "serve_pending M p rs = (q, served)"
  shows "map fst served = map pr_future (take (length served) rs)" "pending_reserves q = drop (length served) rs"
  using assms
proof (atomize (full), induction M p rs arbitrary: q served rule: serve_pending.induct)
  case (2 M p r rs)
  obtain p' res where attempt: "s_try_reserve_synced M p (pr_meta r) = (p', res)" by fastforce
  obtain p'' rest where serve: "serve_pending M p' rs = (p'', rest)" by fastforce
  show ?case
  proof (cases res)
    case None
    then show ?thesis using attempt 2(2) by auto
  next
    case (Some t)
    then show ?thesis using 2(1) [OF attempt [symmetric] Some serve] 2(2) attempt serve by auto
  qed
qed auto

lemma destroy_futures:
  assumes "s_aws_ticket_wrapper_destroy M is_done failed p t = Some (q, served)" "distinct (map pr_future (pending_reserves p))"
  shows "set (pending_reserves q) \<subseteq> {r \<in> set (pending_reserves p). pr_future r \<notin> fst ` set served}"
    "distinct (map pr_future (pending_reserves q))"
proof -
  obtain p1 where p1: "return_ticket p t = Some p1"
    "serve_pending M p1 (filter (\<lambda>r. \<not> is_done (pr_future r)) (pending_reserves p1)) = (q, served)"
    using assms(1) by (auto simp: s_aws_ticket_wrapper_destroy_def split: option.splits if_splits)
  define rs where "rs = filter (\<lambda>r. \<not> is_done (pr_future r)) (pending_reserves p)"
  have rs: "serve_pending M p1 rs = (q, served)" using p1 return_pending [OF p1(1)] by (simp add: rs_def)
  have d: "distinct (map pr_future rs)" using assms(2) by (simp add: rs_def distinct_map_filter)
  let ?n = "length served"
  have fst: "fst ` set served = pr_future ` set (take ?n rs)"
    using arg_cong [OF serve_pending_futures(1) [OF rs], of set] by simp
  have "distinct (map pr_future (take ?n rs) @ map pr_future (drop ?n rs))"
    using d unfolding map_append [symmetric] append_take_drop_id .
  then have split: "distinct (map pr_future (drop ?n rs))" "pr_future ` set (take ?n rs) \<inter> pr_future ` set (drop ?n rs) = {}"
    unfolding distinct_append set_map by blast+
  have q: "pending_reserves q = drop ?n rs" by (rule serve_pending_futures(2) [OF rs])
  show "distinct (map pr_future (pending_reserves q))" unfolding q by (rule split)
  show "set (pending_reserves q) \<subseteq> {r \<in> set (pending_reserves p). pr_future r \<notin> fst ` set served}"
  proof
    fix r assume "r \<in> set (pending_reserves q)"
    then have r: "r \<in> set (drop ?n rs)" by (simp only: q)
    then have "r \<in> set rs" by (rule in_set_dropD)
    moreover have "pr_future r \<notin> fst ` set served" unfolding fst using split(2) r by blast
    ultimately show "r \<in> {r \<in> set (pending_reserves p). pr_future r \<notin> fst ` set served}" by (simp add: rs_def)
  qed
qed

definition world_inv :: "pool_world \<Rightarrow> bool" where
  "world_inv w \<longleftrightarrow> pool_inv (pw_forfeited w) (pw_pool w) (pw_tickets w) \<and> futures_ok w"

lemma pool_step_inv:
  assumes "pool_step M w w'" "pool_inv (pw_forfeited w) (pw_pool w) (pw_tickets w)"
  shows "pool_inv (pw_forfeited w') (pw_pool w') (pw_tickets w')"
  using assms
proof cases
  case (reserve future meta q r)
  then show ?thesis using reserve_inv [OF assms(2) reserve(3)] by (cases r) (simp_all add: granted_tickets_def)
next
  case (claim t L mem_acquire q t')
  have "pool_inv (pw_forfeited w) q (add_mset t' L)"
    by (rule acquire_inv [OF _ claim(4) fresh_memory_other claim(5)]) (use assms(2) claim in simp_all)
  then show ?thesis using claim by simp
next
  case (release t L q served)
  then show ?thesis using destroy_inv [OF _ release(3,4), of L] assms(2) by simp
qed (use assms(2) trim_inv trim_special_inv add_special_inv preallocated_inv in
  \<open>auto simp: s_default_pool_release_special_size_def s_default_pool_add_preallocated_buffer_def
    s_default_pool_remove_preallocated_buffer_def\<close>)

lemma pool_step_futures:
  assumes "pool_step M w w'" "futures_ok w"
  shows "futures_ok w'"
  using assms
proof cases
  case (reserve future meta q r)
  then show ?thesis using reserve_pending [OF reserve(3)] assms(2)
    by (auto simp: futures_ok_def reserved_future_def)
next
  case (claim t L mem_acquire q t')
  then show ?thesis using acquire_pending [OF claim(5)] assms(2) by (simp add: futures_ok_def)
next
  case (release t L q served)
  then show ?thesis using destroy_futures [OF release(4)] assms(2) by (auto simp: futures_ok_def)
qed (use assms(2) in \<open>auto simp: futures_ok_def s_default_pool_release_special_size_def s_default_pool_add_special_size_def
    s_default_pool_add_preallocated_buffer_def s_default_pool_remove_preallocated_buffer_def\<close>)

lemma new_pool_pending: "aws_s3_default_buffer_pool_new config = Inr p \<Longrightarrow> pending_reserves p = []"
  by (auto simp: aws_s3_default_buffer_pool_new_def Let_def split: if_splits)

lemma pool_initial_inv: "pool_initial w \<Longrightarrow> world_inv w"
  using new_pool_inv new_pool_pending by (fastforce simp: pool_initial_def world_inv_def futures_ok_def)

interpretation pool: invariant_of pool_initial "pool_step M" world_inv for M
  by unfold_locales (simp_all add: pool_initial_inv, simp add: world_inv_def pool_step_inv pool_step_futures)

abbreviation pool_reachable :: "aws_math \<Rightarrow> pool_world \<Rightarrow> bool" where
  "pool_reachable M w \<equiv> reach pool_initial (pool_step M) w"

lemma reachable_inv:
  "pool_reachable M w \<Longrightarrow> pool_inv (pw_forfeited w) (pw_pool w) (pw_tickets w)"
  "pool_reachable M w \<Longrightarrow> futures_ok w"
  using pool.invariant by (auto simp: world_inv_def)

subsection \<open>No two claimed buffers overlap\<close>

lemma disj_inside:
  assumes "disj r s" "fst r \<le> fst a" "fst a + snd a \<le> fst r + snd r" "fst s \<le> fst b" "fst b + snd b \<le> fst s + snd s"
  shows "disj a b"
  using assms by (auto simp: disj_def)

text \<open>Where the memory of a claimed ticket lies.\<close>

lemma claimed_home:
  assumes inv: "pool_inv U p L" and t: "t \<in># L" "claimed t"
  obtains (primary) b i where "in_primary t" "b \<in> set (blocks p)" "placed p b i t" "i + unat (chunks_of p (t_size t)) \<le> 16"
  | (special) bs b where "in_special t" "(t_size t, bs) \<in> set (special_blocks p)" "b \<in> set bs" "held (t_size t) b t"
  | (secondary) "in_secondary t"
proof (cases "t_reserved_from t")
  case RESERVED_FROM_PRIMARY
  then show thesis using inv t primary unfolding pool_inv_def primary_ok_def by blast
next
  case RESERVED_FROM_SPECIAL
  then have "\<exists>bs. map_of (special_blocks p) (t_size t) = Some bs \<and> (claimed t \<longrightarrow> (\<exists>b\<in>set bs. held (t_size t) b t))"
    using inv t(1) unfolding pool_inv_def special_ok_def by blast
  then show thesis using RESERVED_FROM_SPECIAL t(2) special map_of_SomeD by metis
qed (use secondary in simp)

definition home :: "pool \<Rightarrow> ticket \<Rightarrow> region \<Rightarrow> bool" where
  "home p t r \<longleftrightarrow>
     (in_primary t \<and> (\<exists>b\<in>set (blocks p). r = block_region b \<and> (\<exists>i. placed p b i t \<and> i + unat (chunks_of p (t_size t)) \<le> 16)) \<or>
      in_special t \<and> (\<exists>bs. (t_size t, bs) \<in> set (special_blocks p) \<and> (\<exists>b\<in>set bs. r = block_region b \<and> held (t_size t) b t)) \<or>
      in_secondary t \<and> r = ticket_region t)"

lemma home_exists: "pool_inv U p L \<Longrightarrow> t \<in># L \<Longrightarrow> claimed t \<Longrightarrow> \<exists>r. home p t r"
  by (erule (2) claimed_home) (unfold home_def, blast+)

lemma chunk_bytes:
  assumes "pool_inv U p L" "t \<in># L" "in_primary t"
  shows "unat (t_size t) \<le> unat (chunks_of p (t_size t)) * unat (chunk_size p)"
  using assms chunks_of_bounds(4) [of p "t_size t"] by (simp add: pool_inv_def ticket_ok_def)

lemma home_inside:
  assumes inv: "pool_inv U p L" and t: "t \<in># L" and h: "home p t r"
  shows "fst r \<le> t_ptr t" "t_ptr t + unat (t_size t) \<le> fst r + snd r" "0 < snd r"
proof -
  have "fst r \<le> t_ptr t \<and> t_ptr t + unat (t_size t) \<le> fst r + snd r \<and> 0 < snd r"
  proof (cases "in_primary t")
    case True
    then obtain b i where b: "b \<in> set (blocks p)" "r = block_region b" "placed p b i t" "i + unat (chunks_of p (t_size t)) \<le> 16"
      using h by (auto simp: home_def)
    have "block_size b = pool_block_size p" "shape p" using inv b(1) by (auto simp: pool_inv_def primary_ok_def)
    moreover have "0 < unat (t_size t)" using inv t by (auto simp: pool_inv_def ticket_ok_def word_less_nat_alt)
    moreover have "i * unat (chunk_size p) + unat (chunks_of p (t_size t)) * unat (chunk_size p) \<le> 16 * unat (chunk_size p)"
      using mult_le_mono1 [OF b(4), of "unat (chunk_size p)"] by (simp add: add_mult_distrib)
    ultimately show ?thesis
      using b chunk_bytes [OF inv t True] by (auto simp: block_region_def placed_def shape_def)
  next
    case False
    have "0 < unat (t_size t)" using inv t by (auto simp: pool_inv_def ticket_ok_def word_less_nat_alt)
    moreover have "block_size b = sz" if "(sz, bs) \<in> set (special_blocks p)" "b \<in> set bs" for sz bs b
      using inv that unfolding pool_inv_def special_ok_def by blast
    ultimately show ?thesis
      using h False by (auto simp: home_def ticket_region_def block_region_def held_def)
  qed
  then show "fst r \<le> t_ptr t" "t_ptr t + unat (t_size t) \<le> fst r + snd r" "0 < snd r" by auto
qed

lemma pdisj_distinct: "pdisj M \<Longrightarrow> x \<in># M \<Longrightarrow> y \<in># M \<Longrightarrow> x \<noteq> y \<Longrightarrow> disj x y"
  using multi_member_split [of x M] by (auto simp: pdisj_add)

lemma pdisj_parts: "pdisj (A + B) \<Longrightarrow> x \<in># A \<Longrightarrow> y \<in># B \<Longrightarrow> disj x y"
  using multi_member_split [of x A] by (auto simp: pdisj_add)

lemma home_member:
  assumes "t \<in># L" "claimed t" "home p t r"
  shows "r \<in># (if in_primary t then image_mset block_region (mset (blocks p))
    else if in_special t then image_mset block_region (mset (concat (map snd (special_blocks p))))
    else image_mset ticket_region (filter_mset (\<lambda>t. claimed t \<and> in_secondary t) L))"
  using assms unfolding home_def by (elim disjE conjE bexE exE) force+

lemma homes_disjoint:
  assumes inv: "pool_inv U p L" and t: "t \<in># L" "claimed t" "home p t r" and u: "u \<in># L" "claimed u" "home p u s"
    and diff: "r \<noteq> s \<or> t_reserved_from t \<noteq> t_reserved_from u"
  shows "disj r s"
proof -
  have pd: "pdisj (regions p L)" using inv by (simp add: pool_inv_def)
  note m = home_member [OF t] home_member [OF u]
  show ?thesis
  proof (cases "r = s")
    case False
    have "r \<in># regions p L" "s \<in># regions p L"
      using m by (auto simp: regions_def split: if_splits)
    then show ?thesis using pdisj_distinct [OF pd] False by blast
  next
    case True
    let ?A = "image_mset block_region (mset (blocks p))"
    let ?B = "image_mset block_region (mset (concat (map snd (special_blocks p))))"
    let ?C = "image_mset ticket_region (filter_mset (\<lambda>t. claimed t \<and> in_secondary t) L)"
    define area where "area f = (if f = RESERVED_FROM_PRIMARY then ?A else if f = RESERVED_FROM_SPECIAL then ?B else ?C)" for f
    have *: "pdisj (?A + ?B)" "pdisj (?A + ?C)" "pdisj (?B + ?C)"
      using pd by (auto simp: regions_def intro: pdisj_subset)
    then have **: "pdisj (?B + ?A)" "pdisj (?C + ?A)" "pdisj (?C + ?B)"
      by (simp_all only: add.commute)
    have "pdisj (area (t_reserved_from t) + area (t_reserved_from u))"
      using diff True * ** unfolding area_def
      by (cases "t_reserved_from t"; cases "t_reserved_from u") (simp_all only: reserved_from.distinct if_True if_False simp_thms)
    moreover have "r \<in># area (t_reserved_from t)" "s \<in># area (t_reserved_from u)"
      using m unfolding area_def by simp_all
    ultimately show ?thesis by (rule pdisj_parts)
  qed
qed

lemma two_of_mset:
  assumes "add_mset t {#u#} \<subseteq># L" "P t" "P u"
  shows "2 \<le> size (filter_mset P L)"
proof -
  have "filter_mset P (add_mset t {#u#}) \<subseteq># filter_mset P L" by (rule multiset_filter_mono [OF assms(1)])
  then show ?thesis using assms(2,3) size_mset_mono by fastforce
qed

lemma of_bool_less_two: "size (filter_mset P L) = of_bool c \<Longrightarrow> \<not> 2 \<le> size (filter_mset P L)"
proof -
  have "of_bool c < (2 :: nat)" by simp
  then show "size (filter_mset P L) = of_bool c \<Longrightarrow> \<not> 2 \<le> size (filter_mset P L)" by linarith
qed

lemma primary_disjoint:
  assumes inv: "pool_inv U p L" and tu: "add_mset t {#u#} \<subseteq># L" and b: "b \<in> set (blocks p)"
    and t: "in_primary t" "placed p b i t" "i + unat (chunks_of p (t_size t)) \<le> 16"
    and u: "in_primary u" "placed p b j u" "j + unat (chunks_of p (t_size u)) \<le> 16"
  shows "disj (ticket_region t) (ticket_region u)"
proof -
  let ?n = "unat (chunks_of p (t_size t))" and ?m = "unat (chunks_of p (t_size u))" and ?c = "unat (chunk_size p)"
  have mem: "t \<in># L" "u \<in># L" using mset_subset_eqD [OF tu, of t] mset_subset_eqD [OF tu, of u] by simp_all
  have pos: "1 \<le> ?n" "1 \<le> ?m"
    using inv mem t u placed_chunks(1) [OF _ _ t(2) refl] placed_chunks(1) [OF _ _ u(2) refl]
    by (auto simp: pool_inv_def)
  have nc: "\<not> (covers p b c t \<and> covers p b c u)" if "c < 16" for c
  proof -
    have "size (filter_mset (covers p b c) L) = of_bool (bit (alloc_bit_mask b) c)"
      using inv b that unfolding pool_inv_def primary_ok_def by blast
    then show ?thesis using two_of_mset [OF tu, of "covers p b c"] of_bool_less_two by blast
  qed
  have "\<not> (i \<le> c \<and> c < i + ?n \<and> j \<le> c \<and> c < j + ?m)" for c
    using nc [of c] t(2,3) u(2) unfolding covers_def by force
  from this [of i] this [of j] have "i + ?n \<le> j \<or> j + ?m \<le> i" using pos by linarith
  then have "i * ?c + ?n * ?c \<le> j * ?c \<or> j * ?c + ?m * ?c \<le> i * ?c"
    using mult_le_mono1 [of "i + ?n" j ?c] mult_le_mono1 [of "j + ?m" i ?c] by (auto simp: add_mult_distrib)
  then show ?thesis
    using chunk_bytes [OF inv mem(1) t(1)] chunk_bytes [OF inv mem(2) u(1)] t(2) u(2)
    by (auto simp: disj_def ticket_region_def placed_def)
qed

lemma same_home_disjoint:
  assumes inv: "pool_inv U p L" and tu: "add_mset t {#u#} \<subseteq># L" and c: "claimed t" "claimed u"
    and h: "home p t r" "home p u r" and same: "t_reserved_from t = t_reserved_from u"
  shows "disj (ticket_region t) (ticket_region u)"
proof (cases "t_reserved_from t")
  case RESERVED_FROM_PRIMARY
  with h same obtain b i b' j where b: "b \<in> set (blocks p)" "r = block_region b" "placed p b i t"
      "i + unat (chunks_of p (t_size t)) \<le> 16"
    and "r = block_region b'" "placed p b' j u" "j + unat (chunks_of p (t_size u)) \<le> 16"
    by (auto simp: home_def)
  moreover from this have "placed p b j u" by (simp add: block_region_def placed_def)
  ultimately show ?thesis using primary_disjoint [OF inv tu b(1)] RESERVED_FROM_PRIMARY same by simp
next
  case RESERVED_FROM_SPECIAL
  with h same obtain bs b bs' b' where b: "(t_size t, bs) \<in> set (special_blocks p)" "b \<in> set bs" "r = block_region b" "held (t_size t) b t"
    and b': "(t_size u, bs') \<in> set (special_blocks p)" "b' \<in> set bs'" "r = block_region b'" "held (t_size u) b' u"
    unfolding home_def by auto
  have ok: "special_ok p L" using inv by (simp add: pool_inv_def)
  have "block_size b = t_size t" "block_size b' = t_size u"
    using ok b b' unfolding special_ok_def by blast+
  then have "held (t_size t) b u" using b b' by (auto simp: held_def block_region_def word_unat_eq_iff)
  moreover have "size (filter_mset (held (t_size t) b) L) = of_bool (alloc_bit_mask b = - 1)"
    using ok b(1,2) unfolding special_ok_def by blast
  ultimately show ?thesis using two_of_mset [OF tu, of "held (t_size t) b"] b(4) of_bool_less_two by blast
next
  case RESERVED_FROM_SECONDARY
  have "filter_mset (\<lambda>t. claimed t \<and> in_secondary t) (add_mset t {#u#}) \<subseteq># filter_mset (\<lambda>t. claimed t \<and> in_secondary t) L"
    by (rule multiset_filter_mono [OF tu])
  then have "image_mset ticket_region (add_mset t {#u#}) \<subseteq># regions p L"
    using c same RESERVED_FROM_SECONDARY image_mset_subseteq_mono regions_parts(3) subset_mset.order_trans
    by (metis (mono_tags, lifting) filter_mset_add_mset filter_empty_mset)
  then have "pdisj (image_mset ticket_region (add_mset t {#u#}))"
    using inv pdisj_subset unfolding pool_inv_def by blast
  then show ?thesis by (simp add: pdisj_add)
qed

lemma acquire_claimed:
  assumes inv: "pool_inv U p (add_mset t L)" and fresh: "fresh_memory mem p L"
    and a: "aws_s3_default_buffer_pool_acquire_buffer mem p t = Some (q, t')"
  shows "claimed t'"
proof (cases "t_ptr t = 0")
  case True
  with a have s: "s_acquire_buffer_synced mem p t = Some (q, t')"
    by (simp add: aws_s3_default_buffer_pool_acquire_buffer_def)
  note u = unclaimed_inv [OF inv True]
  have sz: "0 < t_size t" using u(4) by (simp add: ticket_ok_def)
  show ?thesis
  proof (cases "t_reserved_from t")
    case RESERVED_FROM_PRIMARY
    obtain p1 ptr where pl: "primary_place mem p (chunks_of p (t_size t)) = (p1, ptr)" by fastforce
    have "t_ptr t' = ptr"
      using s RESERVED_FROM_PRIMARY pl by (auto simp: s_acquire_buffer_synced_def s_primary_acquire_synced_def Let_def)
    then show ?thesis
      using primary_place_inv [OF inv True RESERVED_FROM_PRIMARY fresh refl pl refl] by (simp add: claimed_def)
  next
    case RESERVED_FROM_SECONDARY
    with s have "t_ptr t' = mem (t_size t)" by (auto simp: s_acquire_buffer_synced_def Let_def)
    then show ?thesis using fresh sz by (simp add: claimed_def fresh_memory_def)
  next
    case RESERVED_FROM_SPECIAL
    have ok: "special_ok p (add_mset t L)" and nf: "\<not> t_forced t"
      using inv RESERVED_FROM_SPECIAL by (auto simp: pool_inv_def ticket_ok_def)
    obtain bs where m: "map_of (special_blocks p) (t_size t) = Some bs"
      using RESERVED_FROM_SPECIAL ok unfolding special_ok_def by (metis union_single_eq_member)
    have bsok: "\<forall>x\<in>set bs. block_size x = t_size t" "\<forall>x\<in>set bs. 0 < block_ptr x"
      using ok map_of_SomeD [OF m] unfolding special_ok_def by blast+
    show ?thesis
      by (rule special_acquire_cases [OF RESERVED_FROM_SPECIAL nf m bsok(1) s])
        (use bsok(2) fresh sz in \<open>auto simp: claimed_def fresh_memory_def\<close>)
  qed
next
  case False
  with a show ?thesis by (simp add: aws_s3_default_buffer_pool_acquire_buffer_def claimed_def)
qed

end
