(* ===== verification/S3_Buffer_Pool_Theorems.thy ===== *)
theory S3_Buffer_Pool_Theorems
  imports S3_Buffer_Pool_Safety
begin

section \<open>What the buffer pool guarantees\<close>

text \<open>
  The guarantees the clients of the pool rely on, for every reachable state of the pool and its
  outstanding tickets: disjoint buffers, the memory limit, no failing assertion, nothing leaked
  when all tickets are released, and that waiting reservations are served in order as soon as
  they fit. Some of them are weaker once forced tickets were released without being claimed; by how much is part of
  the statements. The hypothesis \<open>fresh_memory\<close> on the allocator is part of the step relation.
\<close>

subsection \<open>Serving the waiting reservations\<close>

lemma trim_counters [simp]:
  "overall_taken (s_buffer_pool_trim_synced p) = overall_taken p"
  "forced_used (s_buffer_pool_trim_synced p) = forced_used p"
  "taken_for_limit (s_buffer_pool_trim_synced p) = taken_for_limit p"
  by (simp_all add: s_buffer_pool_trim_synced_def split_beta overall_taken_def taken_for_limit_def)

lemma try_reserve_None_iff:
  "snd (s_try_reserve_synced M p meta) = None \<longleftrightarrow> \<not> m_size meta + taken_for_limit p \<le> mem_limit p"
proof -
  define q where "q = (if s_should_trim_for_reserve_synced M (map_of (special_blocks p) (m_size meta) \<noteq> None) (m_size meta) p (overall_taken p)
      then s_buffer_pool_trim_synced p else p)"
  have "taken_for_limit q = taken_for_limit p" "mem_limit q = mem_limit p" by (simp_all add: q_def)
  moreover have "snd (s_try_reserve_synced M p meta) = None \<longleftrightarrow> \<not> m_size meta + taken_for_limit q \<le> mem_limit q"
    unfolding s_try_reserve_synced_def Let_def q_def [symmetric] taken_for_limit_def by simp
  ultimately show ?thesis by simp
qed

lemma try_reserve_taken:
  assumes "s_try_reserve_synced M p meta = (q, None)"
  shows "taken_for_limit q = taken_for_limit p"
  using assms by (cases rule: try_reserve_cases) auto

lemma taken_for_limit_pending [simp]: "taken_for_limit (p\<lparr>pending_reserves := rs\<rparr>) = taken_for_limit p"
  by (simp add: taken_for_limit_def overall_taken_def)

lemma serve_pending_order:
  assumes "serve_pending M p rs = (q, served)"
  shows "map (\<lambda>(f, t). (f, t_size t)) served = map (\<lambda>r. (pr_future r, m_size (pr_meta r))) (take (length served) rs)"
    and "pending_reserves q = drop (length served) rs"
    and "pending_reserves q \<noteq> [] \<Longrightarrow> \<not> m_size (pr_meta (hd (pending_reserves q))) + taken_for_limit q \<le> mem_limit q"
  using assms
proof (atomize (full), induction M p rs arbitrary: q served rule: serve_pending.induct)
  case (2 M p r rs)
  obtain p' res where attempt: "s_try_reserve_synced M p (pr_meta r) = (p', res)" by fastforce
  show ?case
  proof (cases res)
    case None
    then have "\<not> m_size (pr_meta r) + taken_for_limit p \<le> mem_limit p"
      using try_reserve_None_iff [of M p "pr_meta r"] attempt by simp
    then show ?thesis
      using None attempt 2(2) try_reserve_taken [of M p "pr_meta r" p'] try_reserve_frame(1) [OF attempt] by auto
  next
    case (Some t)
    obtain p'' rest where "serve_pending M p' rs = (p'', rest)" by fastforce
    then show ?thesis
      using 2(1) [OF attempt [symmetric] Some] 2(2) Some attempt try_reserve_frame(3) [OF attempt Some] by auto
  qed
qed auto

text \<open>With no ticket outstanding, a reservation fits unless it is smaller than what was forfeited.\<close>

lemma empty_pool_reserves:
  assumes "pool_inv U p {#}" "m_size meta \<le> mem_limit p"
  shows "snd (s_try_reserve_synced M p meta) \<noteq> None \<longleftrightarrow> bytes_of U \<le> unat (m_size meta)"
proof -
  let ?d = "bytes_of U" and ?s = "unat (m_size meta)"
  have d: "?d < 2 ^ 62" "unat (mem_limit p) < 2 ^ 62" using assms(1) by (auto simp: pool_inv_def within_limit_def shape_def)
  have "overall_taken p = - of_nat ?d" using assms(1) overall_taken_sum [of U p "{#}"] by (simp add: pool_inv_def)
  moreover have "forced_used p = 0" using assms(1) by (simp add: pool_inv_def accounts_def)
  ultimately have taken: "taken_for_limit p = - of_nat ?d" by (simp add: taken_for_limit_def)
  have dw: "unat (of_nat ?d :: usize) = ?d" using d by (simp add: unat_of_nat)
  have "m_size meta - of_nat ?d \<le> mem_limit p \<longleftrightarrow> ?d \<le> ?s"
  proof
    assume le: "?d \<le> ?s"
    then have "unat (m_size meta - of_nat ?d) = ?s - ?d" by (subst unat_sub_nowrap) (simp_all add: dw)
    then show "m_size meta - of_nat ?d \<le> mem_limit p" using assms(2) by (simp add: word_le_nat_alt)
  next
    assume le: "m_size meta - of_nat ?d \<le> mem_limit p"
    then have "unat (m_size meta - of_nat ?d) + unat (of_nat ?d :: usize) < 2 ^ 64" using d dw by (simp add: word_le_nat_alt)
    then have "unat (m_size meta - of_nat ?d + of_nat ?d) = unat (m_size meta - of_nat ?d) + ?d"
      by (subst unat_add_nowrap) (simp_all add: dw)
    then show "?d \<le> ?s" by simp
  qed
  then show ?thesis by (simp add: try_reserve_None_iff taken)
qed

subsection \<open>An example run\<close>

definition example_config :: pool_config where
  "example_config = \<lparr>cfg_part_size = MB_TO_BYTES 8, cfg_max_part_size = MB_TO_BYTES 64, cfg_memory_limit = MB_TO_BYTES 512\<rparr>"

definition example_pool :: pool where
  "example_pool = (case aws_s3_default_buffer_pool_new example_config of Inr p \<Rightarrow> p)"

definition example_meta :: "usize \<Rightarrow> reserve_meta" where
  "example_meta sz = \<lparr>m_meta_request = None, m_size = sz, m_can_block = False, m_local_offset = 0\<rparr>"

lemma example_pool_eq:
  "aws_s3_default_buffer_pool_new example_config = Inr example_pool"
  "example_pool = \<lparr>pool_block_size = MB_TO_BYTES 128, chunk_size = MB_TO_BYTES 8, primary_size_cutoff = MB_TO_BYTES 32,
     primary_size_min_cutoff = KB_TO_BYTES 512, mem_limit = MB_TO_BYTES 384, primary_allocated = 0, primary_reserved = 0,
     primary_used = 0, special_blocks_allocated = 0, special_blocks_reserved = 0, special_blocks_used = 0,
     secondary_reserved = 0, secondary_used = 0, forced_used = 0, blocks = [], pending_reserves = [], special_blocks = [],
     preallocated_buffers = Map.empty, force_keeping_special_blocks = False\<rparr>"
  by (simp_all add: example_pool_def aws_s3_default_buffer_pool_new_def example_config_def Let_def TO_BYTES_defs
      s_buffer_pool_reserved_mem_def s_max_chunk_size_for_buffer_reuse_def s_chunks_per_block_def s_primary_min_cutoff_def)

definition example_ticket :: "nat \<Rightarrow> ticket" where
  "example_ticket ptr = \<lparr>t_size = MB_TO_BYTES 8, t_ptr = ptr, t_chunks_used = (if ptr = 0 then 0 else 1),
     t_forced = False, t_reserved_from = RESERVED_FROM_PRIMARY\<rparr>"

definition example_one :: pool where
  "example_one = example_pool\<lparr>primary_used := MB_TO_BYTES 8, primary_allocated := MB_TO_BYTES 128,
     blocks := [\<lparr>block_size = MB_TO_BYTES 128, block_ptr = 4096, alloc_bit_mask = 1\<rparr>]\<rparr>"

definition example_two :: pool where
  "example_two = example_one\<lparr>primary_used := MB_TO_BYTES 16,
     blocks := [\<lparr>block_size = MB_TO_BYTES 128, block_ptr = 4096, alloc_bit_mask = 3\<rparr>]\<rparr>"

lemmas example_defs = example_pool_eq(2) example_ticket_def example_one_def example_two_def example_meta_def

lemma example_reserve:
  assumes "p = example_pool \<or> p = example_one"
  shows "aws_s3_default_buffer_pool_reserve example_math 1 p (example_meta (MB_TO_BYTES 8)) =
    Some (p\<lparr>primary_reserved := MB_TO_BYTES 8\<rparr>, Granted (example_ticket 0))"
proof -
  have p: "special_blocks p = []" "overall_taken p \<le> MB_TO_BYTES 8" "forced_used p = 0" "preallocated_buffers p = Map.empty"
    "mem_limit p = MB_TO_BYTES 384" "primary_size_cutoff p = MB_TO_BYTES 32" "primary_size_min_cutoff p = KB_TO_BYTES 512"
    "primary_reserved p = 0" "pool_block_size p = MB_TO_BYTES 128"
    using assms by (auto simp: example_defs TO_BYTES_defs overall_taken_def)
  have "overall_taken p = 0 \<or> overall_taken p = MB_TO_BYTES 8"
    using assms by (auto simp: example_defs TO_BYTES_defs overall_taken_def)
  moreover have "\<not> s_should_trim_for_reserve_synced example_math False (MB_TO_BYTES 8) p (overall_taken p)"
    by (simp add: s_should_trim_for_reserve_synced_def p TO_BYTES_defs)
  ultimately show ?thesis
    using p by (elim disjE) (simp_all add: aws_s3_default_buffer_pool_reserve_def s_find_preallocated_buffer_def
        s_try_reserve_synced_def new_ticket_def example_ticket_def example_meta_def TO_BYTES_defs Let_def)
qed

lemma example_claim_one:
  "aws_s3_default_buffer_pool_acquire_buffer (\<lambda>sz. 4096) (example_pool\<lparr>primary_reserved := MB_TO_BYTES 8\<rparr>) (example_ticket 0) =
     Some (example_one, example_ticket 4096)"
  by (simp add: aws_s3_default_buffer_pool_acquire_buffer_def s_acquire_buffer_synced_def s_primary_acquire_synced_def
      primary_place_def primary_search_def chunks_of_def example_defs TO_BYTES_defs Let_def s_set_bits_def)

lemma example_claim_two:
  "aws_s3_default_buffer_pool_acquire_buffer (\<lambda>sz. 2 ^ 40) (example_one\<lparr>primary_reserved := MB_TO_BYTES 8\<rparr>) (example_ticket 0) =
     Some (example_two, example_ticket 8392704)"
proof -
  have "find_chunks 1 1 = Some 1"
    by (simp add: find_chunks_def s_chunks_per_block_def s_check_bits_def upt_rec [of 0] upt_rec [of "Suc 0"] Let_def)
  then show ?thesis
    by (simp add: aws_s3_default_buffer_pool_acquire_buffer_def s_acquire_buffer_synced_def s_primary_acquire_synced_def
      primary_place_def primary_search_def chunks_of_def example_defs TO_BYTES_defs Let_def s_set_bits_def)
qed

definition example_world :: "pool \<Rightarrow> ticket multiset \<Rightarrow> pool_world" where
  "example_world p L = \<lparr>pw_pool = p, pw_tickets = L, pw_forfeited = {#}, pw_futures = (\<lambda>f. Future_Ticket)\<rparr>"

lemma example_world_fields [simp]:
  "pw_pool (example_world p L) = p" "pw_tickets (example_world p L) = L" "pw_forfeited (example_world p L) = {#}"
  by (simp_all add: example_world_def)

lemma example_initial: "pool_initial (example_world example_pool {#})"
  unfolding pool_initial_def
  by (rule exI [of _ example_config]) (simp add: example_pool_eq(1), simp add: example_config_def TO_BYTES_defs)

lemma example_world_steps:
  assumes "pending_reserves p = []"
  shows "aws_s3_default_buffer_pool_reserve M future p meta = Some (q, Granted t) \<Longrightarrow>
      pool_step M (example_world p L) (example_world q (add_mset t L))"
    "aws_s3_default_buffer_pool_acquire_buffer mem_acquire p t = Some (q, t') \<Longrightarrow>
      fresh_memory mem_acquire p (add_mset t L) \<Longrightarrow> \<not> t_forced t \<Longrightarrow>
      pool_step M (example_world p (add_mset t L)) (example_world q (add_mset t' L))"
proof -
  assume "aws_s3_default_buffer_pool_reserve M future p meta = Some (q, Granted t)"
  then have "aws_s3_default_buffer_pool_reserve M future (pw_pool (example_world p L)) meta = Some (q, Granted t)" by simp
  from pool_step.reserve [OF _ this] assms show "pool_step M (example_world p L) (example_world q (add_mset t L))"
    by (simp add: example_world_def granted_tickets_def reserved_future_def fun_upd_idem)
next
  assume "aws_s3_default_buffer_pool_acquire_buffer mem_acquire p t = Some (q, t')" "fresh_memory mem_acquire p (add_mset t L)"
    "\<not> t_forced t"
  then show "pool_step M (example_world p (add_mset t L)) (example_world q (add_mset t' L))"
    using pool_step.claim [of "example_world p (add_mset t L)" t L mem_acquire q t' M]
    by (simp add: example_world_def)
qed

lemma example_fresh:
  "fresh_memory (\<lambda>sz. 4096) (example_pool\<lparr>primary_reserved := MB_TO_BYTES 8\<rparr>) {#example_ticket 0#}"
  "fresh_memory (\<lambda>sz. 2 ^ 40) (example_one\<lparr>primary_reserved := MB_TO_BYTES 8\<rparr>) (add_mset (example_ticket 0) {#example_ticket 4096#})"
  "fresh_memory (\<lambda>sz. 2 ^ 40) example_one {#example_ticket 4096#}"
  by (simp_all add: fresh_memory_def regions_def example_defs claimed_def block_region_def disj_def TO_BYTES_defs)

lemma example_run:
  "pool_reachable example_math (example_world example_pool {#})"
  "pool_reachable example_math (example_world example_one {#example_ticket 4096#})"
  "pool_reachable example_math (example_world example_two (add_mset (example_ticket 8392704) {#example_ticket 4096#}))"
proof -
  have p: "pending_reserves example_pool = []" "pending_reserves example_one = []" and t: "\<not> t_forced (example_ticket 0)"
    "pending_reserves (example_pool\<lparr>primary_reserved := MB_TO_BYTES 8\<rparr>) = []"
    "pending_reserves (example_one\<lparr>primary_reserved := MB_TO_BYTES 8\<rparr>) = []"
    by (simp_all add: example_defs)
  have steps: "pool_step example_math (example_world example_pool {#}) (example_world (example_pool\<lparr>primary_reserved := MB_TO_BYTES 8\<rparr>) {#example_ticket 0#})"
    "pool_step example_math (example_world (example_pool\<lparr>primary_reserved := MB_TO_BYTES 8\<rparr>) {#example_ticket 0#})
      (example_world example_one {#example_ticket 4096#})"
    "pool_step example_math (example_world example_one {#example_ticket 4096#})
      (example_world (example_one\<lparr>primary_reserved := MB_TO_BYTES 8\<rparr>) (add_mset (example_ticket 0) {#example_ticket 4096#}))"
    "pool_step example_math (example_world (example_one\<lparr>primary_reserved := MB_TO_BYTES 8\<rparr>) (add_mset (example_ticket 0) {#example_ticket 4096#}))
      (example_world example_two (add_mset (example_ticket 8392704) {#example_ticket 4096#}))"
    by (rule example_world_steps(1) [OF p(1) example_reserve], rule disjI1, rule refl,
        rule example_world_steps(2) [OF t(2) example_claim_one example_fresh(1) t(1)],
        rule example_world_steps(1) [OF p(2) example_reserve], rule disjI2, rule refl,
        rule example_world_steps(2) [OF t(3) example_claim_two example_fresh(2) t(1)])
  show r0: "pool_reachable example_math (example_world example_pool {#})" by (rule reach_init, rule example_initial)
  show r2: "pool_reachable example_math (example_world example_one {#example_ticket 4096#})"
    by (rule reach_step, rule reach_step, rule r0, rule steps(1), rule steps(2))
  show "pool_reachable example_math (example_world example_two (add_mset (example_ticket 8392704) {#example_ticket 4096#}))"
    by (rule reach_step, rule reach_step, rule r2, rule steps(3), rule steps(4))
qed

subsection \<open>Guarantees\<close>

text \<open>
  C4. Memory safety of the pool: in every state reachable by reserving, claiming, releasing (claimed or not, forced or
  not), cancelling, trimming and registering sizes and buffers, the memory of any two outstanding claimed tickets is
  disjoint. The allocator is assumed to return memory that is not in use; the memory limit, the memory claimed by force and
  the bytes of forced tickets ever released unclaimed are below \<open>2^62\<close>.
\<close>

theorem claimed_buffers_disjoint:
  assumes r: "pool_reachable M w" and tu: "add_mset t {#u#} \<subseteq># pw_tickets w" and c: "claimed t" "claimed u"
  shows "t_ptr t + unat (t_size t) \<le> t_ptr u \<or> t_ptr u + unat (t_size u) \<le> t_ptr t"
proof -
  note inv = reachable_inv(1) [OF r]
  have mem: "t \<in># pw_tickets w" "u \<in># pw_tickets w"
    using mset_subset_eqD [OF tu, of t] mset_subset_eqD [OF tu, of u] by simp_all
  obtain r s where h: "home (pw_pool w) t r" "home (pw_pool w) u s" using home_exists [OF inv] mem c by blast
  have "disj (ticket_region t) (ticket_region u)"
  proof (cases "r \<noteq> s \<or> t_reserved_from t \<noteq> t_reserved_from u")
    case True
    show ?thesis
      by (rule disj_inside [OF homes_disjoint [OF inv mem(1) c(1) h(1) mem(2) c(2) h(2) True]])
        (use home_inside [OF inv mem(1) h(1)] home_inside [OF inv mem(2) h(2)] in \<open>auto simp: ticket_region_def\<close>)
  next
    case False
    then have "r = s" by simp
    with False show ?thesis
      using same_home_disjoint [OF inv tu c h(1)] h(2) by simp
  qed
  then show ?thesis by (simp add: disj_def ticket_region_def)
qed

theorem claimed_buffers_disjoint_witness:
  "pool_reachable example_math (example_world example_two (add_mset (example_ticket 8392704) {#example_ticket 4096#})) \<and>
   claimed (example_ticket 8392704) \<and> claimed (example_ticket 4096) \<and>
   (8392704 + unat (t_size (example_ticket 8392704)) \<le> 4096 \<or> 4096 + unat (t_size (example_ticket 4096)) \<le> 8392704)"
proof -
  have c: "claimed (example_ticket 8392704)" "claimed (example_ticket 4096)" by (simp_all add: claimed_def example_ticket_def)
  have "t_ptr (example_ticket 8392704) = 8392704" "t_ptr (example_ticket 4096) = 4096" by (simp_all add: example_ticket_def)
  then show ?thesis
    using claimed_buffers_disjoint [OF example_run(3) _ c] example_run(3) c by simp
qed

text \<open>
  C5. The memory limit. In every reachable state the counters of the code are, modulo \<open>2^64\<close>, the memory reserved without
  force or claimed, less the bytes of the forced tickets that were released without being claimed, and the memory reserved
  or used without force exceeds the limit by at most these bytes. So while no forced ticket was released unclaimed, the
  counters are exact, the memory taken without force is within the limit, and what is counted beyond the limit is at most
  the memory claimed by force. The assumptions are those of C4.
\<close>

theorem memory_limit_respected:
  assumes "pool_reachable M w"
  shows "bytes_of (filter_mset (\<lambda>t. \<not> t_forced t) (pw_tickets w)) \<le> unat (mem_limit (pw_pool w)) + bytes_of (pw_forfeited w) \<and>
    overall_taken (pw_pool w) =
      of_nat (bytes_of (filter_mset (\<lambda>t. \<not> t_forced t \<or> claimed t) (pw_tickets w))) - of_nat (bytes_of (pw_forfeited w)) \<and>
    unat (forced_used (pw_pool w)) = bytes_of (filter_mset (\<lambda>t. claimed t \<and> t_forced t) (pw_tickets w)) \<and>
    (pw_forfeited w = {#} \<longrightarrow>
      unat (overall_taken (pw_pool w)) = bytes_of (filter_mset (\<lambda>t. \<not> t_forced t \<or> claimed t) (pw_tickets w)) \<and>
      unat (overall_taken (pw_pool w)) \<le> unat (mem_limit (pw_pool w)) + unat (forced_used (pw_pool w)))"
proof -
  let ?p = "pw_pool w" and ?L = "pw_tickets w" and ?U = "pw_forfeited w"
  note inv = reachable_inv(1) [OF assms, unfolded pool_inv_def]
  have bytes: "bytes_of (filter_mset P L) = nsum P L" for P L by (simp add: bytes_of_def nsum_def)
  let ?nf = "nsum (\<lambda>t. \<not> t_forced t) ?L" and ?fc = "nsum (\<lambda>t. claimed t \<and> t_forced t) ?L"
  have lim: "?nf \<le> unat (mem_limit ?p) + bytes_of ?U" "unat (mem_limit ?p) < 2 ^ 62" "bytes_of ?U < 2 ^ 62" "?fc < 2 ^ 62"
    using inv by (auto simp: within_limit_def shape_def)
  have sum: "nsum (\<lambda>t. \<not> t_forced t \<or> claimed t) L = nsum (\<lambda>t. \<not> t_forced t) L + nsum (\<lambda>t. claimed t \<and> t_forced t) L" for L
    by (induction L) auto
  have o: "overall_taken ?p = of_nat (?nf + ?fc) - of_nat (bytes_of ?U)" using overall_taken_sum [of ?U ?p ?L] inv by blast
  have "forced_used ?p = of_nat ?fc" using inv by (simp add: accounts_def wsum_of_nsum)
  then have f: "unat (forced_used ?p) = ?fc" using lim by (simp only: unat_of_nat) simp
  have "unat (overall_taken ?p) = ?nf + ?fc" if "?U = {#}"
  proof -
    have "overall_taken ?p = of_nat (?nf + ?fc)" using o that by simp
    moreover have "(?nf + ?fc) mod 2 ^ 64 = ?nf + ?fc" using lim that by simp
    ultimately show ?thesis by (simp only: unat_of_nat) simp
  qed
  with o f lim show ?thesis unfolding bytes sum by auto
qed

theorem memory_limit_respected_witness:
  "pool_reachable example_math (example_world example_two (add_mset (example_ticket 8392704) {#example_ticket 4096#})) \<and>
   unat (overall_taken example_two) = 2 * 8388608 \<and>
   unat (overall_taken example_two) \<le> unat (mem_limit example_two) + unat (forced_used example_two)"
  using memory_limit_respected [OF example_run(3)] example_run(3)
  by (simp add: example_ticket_def TO_BYTES_defs)

text \<open>
  C6. The fatal assertions on the ticket paths cannot fail: in every reachable state every outstanding ticket can be
  claimed, which gives it non-null memory, and released. In particular a waiting reservation whose future is done when a
  ticket is released has a future with an error, because it can only have been cancelled. The assumptions are those of C4.
\<close>

theorem tickets_can_be_claimed_and_released:
  assumes r: "pool_reachable M w" and t: "pw_tickets w = add_mset t L"
    and fresh: "fresh_memory mem_acquire (pw_pool w) (pw_tickets w)"
  shows "(\<exists>q t'. aws_s3_default_buffer_pool_acquire_buffer mem_acquire (pw_pool w) t = Some (q, t') \<and> claimed t') \<and>
    (\<exists>q served. s_aws_ticket_wrapper_destroy M (future_done w) (future_failed w) (pw_pool w) t = Some (q, served))"
proof -
  note inv = reachable_inv(1) [OF r, unfolded t] and fresh = fresh_memory_other [OF fresh [unfolded t]]
  obtain q t' where a: "aws_s3_default_buffer_pool_acquire_buffer mem_acquire (pw_pool w) t = Some (q, t')"
    using acquire_total [OF inv fresh] by blast
  moreover have "claimed t'" using acquire_claimed [OF inv fresh a] .
  moreover obtain p1 where p1: "return_ticket (pw_pool w) t = Some p1" using return_total [OF inv] by blast
  have "\<forall>r\<in>set (pending_reserves p1). future_done w (pr_future r) \<longrightarrow> future_failed w (pr_future r)"
    using reachable_inv(2) [OF r] return_pending [OF p1] ticket_future.exhaust unfolding futures_ok_def by metis
  then have "\<exists>q served. s_aws_ticket_wrapper_destroy M (future_done w) (future_failed w) (pw_pool w) t = Some (q, served)"
    using p1 by (auto simp: s_aws_ticket_wrapper_destroy_def list_ex_iff)
  ultimately show ?thesis by blast
qed

theorem tickets_can_be_claimed_and_released_witness:
  "\<exists>q served. s_aws_ticket_wrapper_destroy example_math (\<lambda>_. True) (\<lambda>_. False) example_one (example_ticket 4096) = Some (q, served)"
proof -
  from tickets_can_be_claimed_and_released [OF example_run(2), of "example_ticket 4096" "{#}" "\<lambda>sz. 2 ^ 40"] example_fresh(3) show ?thesis
    by (simp add: example_world_def)
qed

text \<open>
  C7. Nothing leaks: once every ticket has been released no memory counts as claimed by force, trimming gives every block
  back to the allocator, and destroying the pool passes its assertions when every reservation that still waits was
  cancelled. The counters add up, modulo \<open>2^64\<close>, to minus the bytes of the forced tickets that were released without
  being claimed, so to 0 if there were none. The assumptions are those of C4.
\<close>

theorem released_pool_is_empty:
  assumes r: "pool_reachable M w" and none: "pw_tickets w = {#}"
  shows "overall_taken (pw_pool w) = - of_nat (bytes_of (pw_forfeited w)) \<and> forced_used (pw_pool w) = 0 \<and>
    blocks (s_buffer_pool_trim_synced (pw_pool w)) = [] \<and>
    concat (map snd (special_blocks (s_buffer_pool_trim_synced (pw_pool w)))) = [] \<and>
    ((\<forall>r\<in>set (pending_reserves (pw_pool w)). future_done w (pr_future r)) \<longrightarrow>
      aws_s3_default_buffer_pool_destroy (future_done w) (pw_pool w) = Some ())"
proof -
  let ?p = "pw_pool w"
  note inv = reachable_inv(1) [OF r, unfolded none]
  have "alloc_bit_mask b = 0" if b: "b \<in> set (blocks ?p)" for b
  proof (rule bit_eqI)
    fix c
    have "c < 16 \<Longrightarrow> (0 :: nat) = of_bool (bit (alloc_bit_mask b) c)"
      using inv b unfolding pool_inv_def primary_ok_def by simp
    then show "bit (alloc_bit_mask b) c = bit 0 c" using bit_imp_le_length [of "alloc_bit_mask b" c] by (cases "c < 16") auto
  qed
  moreover have "alloc_bit_mask b = 0" if b: "(sz, bs) \<in> set (special_blocks ?p)" "b \<in> set bs" for sz bs b
  proof -
    have "alloc_bit_mask b = 0 \<or> alloc_bit_mask b = - 1" "(0 :: nat) = of_bool (alloc_bit_mask b = - 1)"
      using inv b unfolding pool_inv_def special_ok_def by auto
    then show ?thesis by auto
  qed
  moreover have "overall_taken ?p = - of_nat (bytes_of (pw_forfeited w))" "forced_used ?p = 0"
    using inv overall_taken_sum [of "pw_forfeited w" ?p "{#}"] by (auto simp: pool_inv_def accounts_def)
  ultimately show ?thesis
    by (auto simp: s_buffer_pool_trim_synced_def split_beta trim_blocks_eq s_buffer_pool_trim_special_blocks_synced_def
        trim_special_lists_eq trimmed_lists_def filter_empty_conv aws_s3_default_buffer_pool_destroy_def list_all_iff)
qed

theorem released_pool_is_empty_witness:
  "pool_reachable example_math (example_world example_pool {#}) \<and> overall_taken example_pool = 0 \<and>
   aws_s3_default_buffer_pool_destroy (\<lambda>_. True) example_pool = Some ()"
  using released_pool_is_empty [OF example_run(1)] example_run(1) by (simp add: example_world_def)

text \<open>
  C8. Waiting reservations are served in order: releasing a ticket drops the cancelled
  reservations, serves a prefix of the others in their order, each with a ticket of the size it
  asked for, and keeps the rest in order. The first one kept does not fit under the limit.
\<close>

theorem release_serves_waiters_in_order:
  assumes "s_aws_ticket_wrapper_destroy M is_done failed p t = Some (q, served)"
  shows "\<exists>n. map (\<lambda>(f, t). (f, t_size t)) served =
      map (\<lambda>r. (pr_future r, m_size (pr_meta r))) (take n (filter (\<lambda>r. \<not> is_done (pr_future r)) (pending_reserves p))) \<and>
    pending_reserves q = drop n (filter (\<lambda>r. \<not> is_done (pr_future r)) (pending_reserves p)) \<and>
    (pending_reserves q \<noteq> [] \<longrightarrow>
      snd (s_try_reserve_synced M q (pr_meta (hd (pending_reserves q)))) = None)"
proof -
  obtain p1 where p1: "return_ticket p t = Some p1"
    "serve_pending M p1 (filter (\<lambda>r. \<not> is_done (pr_future r)) (pending_reserves p1)) = (q, served)"
    using assms by (auto simp: s_aws_ticket_wrapper_destroy_def split: option.splits if_splits)
  have "pending_reserves p1 = pending_reserves p" by (rule return_pending [OF p1(1)])
  then show ?thesis
    using serve_pending_order [OF p1(2)] by (intro exI [of _ "length served"]) (simp add: try_reserve_None_iff)
qed

definition example_waiting :: pool where
  "example_waiting = example_one\<lparr>pending_reserves := [\<lparr>pr_future = 7, pr_meta = example_meta (MB_TO_BYTES 384)\<rparr>]\<rparr>"

definition example_waiting_world :: pool_world where
  "example_waiting_world = \<lparr>pw_pool = example_waiting, pw_tickets = {#example_ticket 4096#}, pw_forfeited = {#},
     pw_futures = (\<lambda>f. if f = 7 then Future_Waiting else Future_Ticket)\<rparr>"

lemma example_waiting_step:
  "pool_reachable example_math example_waiting_world"
proof -
  have trim: "\<not> s_should_trim_for_reserve_synced example_math (map_of (special_blocks example_one) (MB_TO_BYTES 384) \<noteq> None)
      (MB_TO_BYTES 384) example_one (overall_taken example_one)"
    by (simp add: s_should_trim_for_reserve_synced_def example_defs TO_BYTES_defs overall_taken_def example_math_def)
  have q: "aws_s3_default_buffer_pool_reserve example_math 7 example_one (example_meta (MB_TO_BYTES 384)) = Some (example_waiting, Queued)"
    using trim
    by (simp add: example_waiting_def aws_s3_default_buffer_pool_reserve_def s_find_preallocated_buffer_def s_try_reserve_synced_def
        overall_taken_def example_defs TO_BYTES_defs Let_def)
  have "pool_step example_math (example_world example_one {#example_ticket 4096#}) example_waiting_world"
    using pool_step.reserve [of 7 "example_world example_one {#example_ticket 4096#}" example_math, unfolded example_world_fields, OF _ q]
    by (simp add: example_world_def example_waiting_world_def granted_tickets_def reserved_future_def example_defs fun_upd_def)
  then show ?thesis by (rule reach_step [OF example_run(2)])
qed

lemma example_waiting_release:
  "\<exists>q served. s_aws_ticket_wrapper_destroy example_math (\<lambda>_. False) (\<lambda>_. False) example_waiting (example_ticket 4096) = Some (q, served)"
proof -
  have "pool_inv {#} example_waiting {#example_ticket 4096#}"
    using reachable_inv(1) [OF example_waiting_step] by (simp add: example_waiting_world_def)
  from return_total [OF this] show ?thesis by (auto simp: s_aws_ticket_wrapper_destroy_def list_ex_iff)
qed

theorem release_serves_waiters_in_order_witness:
  "\<exists>q served n. s_aws_ticket_wrapper_destroy example_math (\<lambda>_. False) (\<lambda>_. False) example_waiting (example_ticket 4096) = Some (q, served) \<and>
     pending_reserves q = drop n (pending_reserves example_waiting)"
proof -
  obtain q served where d: "s_aws_ticket_wrapper_destroy example_math (\<lambda>_. False) (\<lambda>_. False) example_waiting (example_ticket 4096) = Some (q, served)"
    using example_waiting_release by blast
  with release_serves_waiters_in_order [OF d] show ?thesis by auto
qed

text \<open>
  C9. When the last outstanding ticket is released, the first reservation that still waits is served, whatever its
  size, unless forced tickets were released without being claimed, the last one included: then it is served exactly when
  it is at least as large as all of these together, and otherwise none is served and it waits on although the pool is
  empty. The assumptions are those of C4.
\<close>

theorem last_release_serves_first_waiter:
  assumes r: "pool_reachable M w" and t: "pw_tickets w = {#t#}"
    and d: "d = bytes_of (forfeit t (pw_forfeited w))" "d < 2 ^ 62"
    and first: "filter (\<lambda>r. \<not> future_done w (pr_future r)) (pending_reserves (pw_pool w)) = r # rs"
  shows "\<exists>q served. s_aws_ticket_wrapper_destroy M (future_done w) (future_failed w) (pw_pool w) t = Some (q, served) \<and>
    (if d \<le> unat (m_size (pr_meta r))
     then \<exists>u rest. served = (pr_future r, u) # rest \<and> t_size u = m_size (pr_meta r)
     else served = [] \<and> pending_reserves q = r # rs)"
proof -
  let ?p = "pw_pool w"
  note inv = reachable_inv(1) [OF r, unfolded t]
  obtain p1 where p1: "return_ticket ?p t = Some p1" using return_total [OF inv] by blast
  then have inv1: "pool_inv (forfeit t (pw_forfeited w)) p1 {#}" "same_config ?p p1"
    using return_inv [OF inv _ p1] d by auto
  have "r \<in> set (pending_reserves ?p)" using arg_cong [OF first, of set] by auto
  then have fits: "m_size (pr_meta r) \<le> mem_limit p1" using inv1 by (auto simp: pool_inv_def pending_ok_def same_config_def)
  have "\<forall>r\<in>set (pending_reserves ?p). future_done w (pr_future r) \<longrightarrow> future_failed w (pr_future r)"
    using reachable_inv(2) [OF \<open>pool_reachable M w\<close>] ticket_future.exhaust unfolding futures_ok_def by metis
  then have des: "s_aws_ticket_wrapper_destroy M (future_done w) (future_failed w) ?p t = Some (serve_pending M p1 (r # rs))"
    using p1 first return_pending [OF p1] by (auto simp: s_aws_ticket_wrapper_destroy_def list_ex_iff)
  obtain p2 res where attempt: "s_try_reserve_synced M p1 (pr_meta r) = (p2, res)" by fastforce
  have some: "res \<noteq> None \<longleftrightarrow> d \<le> unat (m_size (pr_meta r))"
    using empty_pool_reserves [OF inv1(1) fits, of M] attempt d(1) by simp
  show ?thesis
  proof (cases res)
    case None
    then show ?thesis using des attempt some by auto
  next
    case (Some u)
    obtain q rest where "serve_pending M p2 rs = (q, rest)" by fastforce
    then show ?thesis using des attempt some Some try_reserve_frame(3) [OF attempt Some] by auto
  qed
qed

theorem last_release_serves_first_waiter_witness:
  "\<exists>q u rest. s_aws_ticket_wrapper_destroy example_math (future_done example_waiting_world) (future_failed example_waiting_world)
       example_waiting (example_ticket 4096) = Some (q, (7, u) # rest) \<and> t_size u = MB_TO_BYTES 384"
proof -
  have w: "pw_tickets example_waiting_world = {#example_ticket 4096#}" "pw_pool example_waiting_world = example_waiting"
    "forfeit (example_ticket 4096) (pw_forfeited example_waiting_world) = {#}"
    by (simp_all add: example_waiting_world_def forfeit_def example_ticket_def)
  have "filter (\<lambda>r. \<not> future_done example_waiting_world (pr_future r)) (pending_reserves (pw_pool example_waiting_world)) =
      \<lparr>pr_future = 7, pr_meta = example_meta (MB_TO_BYTES 384)\<rparr> # []"
    by (simp add: example_waiting_world_def example_waiting_def)
  from last_release_serves_first_waiter [OF example_waiting_step w(1) refl _ this] show ?thesis
    by (auto simp: w example_meta_def)
qed

text \<open>
  C10. A reservation for a meta request with a caller-owned buffer is served from that buffer alone, at once, and does not
  change the pool: it is a view of the requested size at the requested offset when that lies within the buffer,
  and otherwise the error for a short buffer.
\<close>

theorem preallocated_view_in_bounds:
  assumes "m_meta_request meta = Some r" "preallocated_buffers p r = Some b" "m_size meta \<noteq> 0"
  shows "aws_s3_default_buffer_pool_reserve M future p meta =
    Some (p, if unat (m_local_offset meta) + unat (m_size meta) \<le> unat (buf_capacity b)
             then Preallocated \<lparr>buf_buffer = buf_buffer b + unat (m_local_offset meta), buf_capacity = m_size meta\<rparr>
             else Failed AWS_ERROR_SHORT_BUFFER)"
proof -
  have "(m_local_offset meta > buf_capacity b \<or> m_size meta > buf_capacity b - m_local_offset meta) \<longleftrightarrow>
      \<not> unat (m_local_offset meta) + unat (m_size meta) \<le> unat (buf_capacity b)"
  proof (cases "unat (m_local_offset meta) \<le> unat (buf_capacity b)")
    case True
    then have "unat (buf_capacity b - m_local_offset meta) = unat (buf_capacity b) - unat (m_local_offset meta)"
      by (rule unat_sub_nowrap)
    then show ?thesis using True by (auto simp: word_less_nat_alt)
  qed (simp add: word_less_nat_alt)
  then show ?thesis
    using assms by (simp add: aws_s3_default_buffer_pool_reserve_def s_find_preallocated_buffer_def s_reserve_from_preallocated_buffer_def)
qed

theorem preallocated_view_in_bounds_witness:
  "let p = s_default_pool_add_preallocated_buffer example_pool 3 \<lparr>buf_buffer = 1000, buf_capacity = 100\<rparr>;
       meta = \<lambda>offset. \<lparr>m_meta_request = Some 3, m_size = 40, m_can_block = False, m_local_offset = offset\<rparr>
   in aws_s3_default_buffer_pool_reserve example_math 1 p (meta 60) =
        Some (p, Preallocated \<lparr>buf_buffer = 1060, buf_capacity = 40\<rparr>) \<and>
      aws_s3_default_buffer_pool_reserve example_math 1 p (meta 61) = Some (p, Failed AWS_ERROR_SHORT_BUFFER)"
proof -
  let ?p = "s_default_pool_add_preallocated_buffer example_pool 3 \<lparr>buf_buffer = 1000, buf_capacity = 100\<rparr>"
  let ?m = "\<lambda>offset. \<lparr>m_meta_request = Some 3, m_size = 40, m_can_block = False, m_local_offset = offset\<rparr>"
  have "m_meta_request (?m x) = Some 3" "preallocated_buffers ?p 3 = Some \<lparr>buf_buffer = 1000, buf_capacity = 100\<rparr>" "m_size (?m x) \<noteq> 0" for x
    by (simp_all add: s_default_pool_add_preallocated_buffer_def)
  from preallocated_view_in_bounds [OF this, of example_math 1 60] preallocated_view_in_bounds [OF this, of example_math 1 61]
  show ?thesis by simp
qed

subsection \<open>A forced ticket released without being claimed\<close>

text \<open>
  C11. Reserving with can_block adds nothing to the reserved counters, but releasing such a
  ticket before it is claimed subtracts its size from them: the counter wraps below 0. A new
  pool then queues every smaller reservation although no ticket is outstanding.
\<close>

theorem unclaimed_forced_release_wraps:
  assumes new: "aws_s3_default_buffer_pool_new config = Inr p" and lim: "cfg_memory_limit config < 2 ^ 62"
    and sz: "0 < sz" "sz \<le> mem_limit p" and small: "0 < sz'" "sz' < sz"
  shows "\<exists>t q. aws_s3_default_buffer_pool_reserve M 0 p \<lparr>m_meta_request = None, m_size = sz, m_can_block = True, m_local_offset = 0\<rparr> =
      Some (p, Granted t) \<and> s_aws_ticket_wrapper_destroy M is_done failed p t = Some (q, []) \<and> overall_taken q = - sz \<and>
    (\<exists>q'. aws_s3_default_buffer_pool_reserve M 1 q \<lparr>m_meta_request = None, m_size = sz', m_can_block = False, m_local_offset = 0\<rparr> =
      Some (q', Queued))"
proof -
  let ?src = "if sz \<le> primary_size_cutoff p \<and> sz \<ge> primary_size_min_cutoff p then RESERVED_FROM_PRIMARY else RESERVED_FROM_SECONDARY"
  let ?t = "new_ticket sz True ?src"
  have z: "overall_taken p = 0" "forced_used p = 0" "pending_reserves p = []" "primary_reserved p = 0"
    "secondary_reserved p = 0" "preallocated_buffers p = Map.empty"
    using new by (auto simp: aws_s3_default_buffer_pool_new_def Let_def overall_taken_def split: if_splits)
  have shape: "unat (mem_limit p) < 2 ^ 62" using new_pool_inv [OF lim new] by (simp add: pool_inv_def shape_def)
  define p1 where "p1 = (if ?src = RESERVED_FROM_PRIMARY then p\<lparr>primary_reserved := - sz\<rparr> else p\<lparr>secondary_reserved := - sz\<rparr>)"
  define q where "q = p1\<lparr>pending_reserves := []\<rparr>"
  have ret: "return_ticket p ?t = Some p1" "pending_reserves p1 = []"
    using z by (auto simp: p1_def return_ticket_def new_ticket_def)
  then have des: "s_aws_ticket_wrapper_destroy M is_done failed p ?t = Some (q, [])"
    by (simp add: s_aws_ticket_wrapper_destroy_def q_def)
  have q: "overall_taken q = - sz" "forced_used q = 0" "mem_limit q = mem_limit p" "preallocated_buffers q = Map.empty"
    using z by (auto simp: q_def p1_def overall_taken_def add.assoc)
  have "\<not> sz' - sz \<le> mem_limit p"
  proof
    assume "sz' - sz \<le> mem_limit p"
    then have "unat (sz' - sz) + unat sz < 2 ^ 64" using shape sz(2) by (simp add: word_le_nat_alt)
    then have "unat (sz' - sz + sz) = unat (sz' - sz) + unat sz" by (intro unat_add_nowrap) simp
    then show False using small(2) by (simp add: word_less_nat_alt)
  qed
  then have none: "snd (s_try_reserve_synced M q meta) = None" if "m_size meta = sz'" for meta
    using that q by (simp add: try_reserve_None_iff taken_for_limit_def)
  have "sz' \<le> mem_limit q" using sz small q(3) by simp
  moreover obtain q' where "s_try_reserve_synced M q \<lparr>m_meta_request = None, m_size = sz', m_can_block = False, m_local_offset = 0\<rparr> = (q', None)"
    using none [of "\<lparr>m_meta_request = None, m_size = sz', m_can_block = False, m_local_offset = 0\<rparr>"]
    by (metis prod.collapse reserve_meta.select_convs(2))
  ultimately have "\<exists>q'. aws_s3_default_buffer_pool_reserve M 1 q \<lparr>m_meta_request = None, m_size = sz', m_can_block = False, m_local_offset = 0\<rparr> =
      Some (q', Queued)"
    using small(1) by (auto simp: aws_s3_default_buffer_pool_reserve_def s_find_preallocated_buffer_def)
  moreover have "aws_s3_default_buffer_pool_reserve M 0 p \<lparr>m_meta_request = None, m_size = sz, m_can_block = True, m_local_offset = 0\<rparr> =
      Some (p, Granted ?t)"
    using sz by (auto simp: aws_s3_default_buffer_pool_reserve_def s_find_preallocated_buffer_def)
  ultimately show ?thesis using des q(1) by blast
qed

theorem unclaimed_forced_release_wraps_witness:
  "aws_s3_default_buffer_pool_new example_config = Inr example_pool \<and>
   (\<exists>t q. s_aws_ticket_wrapper_destroy example_math (\<lambda>_. False) (\<lambda>_. False) example_pool t = Some (q, []) \<and>
     overall_taken q = - 8388608 \<and>
     (\<exists>q'. aws_s3_default_buffer_pool_reserve example_math 1 q (example_meta 4096) = Some (q', Queued)))"
proof -
  have "cfg_memory_limit example_config < 2 ^ 62" "(8388608 :: usize) \<le> mem_limit example_pool"
    by (simp_all add: example_config_def example_pool_eq(2) TO_BYTES_defs)
  from unclaimed_forced_release_wraps [OF example_pool_eq(1) this(1) _ this(2), of 4096 example_math "\<lambda>_. False" "\<lambda>_. False"]
  show ?thesis using example_pool_eq(1) by (auto simp: example_meta_def)
qed

end
