(* ===== verification/S3_Request.thy ===== *)
theory S3_Request
  imports S3_Prelude
begin

section \<open>Requests and their types (\<^verbatim>\<open>source/s3_request.c\<close>, \<^verbatim>\<open>source/s3.c\<close>)\<close>

text \<open>
  A meta request is carried out by requests, each of which is one HTTP exchange. This theory has
  the record of a request, its construction, the table of operation names, and the payload size
  of a part. Headers are maps from names to values. The HTTP message, the signable, the metrics'
  timestamps and the reference count of a request are not part of the model.
\<close>

unbundle bit_operations_syntax

subsection \<open>Request types and operation names\<close>

datatype aws_s3_request_type =
    AWS_S3_REQUEST_TYPE_UNKNOWN
  | AWS_S3_REQUEST_TYPE_HEAD_OBJECT
  | AWS_S3_REQUEST_TYPE_GET_OBJECT
  | AWS_S3_REQUEST_TYPE_LIST_PARTS
  | AWS_S3_REQUEST_TYPE_CREATE_MULTIPART_UPLOAD
  | AWS_S3_REQUEST_TYPE_UPLOAD_PART
  | AWS_S3_REQUEST_TYPE_ABORT_MULTIPART_UPLOAD
  | AWS_S3_REQUEST_TYPE_COMPLETE_MULTIPART_UPLOAD
  | AWS_S3_REQUEST_TYPE_UPLOAD_PART_COPY
  | AWS_S3_REQUEST_TYPE_COPY_OBJECT
  | AWS_S3_REQUEST_TYPE_PUT_OBJECT
  | AWS_S3_REQUEST_TYPE_CREATE_SESSION

text \<open>The registrations of \<open>s_s3_request_type_info_init\<close>, in its order.\<close>

definition s_s3_request_type_info_init :: "(aws_s3_request_type \<times> string) list" where
  "s_s3_request_type_info_init =
     [(AWS_S3_REQUEST_TYPE_HEAD_OBJECT, ''HeadObject''),
      (AWS_S3_REQUEST_TYPE_GET_OBJECT, ''GetObject''),
      (AWS_S3_REQUEST_TYPE_LIST_PARTS, ''ListParts''),
      (AWS_S3_REQUEST_TYPE_CREATE_MULTIPART_UPLOAD, ''CreateMultipartUpload''),
      (AWS_S3_REQUEST_TYPE_UPLOAD_PART, ''UploadPart''),
      (AWS_S3_REQUEST_TYPE_ABORT_MULTIPART_UPLOAD, ''AbortMultipartUpload''),
      (AWS_S3_REQUEST_TYPE_COMPLETE_MULTIPART_UPLOAD, ''CompleteMultipartUpload''),
      (AWS_S3_REQUEST_TYPE_UPLOAD_PART_COPY, ''UploadPartCopy''),
      (AWS_S3_REQUEST_TYPE_COPY_OBJECT, ''CopyObject''),
      (AWS_S3_REQUEST_TYPE_PUT_OBJECT, ''PutObject''),
      (AWS_S3_REQUEST_TYPE_CREATE_SESSION, ''CreateSession'')]"

text \<open>The array entry of an unregistered type is zeroed, so its name is \<open>NULL\<close>.\<close>

definition aws_s3_request_type_to_operation_name_static_string :: "aws_s3_request_type \<Rightarrow> string option" where
  "aws_s3_request_type_to_operation_name_static_string type = map_of s_s3_request_type_info_init type"

definition aws_s3_request_type_operation_name :: "aws_s3_request_type \<Rightarrow> string" where
  "aws_s3_request_type_operation_name type =
     (case aws_s3_request_type_to_operation_name_static_string type of Some name \<Rightarrow> name | None \<Rightarrow> '''')"

text \<open>
  The hash table finds the registered name equal to the given one under the comparison function
  of aws-c-common it was built with, \<open>eq_ignore_case\<close>.
\<close>

definition aws_s3_request_type_from_operation_name :: "(string \<Rightarrow> string \<Rightarrow> bool) \<Rightarrow> string \<Rightarrow> aws_s3_request_type" where
  "aws_s3_request_type_from_operation_name eq_ignore_case name =
     (case List.find (\<lambda>(type, registered). eq_ignore_case registered name) s_s3_request_type_info_init of
        Some (type, _) \<Rightarrow> type
      | None \<Rightarrow> AWS_S3_REQUEST_TYPE_UNKNOWN)"

subsection \<open>The request\<close>

text \<open>The request tags of the meta request types, each of which uses its own enumeration.\<close>

datatype request_tag =
    AWS_S3_AUTO_RANGE_GET_REQUEST_TYPE_HEAD_OBJECT
  | AWS_S3_AUTO_RANGE_GET_REQUEST_TYPE_GET_OBJECT_WITH_RANGE
  | AWS_S3_AUTO_RANGE_GET_REQUEST_TYPE_GET_OBJECT_WITH_PART_NUMBER_1
  | AWS_S3_AUTO_RANGED_PUT_REQUEST_TAG_LIST_PARTS
  | AWS_S3_AUTO_RANGED_PUT_REQUEST_TAG_CREATE_MULTIPART_UPLOAD
  | AWS_S3_AUTO_RANGED_PUT_REQUEST_TAG_PART
  | AWS_S3_AUTO_RANGED_PUT_REQUEST_TAG_ABORT_MULTIPART_UPLOAD
  | AWS_S3_AUTO_RANGED_PUT_REQUEST_TAG_COMPLETE_MULTIPART_UPLOAD
  | AWS_S3_COPY_OBJECT_REQUEST_TAG_GET_OBJECT_SIZE
  | AWS_S3_COPY_OBJECT_REQUEST_TAG_BYPASS
  | AWS_S3_COPY_OBJECT_REQUEST_TAG_CREATE_MULTIPART_UPLOAD
  | AWS_S3_COPY_OBJECT_REQUEST_TAG_MULTIPART_COPY
  | AWS_S3_COPY_OBJECT_REQUEST_TAG_ABORT_MULTIPART_UPLOAD
  | AWS_S3_COPY_OBJECT_REQUEST_TAG_COMPLETE_MULTIPART_UPLOAD
  | DEFAULT_REQUEST_TAG

datatype checksum_algorithm =
    AWS_SCA_NONE | AWS_SCA_CRC32C | AWS_SCA_CRC32 | AWS_SCA_SHA1 | AWS_SCA_SHA256 | AWS_SCA_CRC64NVME
  | AWS_SCA_SHA512 | AWS_SCA_XXHASH64 | AWS_SCA_XXHASH3_64 | AWS_SCA_XXHASH3_128 | AWS_SCA_UNKNOWN

text \<open>
  Headers as they are looked up: the value \<open>aws_http_headers_get\<close> returns for a name of a response or of the message of
  the user. That function compares names without case; the code looks up and writes only names that are constants of the
  library, always spelled the same, so the map is keyed by that spelling.
\<close>

type_synonym headers = "string \<rightharpoonup> string"

record aws_s3_request =
  rq_tag :: request_tag
  rq_type :: aws_s3_request_type
  rq_operation_name :: "string option"
  rq_part_number :: u32
  rq_part_range_start :: u64
  rq_part_range_end :: u64
  rq_buffer_size :: usize
  rq_ticket :: "nat option"
  rq_response_headers :: "headers option"
  rq_response_body :: "u8 list"
  rq_response_body_capacity :: usize
  rq_response_status :: nat
  rq_metrics :: bool
  rq_validation_algorithm :: checksum_algorithm
  rq_did_validate :: bool
  rq_checksum_match :: bool
  rq_record_response_headers :: bool
  rq_should_allocate_buffer_from_pool :: bool
  rq_always_send :: bool
  rq_discovers_object_size :: bool
  rq_is_noop :: bool
  rq_was_previously_uploaded :: bool

definition AWS_S3_REQUEST_FLAG_RECORD_RESPONSE_HEADERS :: u32 where
  "AWS_S3_REQUEST_FLAG_RECORD_RESPONSE_HEADERS = 1"

definition AWS_S3_REQUEST_FLAG_ALWAYS_SEND :: u32 where
  "AWS_S3_REQUEST_FLAG_ALWAYS_SEND = 2"

definition AWS_S3_REQUEST_FLAG_ALLOCATE_BUFFER_FROM_POOL :: u32 where
  "AWS_S3_REQUEST_FLAG_ALLOCATE_BUFFER_FROM_POOL = 4"

lemmas request_flag_defs = AWS_S3_REQUEST_FLAG_RECORD_RESPONSE_HEADERS_def AWS_S3_REQUEST_FLAG_ALWAYS_SEND_def
  AWS_S3_REQUEST_FLAG_ALLOCATE_BUFFER_FROM_POOL_def

definition g_streaming_buffer_size :: usize where
  "g_streaming_buffer_size = MB_TO_BYTES 1"

text \<open>
  The parts of the meta request the constructor reads are its arguments: the part size, and
  whether file I/O streams from a parallel body stream.
\<close>

definition aws_s3_request_new ::
    "usize \<Rightarrow> bool \<Rightarrow> request_tag \<Rightarrow> aws_s3_request_type \<Rightarrow> u32 \<Rightarrow> u32 \<Rightarrow> aws_s3_request" where
  "aws_s3_request_new part_size fio_streaming tag type part_number flags =
     \<lparr>rq_tag = tag, rq_type = type,
      rq_operation_name = aws_s3_request_type_to_operation_name_static_string type,
      rq_part_number = part_number, rq_part_range_start = 0, rq_part_range_end = 0,
      rq_buffer_size = (if fio_streaming then min part_size (2 * g_streaming_buffer_size) else part_size),
      rq_ticket = None, rq_response_headers = None, rq_response_body = [], rq_response_body_capacity = 0,
      rq_response_status = 0, rq_metrics = True, rq_validation_algorithm = AWS_SCA_NONE,
      rq_did_validate = False, rq_checksum_match = False,
      rq_record_response_headers = (flags AND AWS_S3_REQUEST_FLAG_RECORD_RESPONSE_HEADERS \<noteq> 0),
      rq_should_allocate_buffer_from_pool = (flags AND AWS_S3_REQUEST_FLAG_ALLOCATE_BUFFER_FROM_POOL \<noteq> 0),
      rq_always_send = (flags AND AWS_S3_REQUEST_FLAG_ALWAYS_SEND \<noteq> 0),
      rq_discovers_object_size = False, rq_is_noop = False, rq_was_previously_uploaded = False\<rparr>"

definition aws_s3_request_get_payload_size :: "aws_math \<Rightarrow> aws_s3_request \<Rightarrow> u64" where
  "aws_s3_request_get_payload_size M request =
     (case aws_sub_u64_checked M (rq_part_range_end request) (rq_part_range_start request) of
        None \<Rightarrow> 0
      | Some result \<Rightarrow> result + 1)"

subsection \<open>Names and types are inverse to each other\<close>

text \<open>
  What aws-c-common documents of its comparison: equality up to the case of ASCII letters.
\<close>

definition ascii_lower :: "char \<Rightarrow> char" where
  "ascii_lower c = (if 65 \<le> (of_char c :: nat) \<and> (of_char c :: nat) \<le> 90 then char_of ((of_char c :: nat) + 32) else c)"

definition ignores_case :: "(string \<Rightarrow> string \<Rightarrow> bool) \<Rightarrow> bool" where
  "ignores_case eq \<longleftrightarrow> (\<forall>a b. eq a b \<longleftrightarrow> map ascii_lower a = map ascii_lower b)"

lemma registered_names_distinct:
  "distinct (map (\<lambda>(type, name). map ascii_lower name) s_s3_request_type_info_init)"
  by (simp add: s_s3_request_type_info_init_def ascii_lower_def)

lemma registered_types:
  "distinct (map fst s_s3_request_type_info_init)"
  "t \<noteq> AWS_S3_REQUEST_TYPE_UNKNOWN \<longleftrightarrow> t \<in> fst ` set s_s3_request_type_info_init"
  by (cases t; simp add: s_s3_request_type_info_init_def)+

lemma find_registered:
  assumes "distinct (map (\<lambda>(type, name). f name) l)" "(t, n) \<in> set l" "f n = f m"
  shows "List.find (\<lambda>(type, name). f name = f m) l = Some (t, n)"
  using assms
proof (induction l)
  case (Cons x l)
  then show ?case by (cases "x = (t, n)") (auto intro: rev_image_eqI)
qed simp

text \<open>
  C12. Round trip of operation names: looking up an operation name, in any case of its letters,
  gives a request type exactly when the name of that type is the given name up to case, so the
  registered types and their names determine each other.
\<close>

theorem operation_name_round_trip:
  assumes "ignores_case eq" "type \<noteq> AWS_S3_REQUEST_TYPE_UNKNOWN"
  shows "aws_s3_request_type_from_operation_name eq name = type \<longleftrightarrow>
    map ascii_lower (aws_s3_request_type_operation_name type) = map ascii_lower name"
proof
  assume "map ascii_lower (aws_s3_request_type_operation_name type) = map ascii_lower name"
  moreover obtain n where n: "(type, n) \<in> set s_s3_request_type_info_init"
    using assms(2) registered_types(2) by force
  then have "aws_s3_request_type_operation_name type = n"
    using registered_types(1)
    by (simp add: aws_s3_request_type_operation_name_def aws_s3_request_type_to_operation_name_static_string_def)
  ultimately show "aws_s3_request_type_from_operation_name eq name = type"
    using find_registered [OF registered_names_distinct n] assms(1)
    by (simp add: aws_s3_request_type_from_operation_name_def ignores_case_def)
next
  assume *: "aws_s3_request_type_from_operation_name eq name = type"
  with assms(2) obtain n where
      f: "List.find (\<lambda>(type, registered). eq registered name) s_s3_request_type_info_init = Some (type, n)"
    by (auto simp: aws_s3_request_type_from_operation_name_def split: option.splits)
  then have "(type, n) \<in> set s_s3_request_type_info_init" "eq n name"
    by (auto simp: find_Some_iff in_set_conv_nth)
  then show "map ascii_lower (aws_s3_request_type_operation_name type) = map ascii_lower name"
    using registered_types(1) assms(1)
    by (simp add: aws_s3_request_type_operation_name_def aws_s3_request_type_to_operation_name_static_string_def ignores_case_def)
qed

theorem operation_name_round_trip_witness:
  "aws_s3_request_type_from_operation_name (\<lambda>a b. map ascii_lower a = map ascii_lower b) ''GETobject'' =
     AWS_S3_REQUEST_TYPE_GET_OBJECT"
proof -
  have "map ascii_lower (aws_s3_request_type_operation_name AWS_S3_REQUEST_TYPE_GET_OBJECT) = map ascii_lower ''GETobject''"
    by code_simp
  then show ?thesis
    using operation_name_round_trip [of "\<lambda>a b. map ascii_lower a = map ascii_lower b" AWS_S3_REQUEST_TYPE_GET_OBJECT "''GETobject''"]
    by (simp add: ignores_case_def)
qed

end
