(* ===== verification/S3_Util.thy ===== *)
theory S3_Util
  imports S3_Request S3_Ranges
begin

section \<open>Headers, XML bodies and the user agent (\<^verbatim>\<open>source/s3_util.c\<close>)\<close>

text \<open>
  The text utilities: finding a body in an XML document, parsing the \<open>Content-Range\<close>,
  \<open>Content-Length\<close> and \<open>Range\<close> headers and the part count of an ETag, the codes of recoverable
  server errors, and the \<open>User-Agent\<close> header with its section of metric ids.

  A byte cursor is the string it points to. What aws-c-common provides on cursors is a
  parameter (record \<open>str_lib\<close>): comparison up to case, the sequence of tokens that repeated
  \<open>aws_byte_cursor_next_split\<close> yields, parsing of a decimal number, advancing and trimming. The
  XML parser is a parameter too: it turns a document into a tree of nodes. Printing and scanning
  of numbers with the C library (\<open>snprintf\<close>, \<open>sscanf\<close> with \<open>PRIu64\<close>) is modelled here.
\<close>

subsection \<open>Decimal numbers\<close>

definition digit_char :: "nat \<Rightarrow> char" where
  "digit_char d = char_of (48 + d)"

definition is_digit :: "char \<Rightarrow> bool" where
  "is_digit c \<longleftrightarrow> 48 \<le> (of_char c :: nat) \<and> (of_char c :: nat) \<le> 57"

definition digit_value :: "char \<Rightarrow> nat" where
  "digit_value c = of_char c - 48"

fun show_nat :: "nat \<Rightarrow> string" where
  "show_nat n = (if n < 10 then [digit_char n] else show_nat (n div 10) @ [digit_char (n mod 10)])"

declare show_nat.simps [simp del]

definition show_u64 :: "u64 \<Rightarrow> string" where
  "show_u64 n = show_nat (unat n)"

definition digits_value :: "string \<Rightarrow> nat" where
  "digits_value s = foldl (\<lambda>n c. n * 10 + digit_value c) 0 s"

text \<open>
  \<open>sscanf\<close> with the conversion \<open>PRIu64\<close>: leading white space, an optional sign, digits; a value
  that does not fit is the greatest number, and a minus sign negates modulo \<open>2^64\<close>.
\<close>

definition is_space :: "char \<Rightarrow> bool" where
  "is_space c \<longleftrightarrow> (of_char c :: nat) \<in> {9, 10, 11, 12, 13, 32}"

definition scan_u64 :: "string \<Rightarrow> u64 option" where
  "scan_u64 s =
     (let s = dropWhile is_space s;
          minus = (s \<noteq> [] \<and> hd s = CHR ''-'');
          s = (if s \<noteq> [] \<and> (hd s = CHR ''-'' \<or> hd s = CHR ''+'') then tl s else s);
          ds = takeWhile is_digit s; n = digits_value ds
      in if ds = [] then None
         else if n \<ge> 2 ^ 64 then Some (- 1)
         else Some (if minus then - of_nat n else of_nat n))"

subsection \<open>Cursor operations of aws-c-common\<close>

record str_lib =
  eq_ignore_case :: "string \<Rightarrow> string \<Rightarrow> bool"
  next_splits :: "char \<Rightarrow> string \<Rightarrow> string list"
  utf8_parse_u64 :: "string \<Rightarrow> u64 option"
  str_advance :: "string \<Rightarrow> nat \<Rightarrow> string"
  trim_pred :: "(char \<Rightarrow> bool) \<Rightarrow> string \<Rightarrow> string"
  starts_with :: "string \<Rightarrow> string \<Rightarrow> bool"
  starts_with_ignore_case :: "string \<Rightarrow> string \<Rightarrow> bool"
  find_exact :: "string \<Rightarrow> string \<Rightarrow> bool"

text \<open>What aws-c-common documents of them, as reference functions.\<close>

fun split_spec :: "char \<Rightarrow> string \<Rightarrow> string list" where
  "split_spec c [] = [[]]"
| "split_spec c (x # xs) =
     (if x = c then [] # split_spec c xs
      else case split_spec c xs of [] \<Rightarrow> [[x]] | t # ts \<Rightarrow> (x # t) # ts)"

definition parse_spec :: "string \<Rightarrow> u64 option" where
  "parse_spec s =
     (if s \<noteq> [] \<and> list_all is_digit s \<and> digits_value s < 2 ^ 64 then Some (of_nat (digits_value s)) else None)"

definition advance_spec :: "string \<Rightarrow> nat \<Rightarrow> string" where
  "advance_spec s n = (if n \<le> length s then drop n s else s)"

definition trim_spec :: "(char \<Rightarrow> bool) \<Rightarrow> string \<Rightarrow> string" where
  "trim_spec P s = rev (dropWhile P (rev (dropWhile P s)))"

definition str_ok :: "str_lib \<Rightarrow> bool" where
  "str_ok S \<longleftrightarrow>
     ignores_case (eq_ignore_case S) \<and> next_splits S = split_spec \<and> utf8_parse_u64 S = parse_spec \<and>
     str_advance S = advance_spec \<and> trim_pred S = trim_spec \<and>
     (\<forall>s p. starts_with S s p \<longleftrightarrow> take (length p) s = p) \<and>
     (\<forall>s p. starts_with_ignore_case S s p \<longleftrightarrow> take (length p) (map ascii_lower s) = map ascii_lower p)"

definition example_str :: str_lib where
  "example_str = \<lparr>eq_ignore_case = (\<lambda>s t. map ascii_lower s = map ascii_lower t), next_splits = split_spec,
     utf8_parse_u64 = parse_spec, str_advance = advance_spec, trim_pred = trim_spec,
     starts_with = (\<lambda>s p. take (length p) s = p),
     starts_with_ignore_case = (\<lambda>s p. take (length p) (map ascii_lower s) = map ascii_lower p),
     find_exact = (\<lambda>s t. list_ex (\<lambda>i. take (length t) (drop i s) = t) [0..<length s])\<rparr>"

subsection \<open>Header names\<close>

definition g_range_header_name :: string where "g_range_header_name = ''Range''"

definition g_if_match_header_name :: string where "g_if_match_header_name = ''If-Match''"

definition g_etag_header_name :: string where "g_etag_header_name = ''ETag''"

definition g_content_range_header_name :: string where "g_content_range_header_name = ''Content-Range''"

definition g_content_type_header_name :: string where "g_content_type_header_name = ''Content-Type''"

definition g_content_length_header_name :: string where "g_content_length_header_name = ''Content-Length''"

definition g_user_agent_header_name :: string where "g_user_agent_header_name = ''User-Agent''"

definition g_user_agent_header_product_name :: string where "g_user_agent_header_product_name = ''CRTS3NativeClient''"

definition g_user_agent_header_platform :: string where "g_user_agent_header_platform = ''platform''"

definition g_user_agent_header_unknown :: string where "g_user_agent_header_unknown = ''unknown''"

definition g_request_validation_mode :: string where "g_request_validation_mode = ''x-amz-checksum-mode''"

definition g_enabled :: string where "g_enabled = ''enabled''"

definition g_s3_service_name :: string where "g_s3_service_name = ''s3''"

definition g_s3express_service_name :: string where "g_s3express_service_name = ''s3express''"

definition g_host_header_name :: string where "g_host_header_name = ''Host''"

definition g_request_id_header_name :: string where "g_request_id_header_name = ''x-amz-request-id''"

definition g_amz_id_2_header_name :: string where "g_amz_id_2_header_name = ''x-amz-id-2''"

definition g_content_encoding_header_name :: string where "g_content_encoding_header_name = ''Content-Encoding''"

definition g_content_encoding_header_aws_chunked :: string where "g_content_encoding_header_aws_chunked = ''aws-chunked''"

definition g_decoded_content_length_header_name :: string where "g_decoded_content_length_header_name = ''x-amz-decoded-content-length''"

definition g_content_md5_header_name :: string where "g_content_md5_header_name = ''Content-MD5''"

definition g_trailer_header_name :: string where "g_trailer_header_name = ''x-amz-trailer''"

definition g_checksum_algorithm_header_name :: string where "g_checksum_algorithm_header_name = ''x-amz-checksum-algorithm''"

definition g_sdk_checksum_algorithm_header_name :: string where "g_sdk_checksum_algorithm_header_name = ''x-amz-sdk-checksum-algorithm''"

definition g_accept_ranges_header_name :: string where "g_accept_ranges_header_name = ''accept-ranges''"

definition g_acl_header_name :: string where "g_acl_header_name = ''x-amz-acl''"

definition g_post_method :: string where "g_post_method = ''POST''"

definition g_head_method :: string where "g_head_method = ''HEAD''"

definition g_delete_method :: string where "g_delete_method = ''DELETE''"

text \<open>A collection of headers read by index, in the order of \<open>aws_http_headers_get_index\<close>.\<close>

definition copy_http_headers :: "(string \<times> string) list \<Rightarrow> headers \<Rightarrow> headers" where
  "copy_http_headers src dest = foldl (\<lambda>h (name, value). h(name \<mapsto> value)) dest src"

subsection \<open>The body at a path of an XML document\<close>

text \<open>\<open>xml_body\<close> is \<open>None\<close> when \<open>aws_xml_node_as_body\<close> fails on the node.\<close>

datatype xml_node = Xml (xml_name: string) (xml_body: "string option") (xml_children: "xml_node list")

fun s_xml_get_body_at_path_on_node ::
    "(string \<Rightarrow> string \<Rightarrow> bool) \<Rightarrow> string list \<Rightarrow> nat \<Rightarrow> xml_node \<Rightarrow> string option \<Rightarrow> string option option"
and xml_node_traverse ::
    "(string \<Rightarrow> string \<Rightarrow> bool) \<Rightarrow> string list \<Rightarrow> nat \<Rightarrow> xml_node list \<Rightarrow> string option \<Rightarrow> string option option" where
  "s_xml_get_body_at_path_on_node eq path path_name_i (Xml node_name body children) found =
     (if found \<noteq> None then Some found
      else if eq node_name (path ! path_name_i)
      then if path_name_i + 1 = length path
           then (case body of None \<Rightarrow> None | Some b \<Rightarrow> Some (Some b))
           else xml_node_traverse eq path (path_name_i + 1) children found
      else Some found)"
| "xml_node_traverse eq path path_name_i [] found = Some found"
| "xml_node_traverse eq path path_name_i (node # nodes) found =
     (case s_xml_get_body_at_path_on_node eq path path_name_i node found of
        None \<Rightarrow> None
      | Some found' \<Rightarrow> xml_node_traverse eq path path_name_i nodes found')"

text \<open>\<open>Inl AWS_ERROR_UNKNOWN\<close> stands for the error of the XML parser.\<close>

definition aws_xml_get_body_at_path ::
    "(string \<Rightarrow> string \<Rightarrow> bool) \<Rightarrow> (string \<Rightarrow> xml_node option) \<Rightarrow> string \<Rightarrow> string list \<Rightarrow> string result" where
  "aws_xml_get_body_at_path eq xml_parse xml_doc path =
     (case xml_parse xml_doc of
        None \<Rightarrow> Inl AWS_ERROR_UNKNOWN
      | Some root \<Rightarrow>
          (case s_xml_get_body_at_path_on_node eq path 0 root None of
             None \<Rightarrow> Inl AWS_ERROR_UNKNOWN
           | Some None \<Rightarrow> Inl AWS_ERROR_STRING_MATCH_NOT_FOUND
           | Some (Some body) \<Rightarrow> Inr body))"

subsection \<open>Quotes and errors\<close>

definition aws_strip_quotes :: "str_lib \<Rightarrow> string \<Rightarrow> string" where
  "aws_strip_quotes S in_cur =
     (if length in_cur \<ge> 2 \<and> in_cur ! 0 = CHR 0x22 \<and> in_cur ! (length in_cur - 1) = CHR 0x22
      then butlast (str_advance S in_cur 1) else in_cur)"

definition aws_last_error_or_unknown :: "aws_error \<Rightarrow> aws_error" where
  "aws_last_error_or_unknown last_error = (if last_error = AWS_ERROR_SUCCESS then AWS_ERROR_UNKNOWN else last_error)"

definition aws_s3_crt_error_code_from_recoverable_server_error_code_string :: "str_lib \<Rightarrow> string \<Rightarrow> aws_error" where
  "aws_s3_crt_error_code_from_recoverable_server_error_code_string S error_code_string =
     (if eq_ignore_case S error_code_string ''SlowDown'' then AWS_ERROR_S3_SLOW_DOWN
      else if eq_ignore_case S error_code_string ''InternalError'' \<or> eq_ignore_case S error_code_string ''InternalErrors''
      then AWS_ERROR_S3_INTERNAL_ERROR
      else if eq_ignore_case S error_code_string ''RequestTimeTooSkewed'' then AWS_ERROR_S3_REQUEST_TIME_TOO_SKEWED
      else if eq_ignore_case S error_code_string ''RequestTimeout'' then AWS_ERROR_S3_REQUEST_TIMEOUT
      else AWS_ERROR_UNKNOWN)"

definition aws_s3_is_checksum_value_header_name :: "str_lib \<Rightarrow> string \<Rightarrow> bool" where
  "aws_s3_is_checksum_value_header_name S header_name \<longleftrightarrow>
     starts_with_ignore_case S header_name ''x-amz-checksum-'' \<and>
     \<not> eq_ignore_case S header_name ''x-amz-checksum-type'' \<and>
     \<not> eq_ignore_case S header_name ''x-amz-checksum-mode'' \<and>
     \<not> eq_ignore_case S header_name ''x-amz-checksum-algorithm''"

subsection \<open>Content-Range, Content-Length and Range\<close>

text \<open>A cursor that is advanced past its end stays where it is.\<close>

definition aws_s3_parse_content_range_cursor :: "str_lib \<Rightarrow> string \<Rightarrow> (u64 \<times> u64 \<times> u64) result" where
  "aws_s3_parse_content_range_cursor S cursor =
     (if \<not> starts_with S cursor ''bytes '' then Inl AWS_ERROR_S3_INVALID_CONTENT_RANGE_HEADER
      else
        let cursor = str_advance S cursor (length ''bytes '') in
        case next_splits S CHR ''-'' cursor of
          [] \<Rightarrow> Inl AWS_ERROR_S3_INVALID_CONTENT_RANGE_HEADER
        | range_start_cursor # _ \<Rightarrow>
            (case utf8_parse_u64 S range_start_cursor of
               None \<Rightarrow> Inl AWS_ERROR_S3_INVALID_CONTENT_RANGE_HEADER
             | Some range_start \<Rightarrow>
                 let cursor = str_advance S cursor (length range_start_cursor + 1) in
                 (case next_splits S CHR ''/'' cursor of
                    [] \<Rightarrow> Inl AWS_ERROR_S3_INVALID_CONTENT_RANGE_HEADER
                  | range_end_cursor # _ \<Rightarrow>
                      (case utf8_parse_u64 S range_end_cursor of
                         None \<Rightarrow> Inl AWS_ERROR_S3_INVALID_CONTENT_RANGE_HEADER
                       | Some range_end \<Rightarrow>
                           let cursor = str_advance S cursor (length range_end_cursor + 1) in
                           (case utf8_parse_u64 S cursor of
                              None \<Rightarrow> Inl AWS_ERROR_S3_INVALID_CONTENT_RANGE_HEADER
                            | Some object_size \<Rightarrow> Inr (range_start, range_end, object_size))))))"

definition aws_s3_parse_content_range_response_header :: "str_lib \<Rightarrow> headers \<Rightarrow> (u64 \<times> u64 \<times> u64) result" where
  "aws_s3_parse_content_range_response_header S response_headers =
     (case response_headers g_content_range_header_name of
        None \<Rightarrow> Inl AWS_ERROR_S3_MISSING_CONTENT_RANGE_HEADER
      | Some value \<Rightarrow> aws_s3_parse_content_range_cursor S value)"

definition aws_s3_parse_content_length_response_header :: "headers \<Rightarrow> u64 result" where
  "aws_s3_parse_content_length_response_header response_headers =
     (case response_headers g_content_length_header_name of
        None \<Rightarrow> Inl AWS_ERROR_S3_MISSING_CONTENT_LENGTH_HEADER
      | Some value \<Rightarrow>
          (case scan_u64 value of
             None \<Rightarrow> Inl AWS_ERROR_S3_INVALID_CONTENT_LENGTH_HEADER
           | Some content_length \<Rightarrow> Inr content_length))"

text \<open>The optional number of one side of a range: whether it is there, and its value.\<close>

definition range_bound :: "str_lib \<Rightarrow> string \<Rightarrow> (bool \<times> u64) result" where
  "range_bound S substr =
     (if substr = [] then Inr (False, 0)
      else case utf8_parse_u64 S substr of
          None \<Rightarrow> Inl AWS_ERROR_S3_INVALID_RANGE_HEADER
        | Some n \<Rightarrow> Inr (True, n))"

definition aws_s3_parse_request_range_header :: "str_lib \<Rightarrow> headers \<Rightarrow> (bool \<times> bool \<times> u64 \<times> u64) result" where
  "aws_s3_parse_request_range_header S request_headers =
     (case request_headers g_range_header_name of
        None \<Rightarrow> Inl AWS_ERROR_S3_INVALID_RANGE_HEADER
      | Some value \<Rightarrow>
          if \<not> starts_with S value ''bytes='' then Inl AWS_ERROR_S3_INVALID_RANGE_HEADER
          else
            (case next_splits S CHR ''-'' (str_advance S value (length ''bytes='')) of
               [] \<Rightarrow> Inl AWS_ERROR_S3_INVALID_RANGE_HEADER
             | start_substr # rest \<Rightarrow>
                 (case range_bound S start_substr of
                    Inl e \<Rightarrow> Inl e
                  | Inr (has_start_range, start_range) \<Rightarrow>
                      (case rest of
                         [] \<Rightarrow> Inl AWS_ERROR_S3_INVALID_RANGE_HEADER
                       | end_substr # extra \<Rightarrow>
                           (case range_bound S end_substr of
                              Inl e \<Rightarrow> Inl e
                            | Inr (has_end_range, end_range) \<Rightarrow>
                                if extra \<noteq> [] then Inl AWS_ERROR_S3_INVALID_RANGE_HEADER
                                else if has_end_range \<and> start_range > end_range then Inl AWS_ERROR_S3_INVALID_RANGE_HEADER
                                else if \<not> has_start_range \<and> \<not> has_end_range then Inl AWS_ERROR_S3_INVALID_RANGE_HEADER
                                else Inr (has_start_range, has_end_range, start_range, end_range))))))"

subsection \<open>The number of parts in an ETag\<close>

definition s_is_quote_or_space_char :: "char \<Rightarrow> bool" where
  "s_is_quote_or_space_char c \<longleftrightarrow> c = CHR 0x22 \<or> c = CHR '' ''"

definition aws_s3_extract_parts_from_etag :: "str_lib \<Rightarrow> string \<Rightarrow> u32 result" where
  "aws_s3_extract_parts_from_etag S etag_header_value =
     (let etag_cursor = trim_pred S s_is_quote_or_space_char etag_header_value in
      if etag_cursor = [] then Inl AWS_ERROR_INVALID_ARGUMENT
      else case next_splits S CHR ''-'' etag_cursor of
          [] \<Rightarrow> Inl AWS_ERROR_INVALID_ARGUMENT
        | [_] \<Rightarrow> Inr 1
        | [_, parts_count] \<Rightarrow>
            (case utf8_parse_u64 S parts_count of
               None \<Rightarrow> Inl AWS_ERROR_INVALID_ARGUMENT
             | Some num_parts_u64 \<Rightarrow>
                 if num_parts_u64 = 0 \<or> num_parts_u64 > ucast g_s3_max_num_upload_parts then Inl AWS_ERROR_INVALID_ARGUMENT
                 else Inr (ucast num_parts_u64))
        | _ \<Rightarrow> Inl AWS_ERROR_INVALID_ARGUMENT)"

subsection \<open>The user agent\<close>

definition AWS_S3_FEATURE_ID_CUSTOM_PART_SIZE :: u32 where "AWS_S3_FEATURE_ID_CUSTOM_PART_SIZE = 1"

definition AWS_S3_FEATURE_ID_CUSTOM_THROUGHPUT :: u32 where "AWS_S3_FEATURE_ID_CUSTOM_THROUGHPUT = 2"

definition AWS_S3_FEATURE_ID_CUSTOM_MEMORY_LIMIT :: u32 where "AWS_S3_FEATURE_ID_CUSTOM_MEMORY_LIMIT = 4"

definition AWS_S3_FEATURE_ID_ON_EC2 :: u32 where "AWS_S3_FEATURE_ID_ON_EC2 = 8"

definition AWS_S3_FEATURE_ID_FILE_PATH :: u32 where "AWS_S3_FEATURE_ID_FILE_PATH = 16"

definition AWS_S3_FEATURE_ID_CUSTOM_MEMORY_POOL :: u32 where "AWS_S3_FEATURE_ID_CUSTOM_MEMORY_POOL = 32"

definition AWS_S3_FEATURE_ID_CLIENT_CREATED_FOR_OP :: u32 where "AWS_S3_FEATURE_ID_CLIENT_CREATED_FOR_OP = 64"

lemmas feature_id_defs = AWS_S3_FEATURE_ID_CUSTOM_PART_SIZE_def AWS_S3_FEATURE_ID_CUSTOM_THROUGHPUT_def
  AWS_S3_FEATURE_ID_CUSTOM_MEMORY_LIMIT_def AWS_S3_FEATURE_ID_ON_EC2_def AWS_S3_FEATURE_ID_FILE_PATH_def
  AWS_S3_FEATURE_ID_CUSTOM_MEMORY_POOL_def AWS_S3_FEATURE_ID_CLIENT_CREATED_FOR_OP_def

definition s_feature_id_strings :: "(u32 \<times> string) list" where
  "s_feature_id_strings =
     [(AWS_S3_FEATURE_ID_CUSTOM_PART_SIZE, ''AX''), (AWS_S3_FEATURE_ID_CUSTOM_THROUGHPUT, ''AY''),
      (AWS_S3_FEATURE_ID_CUSTOM_MEMORY_LIMIT, ''AZ''), (AWS_S3_FEATURE_ID_ON_EC2, ''Aa''),
      (AWS_S3_FEATURE_ID_FILE_PATH, ''Ab''), (AWS_S3_FEATURE_ID_CUSTOM_MEMORY_POOL, ''Aj''),
      (AWS_S3_FEATURE_ID_CLIENT_CREATED_FOR_OP, ''Al'')]"

text \<open>The part of a meta request the user agent uses.\<close>

record ua_meta_request =
  ua_feature_ids :: u32
  ua_first_request_for_new_client :: bool
  cached_user_agent :: string
  cached_ua_has_metrics :: bool

definition s_extract_business_metrics_ids :: "str_lib \<Rightarrow> string \<Rightarrow> string option" where
  "s_extract_business_metrics_ids S token =
     (if length token < length ''m/'' then None
      else if take (length ''m/'') token \<noteq> ''m/'' then None
      else
        let token = dropWhile ((=) CHR '','') (str_advance S token (length ''m/''))
        in Some (rev (dropWhile ((=) CHR '','') (rev token))))"

text \<open>
  The loop over the tokens of an existing header: the tokens that are kept, and the metric ids
  found in \<open>m/\<close> sections.
\<close>

fun split_user_agent :: "str_lib \<Rightarrow> string list \<Rightarrow> string \<Rightarrow> string \<Rightarrow> bool \<Rightarrow> string \<times> string \<times> bool" where
  "split_user_agent S [] buf existing_m_ids kept_a_token = (buf, existing_m_ids, kept_a_token)"
| "split_user_agent S (token # tokens) buf existing_m_ids kept_a_token =
     (case s_extract_business_metrics_ids S token of
        Some token_m_ids \<Rightarrow>
          let existing_m_ids =
            (if token_m_ids \<noteq> []
             then (if existing_m_ids \<noteq> [] then existing_m_ids @ '','' else existing_m_ids) @ token_m_ids
             else existing_m_ids)
          in split_user_agent S tokens buf existing_m_ids kept_a_token
      | None \<Rightarrow> split_user_agent S tokens ((if kept_a_token then buf @ '' '' else buf) @ token) existing_m_ids True)"

text \<open>The loop that appends the ids of the set flags.\<close>

fun append_feature_ids :: "u32 \<Rightarrow> (u32 \<times> string) list \<Rightarrow> string \<Rightarrow> bool \<Rightarrow> string" where
  "append_feature_ids ids [] buf need_comma = buf"
| "append_feature_ids ids ((flag, name) # rest) buf need_comma =
     (if ids AND flag \<noteq> 0
      then append_feature_ids ids rest ((if need_comma then buf @ '','' else buf) @ name) True
      else append_feature_ids ids rest buf need_comma)"

text \<open>
  \<open>version\<close> is the version of the build, \<open>platform\<close> the EC2 instance type that is known, empty
  if there is none.
\<close>

definition aws_s3_init_user_agent_header_cached ::
    "str_lib \<Rightarrow> string \<Rightarrow> string \<Rightarrow> headers \<Rightarrow> ua_meta_request \<Rightarrow> ua_meta_request" where
  "aws_s3_init_user_agent_header_cached S version platform headers m =
     (let platform_cursor = (if platform = [] then g_user_agent_header_unknown else platform);
          (buf, existing_m_ids) =
            (case headers g_user_agent_header_name of
               Some current \<Rightarrow>
                 let (buf, ids, kept_a_token) = split_user_agent S (next_splits S CHR '' '' current) [] [] False
                 in (if kept_a_token then buf @ '' '' else buf, ids)
             | None \<Rightarrow> ([], []));
          buf = buf @ g_user_agent_header_product_name @ ''/'' @ version @ '' '' @ g_user_agent_header_platform @ ''/'' @
            platform_cursor;
          feature_ids = ua_feature_ids m AND NOT AWS_S3_FEATURE_ID_CLIENT_CREATED_FOR_OP
      in if existing_m_ids \<noteq> [] \<or> feature_ids \<noteq> 0
         then m\<lparr>cached_user_agent :=
                   append_feature_ids feature_ids s_feature_id_strings (buf @ '' m/'' @ existing_m_ids) (existing_m_ids \<noteq> []),
                 cached_ua_has_metrics := True\<rparr>
         else m\<lparr>cached_user_agent := buf\<rparr>)"

definition aws_s3_apply_user_agent_header :: "ua_meta_request \<Rightarrow> headers \<Rightarrow> ua_meta_request \<times> headers" where
  "aws_s3_apply_user_agent_header m headers =
     (let per_part_ids = (if ua_first_request_for_new_client m then AWS_S3_FEATURE_ID_CLIENT_CREATED_FOR_OP else 0);
          m = m\<lparr>ua_first_request_for_new_client := False\<rparr>
      in if per_part_ids = 0 then (m, headers(g_user_agent_header_name \<mapsto> cached_user_agent m))
         else
           let tmp = cached_user_agent m @ (if \<not> cached_ua_has_metrics m then '' m/'' else '','')
           in (m, headers(g_user_agent_header_name \<mapsto> append_feature_ids per_part_ids s_feature_id_strings tmp False)))"

definition aws_s3_add_user_agent_header :: "str_lib \<Rightarrow> string \<Rightarrow> string \<Rightarrow> u32 \<Rightarrow> headers \<Rightarrow> headers" where
  "aws_s3_add_user_agent_header S version platform feature_ids headers =
     snd (aws_s3_apply_user_agent_header
       (aws_s3_init_user_agent_header_cached S version platform headers
         \<lparr>ua_feature_ids = feature_ids, ua_first_request_for_new_client = False, cached_user_agent = [],
          cached_ua_has_metrics = False\<rparr>) headers)"

subsection \<open>Numbers survive printing and parsing\<close>

lemma digit_char [simp]:
  assumes "d < 10"
  shows "is_digit (digit_char d)" "digit_value (digit_char d) = d"
  using assms by (simp_all add: digit_char_def is_digit_def digit_value_def)

lemma digits_value_snoc: "digits_value (s @ [c]) = digits_value s * 10 + digit_value c"
  by (simp add: digits_value_def)

lemma show_nat_digits: "list_all is_digit (show_nat n) \<and> show_nat n \<noteq> [] \<and> digits_value (show_nat n) = n"
proof (induction n rule: show_nat.induct)
  case (1 n)
  show ?case
  proof (cases "n < 10")
    case True
    then show ?thesis by (simp add: show_nat.simps [of n] digits_value_def)
  next
    case False
    then show ?thesis
      using 1 [OF False] by (simp add: show_nat.simps [of n] digits_value_snoc)
  qed
qed

lemma parse_show: "parse_spec (show_u64 n) = Some n"
  using show_nat_digits [of "unat n"] unat_lt2p64 [of n] by (simp add: parse_spec_def show_u64_def)

lemma digits_no_separator:
  assumes "list_all is_digit s" "\<not> is_digit c"
  shows "c \<notin> set s"
  using assms by (auto simp: list_all_iff)

lemma show_no_separator: "\<not> is_digit c \<Longrightarrow> c \<notin> set (show_u64 n)"
  using digits_no_separator show_nat_digits by (auto simp: show_u64_def)

lemma split_spec_nonempty: "split_spec c s \<noteq> []"
  by (induction s) (auto split: list.splits)

lemma split_spec_last: "c \<notin> set s \<Longrightarrow> split_spec c s = [s]"
  by (induction s) auto

lemma split_spec_first: "c \<notin> set s \<Longrightarrow> split_spec c (s @ c # t) = s # split_spec c t"
  by (induction s) auto

lemma separators_no_digits: "\<not> is_digit CHR ''-''" "\<not> is_digit CHR ''/''"
  by (simp_all add: is_digit_def)



text \<open>
  C21. The parser also accepts values that are no \<open>Content-Range\<close>. A value with neither the dash
  nor the slash, \<open>bytes n\<close>, is taken for the range from \<open>n\<close> to \<open>n\<close> of an object of \<open>n\<close> bytes,
  which cannot exist: the cursor that should be moved past the missing separator stays in place.
\<close>

theorem content_range_accepts_single_number:
  assumes "str_ok S"
  shows "aws_s3_parse_content_range_cursor S (''bytes '' @ show_u64 n) = Inr (n, n, n)"
proof -
  have S: "next_splits S = split_spec" "utf8_parse_u64 S = parse_spec" "str_advance S = advance_spec"
    "\<And>s p. starts_with S s p \<longleftrightarrow> take (length p) s = p"
    using assms by (simp_all add: str_ok_def)
  have "split_spec c (show_u64 n) = [show_u64 n]" if "\<not> is_digit c" for c
    using show_no_separator that by (intro split_spec_last) blast
  then show ?thesis
    by (simp add: aws_s3_parse_content_range_cursor_def S parse_show advance_spec_def Let_def separators_no_digits)
qed

theorem content_range_accepts_single_number_witness:
  "aws_s3_parse_content_range_cursor example_str ''bytes 5'' = Inr (5, 5, 5)"
proof -
  have "str_ok example_str" by (simp add: str_ok_def example_str_def ignores_case_def)
  moreover have "show_u64 5 = ''5''" by code_simp
  ultimately show ?thesis
    using content_range_accepts_single_number [of example_str 5] by simp
qed

lemma split_spec_append_head:
  "split_spec c s = x # ts \<Longrightarrow> \<exists>r. s = x @ r \<and> c \<notin> set x \<and> (if ts = [] then r = [] else r \<noteq> [] \<and> hd r = c \<and> split_spec c (tl r) = ts)"
proof (induction s arbitrary: x)
  case (Cons a s)
  show ?case
  proof (cases "a = c")
    case True
    then show ?thesis using Cons.prems split_spec_nonempty by auto
  next
    case False
    then obtain t where t: "split_spec c s = t # ts" "x = a # t"
      using Cons.prems split_spec_nonempty [of c s] by (auto split: list.splits)
    then show ?thesis using Cons.IH [OF t(1)] False by auto
  qed
qed auto

lemma split_spec_two:
  "split_spec c s = [x, y] \<longleftrightarrow> s = x @ c # y \<and> c \<notin> set x \<and> c \<notin> set y"
proof
  assume "split_spec c s = [x, y]"
  then obtain r where r: "s = x @ r" "c \<notin> set x" "r \<noteq> []" "hd r = c" "split_spec c (tl r) = [y]"
    using split_spec_append_head [of c s x "[y]"] by auto
  moreover have "tl r = y \<and> c \<notin> set y"
    using split_spec_append_head [OF r(5)] by auto
  ultimately show "s = x @ c # y \<and> c \<notin> set x \<and> c \<notin> set y"
    by (metis list.exhaust_sel)
qed (simp add: split_spec_first split_spec_last)

text \<open>One side of a range: empty, or a number.\<close>

definition side :: "string \<Rightarrow> bool \<Rightarrow> u64 \<Rightarrow> bool" where
  "side x has n \<longleftrightarrow> (if x = [] then \<not> has \<and> n = 0 else has \<and> parse_spec x = Some n)"

lemma range_bound_side:
  "utf8_parse_u64 S = parse_spec \<Longrightarrow> range_bound S x = Inr (has, n) \<longleftrightarrow> side x has n"
  by (auto simp: range_bound_def side_def split: option.splits)

lemma side_no_dash: "side x has n \<Longrightarrow> CHR ''-'' \<notin> set x"
  using digits_no_separator separators_no_digits(1) by (auto simp: side_def parse_spec_def split: if_splits)

lemma Suc_six: "Suc (Suc (Suc (Suc (Suc (Suc 0))))) = 6"
  by simp

lemma parse_range_tokens:
  assumes "str_ok S" "headers g_range_header_name = Some v" "take 6 v = ''bytes=''"
  shows "aws_s3_parse_request_range_header S headers = Inr (has_start, has_end, start_range, end_range) \<longleftrightarrow>
         (\<exists>x y. split_spec CHR ''-'' (drop 6 v) = [x, y] \<and> side x has_start start_range \<and> side y has_end end_range \<and>
            (has_start \<or> has_end) \<and> (has_end \<longrightarrow> start_range \<le> end_range))"
proof -
  have S: "next_splits S = split_spec" "utf8_parse_u64 S = parse_spec" "str_advance S = advance_spec"
    "\<And>s p. starts_with S s p \<longleftrightarrow> take (length p) s = p"
    using assms(1) by (simp_all add: str_ok_def)
  have "length v \<ge> 6" using arg_cong [OF assms(3), of length] by simp
  then have adv: "str_advance S v 6 = drop 6 v" by (simp add: S advance_spec_def)
  obtain x ts where x: "split_spec CHR ''-'' (drop 6 v) = x # ts"
    using split_spec_nonempty by (meson neq_Nil_conv)
  note parse = aws_s3_parse_request_range_header_def assms(2,3) S(1,4) adv x Suc_six
  show ?thesis
  proof (cases ts)
    case Nil
    then show ?thesis by (simp add: parse split: sum.split prod.split)
  next
    case (Cons y extra)
    then show ?thesis
      unfolding range_bound_side [OF S(2), symmetric]
      by (cases "range_bound S x"; cases "range_bound S y") (auto simp: parse split: if_splits)
  qed
qed

text \<open>
  C22. The parser of a \<open>Range\<close> request header accepts exactly the single ranges of the HTTP
  specification. It succeeds if and only if the value is \<open>bytes=x-y\<close> where each side is empty or
  a number of 64 bits, not both are empty, and the first is at most the second if the second is
  given; and then it returns which sides are there and their values.
\<close>

theorem request_range_accepts_exactly:
  assumes "str_ok S"
  shows "aws_s3_parse_request_range_header S headers = Inr (has_start, has_end, start_range, end_range) \<longleftrightarrow>
         (\<exists>x y. headers g_range_header_name = Some (''bytes='' @ x @ ''-'' @ y) \<and>
            side x has_start start_range \<and> side y has_end end_range \<and>
            (has_start \<or> has_end) \<and> (has_end \<longrightarrow> start_range \<le> end_range))"
    (is "?parse = Inr ?r \<longleftrightarrow> ?spec")
proof -
  have "?parse = Inr ?r \<longleftrightarrow>
      (\<exists>v x y. headers g_range_header_name = Some v \<and> take 6 v = ''bytes='' \<and> split_spec CHR ''-'' (drop 6 v) = [x, y] \<and>
         side x has_start start_range \<and> side y has_end end_range \<and> (has_start \<or> has_end) \<and> (has_end \<longrightarrow> start_range \<le> end_range))"
  proof (cases "\<exists>v. headers g_range_header_name = Some v \<and> take 6 v = ''bytes=''")
    case True
    then show ?thesis using parse_range_tokens [OF assms] by auto
  next
    case False
    then show ?thesis
      using assms by (auto simp: aws_s3_parse_request_range_header_def str_ok_def Suc_six split: option.split)
  qed
  also have "\<dots> \<longleftrightarrow> ?spec"
  proof
    assume ?spec
    then obtain x y where v: "headers g_range_header_name = Some (''bytes='' @ x @ ''-'' @ y)"
      "side x has_start start_range" "side y has_end end_range" "has_start \<or> has_end" "has_end \<longrightarrow> start_range \<le> end_range"
      by blast
    moreover have "split_spec CHR ''-'' (drop 6 (''bytes='' @ x @ ''-'' @ y)) = [x, y]"
      using side_no_dash [OF v(2)] side_no_dash [OF v(3)] by (simp add: split_spec_two)
    ultimately show "\<exists>v x y. headers g_range_header_name = Some v \<and> take 6 v = ''bytes='' \<and> split_spec CHR ''-'' (drop 6 v) = [x, y] \<and>
         side x has_start start_range \<and> side y has_end end_range \<and> (has_start \<or> has_end) \<and> (has_end \<longrightarrow> start_range \<le> end_range)"
      by fastforce
  next
    assume "\<exists>v x y. headers g_range_header_name = Some v \<and> take 6 v = ''bytes='' \<and> split_spec CHR ''-'' (drop 6 v) = [x, y] \<and>
         side x has_start start_range \<and> side y has_end end_range \<and> (has_start \<or> has_end) \<and> (has_end \<longrightarrow> start_range \<le> end_range)"
    then obtain v x y where v: "headers g_range_header_name = Some v" "take 6 v = ''bytes=''" "drop 6 v = x @ CHR ''-'' # y"
         "side x has_start start_range" "side y has_end end_range" "has_start \<or> has_end" "has_end \<longrightarrow> start_range \<le> end_range"
      by (auto simp: split_spec_two)
    have "v = ''bytes='' @ x @ ''-'' @ y" using append_take_drop_id [of 6 v] v(2,3) by simp
    then show ?spec using v by blast
  qed
  finally show ?thesis .
qed

theorem request_range_accepts_exactly_witness:
  "aws_s3_parse_request_range_header example_str [g_range_header_name \<mapsto> ''bytes=5-''] = Inr (True, False, 5, 0)"
proof -
  have "str_ok example_str" by (simp add: str_ok_def example_str_def ignores_case_def)
  moreover have "show_u64 5 = ''5''" by code_simp
  then have "side ''5'' True 5" "side [] False 0"
    using parse_show [of 5] by (simp_all add: side_def)
  then have "\<exists>x y. [g_range_header_name \<mapsto> ''bytes=5-''] g_range_header_name = Some (''bytes='' @ x @ ''-'' @ y) \<and>
      side x True 5 \<and> side y False 0 \<and> (True \<or> False) \<and> (False \<longrightarrow> (5 :: u64) \<le> 0)"
    by (intro exI [of _ "''5''"] exI [of _ "[]"]) simp
  ultimately show ?thesis
    using request_range_accepts_exactly [of example_str "[g_range_header_name \<mapsto> ''bytes=5-'']" True False 5 0] by blast
qed

subsection \<open>ETags\<close>

text \<open>
  C23. The number of parts is read from an ETag. For an ETag in quotes whose hash has no dash,
  quote or space: without a number it stands for one part; with a number after a dash the result
  is that number if it is between 1 and 10,000, and an error otherwise.
\<close>

theorem etag_part_count:
  assumes "str_ok S" "hash \<noteq> []" "set hash \<inter> {CHR ''-'', CHR 0x22, CHR '' ''} = {}"
  shows "aws_s3_extract_parts_from_etag S (CHR 0x22 # hash @ [CHR 0x22]) = Inr 1 \<and>
         aws_s3_extract_parts_from_etag S (CHR 0x22 # hash @ ''-'' @ show_u64 n @ [CHR 0x22]) =
           (if n = 0 \<or> n > 10000 then Inl AWS_ERROR_INVALID_ARGUMENT else Inr (ucast n))"
proof -
  have S: "next_splits S = split_spec" "utf8_parse_u64 S = parse_spec" "trim_pred S = trim_spec"
    using assms(1) by (simp_all add: str_ok_def)
  have trim: "trim_spec s_is_quote_or_space_char (CHR 0x22 # t @ [CHR 0x22]) = t"
    if "t \<noteq> []" "\<not> s_is_quote_or_space_char (hd t)" "\<not> s_is_quote_or_space_char (last t)" for t
  proof -
    have q: "s_is_quote_or_space_char CHR 0x22" by (simp add: s_is_quote_or_space_char_def)
    have "dropWhile s_is_quote_or_space_char (CHR 0x22 # t @ [CHR 0x22]) = t @ [CHR 0x22]"
      using that(1,2) q by (cases t) auto
    moreover have "dropWhile s_is_quote_or_space_char (rev t) = rev t"
      using that(1,3) by (cases t rule: rev_cases) auto
    ultimately show ?thesis using q by (simp add: trim_spec_def)
  qed
  have "\<not> s_is_quote_or_space_char c" if "c \<in> set hash" for c
    using assms(3) that by (auto simp: s_is_quote_or_space_char_def)
  then have hd: "\<not> s_is_quote_or_space_char (hd hash)" "\<not> s_is_quote_or_space_char (last hash)"
    using assms(2) by simp_all
  have digits: "list_all is_digit (show_u64 n)" "show_u64 n \<noteq> []" using show_nat_digits by (auto simp: show_u64_def)
  then have "is_digit (last (show_u64 n))" using last_in_set by (auto simp: list_all_iff)
  then have "\<not> s_is_quote_or_space_char (last (show_u64 n))"
    by (auto simp: s_is_quote_or_space_char_def is_digit_def)
  then have "trim_spec s_is_quote_or_space_char (CHR 0x22 # (hash @ ''-'' @ show_u64 n) @ [CHR 0x22]) = hash @ ''-'' @ show_u64 n"
    using assms(2) hd digits(2) by (intro trim) (auto simp: hd_append)
  moreover have "split_spec CHR ''-'' (hash @ ''-'' @ show_u64 n) = [hash, show_u64 n]" "split_spec CHR ''-'' hash = [hash]"
    using assms(3) show_no_separator [OF separators_no_digits(1)] by (auto simp: split_spec_two intro: split_spec_last)
  moreover have "unat n \<le> 10000 \<longleftrightarrow> n \<le> 10000" for n :: u64 by (simp add: word_le_nat_alt)
  ultimately show ?thesis
    using assms(2) trim [OF assms(2) hd] parse_show [of n]
    by (simp add: aws_s3_extract_parts_from_etag_def S g_s3_max_num_upload_parts_def Let_def)
qed

theorem etag_part_count_witness:
  "aws_s3_extract_parts_from_etag example_str (CHR 0x22 # ''ab12-7'' @ [CHR 0x22]) = Inr 7"
proof -
  have ok: "str_ok example_str" by (simp add: str_ok_def example_str_def ignores_case_def)
  have "show_u64 7 = ''7''" by code_simp
  then show ?thesis
    using etag_part_count [OF ok, of "''ab12''" 7] by simp
qed

subsection \<open>XML\<close>

text \<open>
  The reference: all bodies at a path below a node, in document order; a node whose body cannot be
  read counts as \<open>None\<close>.
\<close>

fun bodies_at_path :: "(string \<Rightarrow> string \<Rightarrow> bool) \<Rightarrow> string list \<Rightarrow> xml_node \<Rightarrow> string option list" where
  "bodies_at_path eq [] node = []"
| "bodies_at_path eq [p] (Xml name body children) = (if eq name p then [body] else [])"
| "bodies_at_path eq (p # q # path) (Xml name body children) =
     (if eq name p then concat (map (bodies_at_path eq (q # path)) children) else [])"

definition first_body :: "string option list \<Rightarrow> string option option" where
  "first_body bs = (case bs of [] \<Rightarrow> Some None | None # _ \<Rightarrow> None | Some b # _ \<Rightarrow> Some (Some b))"

lemma first_body_simps [simp]:
  "first_body [] = Some None" "first_body (None # bs) = None" "first_body (Some b # bs) = Some (Some b)"
  by (simp_all add: first_body_def)

lemma first_body_append:
  "first_body (xs @ ys) = (case first_body xs of None \<Rightarrow> None | Some None \<Rightarrow> first_body ys | Some (Some b) \<Rightarrow> Some (Some b))"
  by (simp add: first_body_def split: list.split option.split)

lemma traverse_found: "xml_node_traverse eq path i nodes (Some b) = Some (Some b)"
proof (induction nodes)
  case (Cons node nodes)
  then show ?case by (cases node) simp
qed simp

lemma path_bodies:
  "i < length path \<Longrightarrow> s_xml_get_body_at_path_on_node eq path i node None = first_body (bodies_at_path eq (drop i path) node)"
  "i < length path \<Longrightarrow> xml_node_traverse eq path i nodes None = first_body (concat (map (bodies_at_path eq (drop i path)) nodes))"
proof (induction eq path i node "None :: string option" and eq path i nodes "None :: string option"
    rule: s_xml_get_body_at_path_on_node_xml_node_traverse.induct)
  case (1 eq path i name body children)
  obtain p ps where drop: "drop i path = p # ps" "path ! i = p"
    using 1(2) by (metis Cons_nth_drop_Suc)
  show ?case
  proof (cases ps)
    case Nil
    then have "i + 1 = length path" using arg_cong [OF drop(1), of length] 1(2) by simp
    then show ?thesis using drop Nil by (auto split: option.split)
  next
    case (Cons q qs)
    then have "i + 1 < length path" "drop (i + 1) path = q # qs"
      using arg_cong [OF drop(1), of length] arg_cong [OF drop(1), of tl] by (simp_all add: drop_Suc tl_drop)
    then show ?thesis using 1(1) drop Cons by auto
  qed
next
  case (3 eq path i node nodes)
  then show ?case
    by (auto simp: first_body_append traverse_found split: option.split)
qed simp

text \<open>
  C24. The body at a path is the first one in document order. For a parsed document the search
  returns the body of the first node that the path leads to, skipping siblings that are not on
  the path; it reports \<open>AWS_ERROR_STRING_MATCH_NOT_FOUND\<close> exactly when there is none.
\<close>

theorem xml_body_is_first_match:
  assumes "xml_parse doc = Some root" "path \<noteq> []"
  shows "aws_xml_get_body_at_path eq xml_parse doc path =
           (case bodies_at_path eq path root of
              [] \<Rightarrow> Inl AWS_ERROR_STRING_MATCH_NOT_FOUND
            | None # _ \<Rightarrow> Inl AWS_ERROR_UNKNOWN
            | Some body # _ \<Rightarrow> Inr body)"
  using path_bodies(1) [of 0 path eq root] assms
  by (simp add: aws_xml_get_body_at_path_def first_body_def split: list.split option.split)

theorem xml_body_is_first_match_witness:
  "aws_xml_get_body_at_path (=)
     (\<lambda>_. Some (Xml ''Error'' None [Xml ''Code'' (Some ''SlowDown'') [], Xml ''Code'' (Some ''Other'') []])) [] [''Error'', ''Code''] =
   Inr ''SlowDown''"
  by (subst xml_body_is_first_match [OF refl]) simp_all

end
