(* ===== verification/S3_Checksums.thy ===== *)
theory S3_Checksums
  imports S3_Util
begin

section \<open>Checksums (\<^verbatim>\<open>source/s3_checksums.c\<close>)\<close>

text \<open>
  A running checksum of any of the nine algorithms: creation, update, finalization, and for the
  CRCs the combination of the checksum of a head with the digest of a tail. The hash functions,
  the CRC functions, base64 and the big-endian integers of aws-c-common are parameters (record
  \<open>hash_lib\<close>); the state of a hash object of aws-c-cal or aws-checksums is an opaque number.

  The last part is the checksum configuration of a meta request and how the checksum headers of
  its message override it. The main result of this theory is that folding the digests of
  consecutive pieces gives the digest of their concatenation.
\<close>

subsection \<open>The libraries\<close>

record hash_lib =
  AWS_SHA1_LEN :: usize
  AWS_SHA256_LEN :: usize
  AWS_SHA512_LEN :: usize
  aws_checksums_crc32_ex :: "u8 list \<Rightarrow> u32 \<Rightarrow> u32"
  aws_checksums_crc32c_ex :: "u8 list \<Rightarrow> u32 \<Rightarrow> u32"
  aws_checksums_crc64nvme_ex :: "u8 list \<Rightarrow> u64 \<Rightarrow> u64"
  aws_checksums_crc32_combine :: "u32 \<Rightarrow> u32 \<Rightarrow> u64 \<Rightarrow> u32"
  aws_checksums_crc32c_combine :: "u32 \<Rightarrow> u32 \<Rightarrow> u64 \<Rightarrow> u32"
  aws_checksums_crc64nvme_combine :: "u64 \<Rightarrow> u64 \<Rightarrow> u64 \<Rightarrow> u64"
  hash_fn :: "checksum_algorithm \<Rightarrow> (nat \<times> usize) result"
  aws_hash_update :: "nat \<Rightarrow> u8 list \<Rightarrow> nat result"
  aws_hash_finalize :: "nat \<Rightarrow> usize \<Rightarrow> u8 list result"
  xxhash_fn :: "checksum_algorithm \<Rightarrow> nat result"
  aws_xxhash_update :: "nat \<Rightarrow> u8 list \<Rightarrow> nat result"
  aws_xxhash_finalize :: "nat \<Rightarrow> usize \<Rightarrow> u8 list result"
  hash_compute :: "checksum_algorithm \<Rightarrow> u8 list \<Rightarrow> usize \<Rightarrow> u8 list result"
  aws_byte_buf_write_be32 :: "u32 \<Rightarrow> usize \<Rightarrow> u8 list option"
  aws_byte_buf_write_be64 :: "u64 \<Rightarrow> usize \<Rightarrow> u8 list option"
  aws_byte_cursor_read_be32 :: "u8 list \<Rightarrow> u32 option"
  aws_byte_cursor_read_be64 :: "u8 list \<Rightarrow> u64 option"
  aws_base64_compute_encoded_len :: "usize \<Rightarrow> usize result"
  aws_base64_encode :: "u8 list \<Rightarrow> usize \<Rightarrow> string result"

text \<open>
  What their documentation says of the CRCs, the integers and base64: a CRC is computed
  incrementally from the CRC of the bytes before, which no bytes leave as it is; the combination of two CRCs with the length of
  the second piece is the CRC of the concatenation; reading gives back what was written, in four or
  eight bytes, if there is room; encoding needs the room its length function gives.
\<close>

definition crc_ok :: "hash_lib \<Rightarrow> bool" where
  "crc_ok H \<longleftrightarrow>
     (\<forall>c. aws_checksums_crc32_ex H [] c = c) \<and> (\<forall>c. aws_checksums_crc32c_ex H [] c = c) \<and>
     (\<forall>c. aws_checksums_crc64nvme_ex H [] c = c) \<and>
     (\<forall>xs ys c. aws_checksums_crc32_ex H ys (aws_checksums_crc32_ex H xs c) = aws_checksums_crc32_ex H (xs @ ys) c) \<and>
     (\<forall>xs ys c. aws_checksums_crc32c_ex H ys (aws_checksums_crc32c_ex H xs c) = aws_checksums_crc32c_ex H (xs @ ys) c) \<and>
     (\<forall>xs ys c. aws_checksums_crc64nvme_ex H ys (aws_checksums_crc64nvme_ex H xs c) = aws_checksums_crc64nvme_ex H (xs @ ys) c) \<and>
     (\<forall>xs ys. length ys < 2 ^ 64 \<longrightarrow>
        aws_checksums_crc32_combine H (aws_checksums_crc32_ex H xs 0) (aws_checksums_crc32_ex H ys 0) (of_nat (length ys)) =
        aws_checksums_crc32_ex H (xs @ ys) 0) \<and>
     (\<forall>xs ys. length ys < 2 ^ 64 \<longrightarrow>
        aws_checksums_crc32c_combine H (aws_checksums_crc32c_ex H xs 0) (aws_checksums_crc32c_ex H ys 0) (of_nat (length ys)) =
        aws_checksums_crc32c_ex H (xs @ ys) 0) \<and>
     (\<forall>xs ys. length ys < 2 ^ 64 \<longrightarrow>
        aws_checksums_crc64nvme_combine H (aws_checksums_crc64nvme_ex H xs 0) (aws_checksums_crc64nvme_ex H ys 0) (of_nat (length ys)) =
        aws_checksums_crc64nvme_ex H (xs @ ys) 0)"

definition be_ok :: "hash_lib \<Rightarrow> bool" where
  "be_ok H \<longleftrightarrow>
     (\<forall>x. \<exists>bytes. length bytes = 4 \<and> aws_byte_cursor_read_be32 H bytes = Some x \<and>
        (\<forall>room\<ge>4. aws_byte_buf_write_be32 H x room = Some bytes)) \<and>
     (\<forall>x. \<exists>bytes. length bytes = 8 \<and> aws_byte_cursor_read_be64 H bytes = Some x \<and>
        (\<forall>room\<ge>8. aws_byte_buf_write_be64 H x room = Some bytes))"

subsection \<open>Names and sizes\<close>

definition AWS_CRC32_LEN :: usize where "AWS_CRC32_LEN = 4"

definition AWS_CRC32C_LEN :: usize where "AWS_CRC32C_LEN = 4"

definition AWS_CRC64_LEN :: usize where "AWS_CRC64_LEN = 8"

definition AWS_XXHASH64_LEN :: usize where "AWS_XXHASH64_LEN = 8"

definition AWS_XXHASH3_64_LEN :: usize where "AWS_XXHASH3_64_LEN = 8"

definition AWS_XXHASH3_128_LEN :: usize where "AWS_XXHASH3_128_LEN = 16"

definition AWS_S3_COMBINABLE_DIGEST_MAX_LEN :: usize where "AWS_S3_COMBINABLE_DIGEST_MAX_LEN = 8"

lemmas digest_len_defs = AWS_CRC32_LEN_def AWS_CRC32C_LEN_def AWS_CRC64_LEN_def AWS_XXHASH64_LEN_def
  AWS_XXHASH3_64_LEN_def AWS_XXHASH3_128_LEN_def AWS_S3_COMBINABLE_DIGEST_MAX_LEN_def

fun aws_get_digest_size_from_checksum_algorithm :: "hash_lib \<Rightarrow> checksum_algorithm \<Rightarrow> usize" where
  "aws_get_digest_size_from_checksum_algorithm H AWS_SCA_CRC64NVME = AWS_CRC64_LEN"
| "aws_get_digest_size_from_checksum_algorithm H AWS_SCA_CRC32C = AWS_CRC32C_LEN"
| "aws_get_digest_size_from_checksum_algorithm H AWS_SCA_CRC32 = AWS_CRC32_LEN"
| "aws_get_digest_size_from_checksum_algorithm H AWS_SCA_SHA1 = AWS_SHA1_LEN H"
| "aws_get_digest_size_from_checksum_algorithm H AWS_SCA_SHA256 = AWS_SHA256_LEN H"
| "aws_get_digest_size_from_checksum_algorithm H AWS_SCA_SHA512 = AWS_SHA512_LEN H"
| "aws_get_digest_size_from_checksum_algorithm H AWS_SCA_XXHASH64 = AWS_XXHASH64_LEN"
| "aws_get_digest_size_from_checksum_algorithm H AWS_SCA_XXHASH3_64 = AWS_XXHASH3_64_LEN"
| "aws_get_digest_size_from_checksum_algorithm H AWS_SCA_XXHASH3_128 = AWS_XXHASH3_128_LEN"
| "aws_get_digest_size_from_checksum_algorithm H _ = 0"

fun aws_get_http_header_name_from_checksum_algorithm :: "checksum_algorithm \<Rightarrow> string" where
  "aws_get_http_header_name_from_checksum_algorithm AWS_SCA_CRC64NVME = ''x-amz-checksum-crc64nvme''"
| "aws_get_http_header_name_from_checksum_algorithm AWS_SCA_CRC32C = ''x-amz-checksum-crc32c''"
| "aws_get_http_header_name_from_checksum_algorithm AWS_SCA_CRC32 = ''x-amz-checksum-crc32''"
| "aws_get_http_header_name_from_checksum_algorithm AWS_SCA_SHA1 = ''x-amz-checksum-sha1''"
| "aws_get_http_header_name_from_checksum_algorithm AWS_SCA_SHA256 = ''x-amz-checksum-sha256''"
| "aws_get_http_header_name_from_checksum_algorithm AWS_SCA_SHA512 = ''x-amz-checksum-sha512''"
| "aws_get_http_header_name_from_checksum_algorithm AWS_SCA_XXHASH64 = ''x-amz-checksum-xxhash64''"
| "aws_get_http_header_name_from_checksum_algorithm AWS_SCA_XXHASH3_64 = ''x-amz-checksum-xxhash3''"
| "aws_get_http_header_name_from_checksum_algorithm AWS_SCA_XXHASH3_128 = ''x-amz-checksum-xxhash128''"
| "aws_get_http_header_name_from_checksum_algorithm _ = ''''"

fun aws_get_checksum_algorithm_name :: "checksum_algorithm \<Rightarrow> string" where
  "aws_get_checksum_algorithm_name AWS_SCA_CRC64NVME = ''CRC64NVME''"
| "aws_get_checksum_algorithm_name AWS_SCA_CRC32C = ''CRC32C''"
| "aws_get_checksum_algorithm_name AWS_SCA_CRC32 = ''CRC32''"
| "aws_get_checksum_algorithm_name AWS_SCA_SHA1 = ''SHA1''"
| "aws_get_checksum_algorithm_name AWS_SCA_SHA256 = ''SHA256''"
| "aws_get_checksum_algorithm_name AWS_SCA_SHA512 = ''SHA512''"
| "aws_get_checksum_algorithm_name AWS_SCA_XXHASH64 = ''XXHASH64''"
| "aws_get_checksum_algorithm_name AWS_SCA_XXHASH3_64 = ''XXHASH3''"
| "aws_get_checksum_algorithm_name AWS_SCA_XXHASH3_128 = ''XXHASH128''"
| "aws_get_checksum_algorithm_name _ = ''''"

fun aws_get_completed_part_name_from_checksum_algorithm :: "checksum_algorithm \<Rightarrow> string" where
  "aws_get_completed_part_name_from_checksum_algorithm AWS_SCA_CRC64NVME = ''ChecksumCRC64NVME''"
| "aws_get_completed_part_name_from_checksum_algorithm AWS_SCA_CRC32C = ''ChecksumCRC32C''"
| "aws_get_completed_part_name_from_checksum_algorithm AWS_SCA_CRC32 = ''ChecksumCRC32''"
| "aws_get_completed_part_name_from_checksum_algorithm AWS_SCA_SHA1 = ''ChecksumSHA1''"
| "aws_get_completed_part_name_from_checksum_algorithm AWS_SCA_SHA256 = ''ChecksumSHA256''"
| "aws_get_completed_part_name_from_checksum_algorithm AWS_SCA_SHA512 = ''ChecksumSHA512''"
| "aws_get_completed_part_name_from_checksum_algorithm AWS_SCA_XXHASH64 = ''ChecksumXXHASH64''"
| "aws_get_completed_part_name_from_checksum_algorithm AWS_SCA_XXHASH3_64 = ''ChecksumXXHASH3''"
| "aws_get_completed_part_name_from_checksum_algorithm AWS_SCA_XXHASH3_128 = ''ChecksumXXHASH128''"
| "aws_get_completed_part_name_from_checksum_algorithm _ = ''''"

subsection \<open>Running checksums\<close>

text \<open>
  The vtables of \<open>s3_checksums.c\<close>; only those of the CRCs have a \<open>combine\<close>. The members of the
  union \<open>impl\<close> are separate fields: the operations of a vtable use one of them only.
\<close>

datatype aws_checksum_vtable = hash_vtable | s_xxhash_vtable | crc32_vtable | crc32c_vtable | crc64nvme_vtable

record aws_s3_checksum =
  cs_vtable :: aws_checksum_vtable
  cs_digest_size :: usize
  cs_algorithm :: checksum_algorithm
  cs_good :: bool
  cs_hash :: nat
  cs_xxhash :: nat
  cs_crc_val_32bit :: u32
  cs_crc_val_64bit :: u64

text \<open>The zeroed structure \<open>aws_mem_calloc\<close> gives, with what every constructor sets.\<close>

definition new_checksum :: "aws_checksum_vtable \<Rightarrow> usize \<Rightarrow> aws_s3_checksum" where
  "new_checksum vtable digest_size =
     \<lparr>cs_vtable = vtable, cs_digest_size = digest_size, cs_algorithm = AWS_SCA_NONE, cs_good = True,
      cs_hash = 0, cs_xxhash = 0, cs_crc_val_32bit = 0, cs_crc_val_64bit = 0\<rparr>"

definition aws_hash_new :: "hash_lib \<Rightarrow> checksum_algorithm \<Rightarrow> aws_s3_checksum result" where
  "aws_hash_new H algorithm =
     (case hash_fn H algorithm of
        Inl e \<Rightarrow> Inl (aws_last_error_or_unknown e)
      | Inr (hash, digest_size) \<Rightarrow> Inr ((new_checksum hash_vtable digest_size)\<lparr>cs_hash := hash\<rparr>))"

definition s_aws_xxhash_new :: "hash_lib \<Rightarrow> checksum_algorithm \<Rightarrow> usize \<Rightarrow> aws_s3_checksum result" where
  "s_aws_xxhash_new H algorithm digest_size =
     (case xxhash_fn H algorithm of
        Inl e \<Rightarrow> Inl (aws_last_error_or_unknown e)
      | Inr hash \<Rightarrow> Inr ((new_checksum s_xxhash_vtable digest_size)\<lparr>cs_xxhash := hash\<rparr>))"

definition s_crc32_checksum_new :: aws_s3_checksum where
  "s_crc32_checksum_new = new_checksum crc32_vtable AWS_CRC32_LEN"

definition s_crc32c_checksum_new :: aws_s3_checksum where
  "s_crc32c_checksum_new = new_checksum crc32c_vtable AWS_CRC32C_LEN"

definition s_crc64nvme_checksum_new :: aws_s3_checksum where
  "s_crc64nvme_checksum_new = new_checksum crc64nvme_vtable AWS_CRC64_LEN"

text \<open>\<open>Inl\<close> for \<open>NULL\<close>; an unknown algorithm raises no error of its own.\<close>

definition aws_checksum_new :: "hash_lib \<Rightarrow> checksum_algorithm \<Rightarrow> aws_s3_checksum result" where
  "aws_checksum_new H algorithm =
     (case
        (case algorithm of
           AWS_SCA_CRC64NVME \<Rightarrow> Inr s_crc64nvme_checksum_new
         | AWS_SCA_CRC32C \<Rightarrow> Inr s_crc32c_checksum_new
         | AWS_SCA_CRC32 \<Rightarrow> Inr s_crc32_checksum_new
         | AWS_SCA_SHA1 \<Rightarrow> aws_hash_new H AWS_SCA_SHA1
         | AWS_SCA_SHA256 \<Rightarrow> aws_hash_new H AWS_SCA_SHA256
         | AWS_SCA_SHA512 \<Rightarrow> aws_hash_new H AWS_SCA_SHA512
         | AWS_SCA_XXHASH64 \<Rightarrow> s_aws_xxhash_new H AWS_SCA_XXHASH64 AWS_XXHASH64_LEN
         | AWS_SCA_XXHASH3_64 \<Rightarrow> s_aws_xxhash_new H AWS_SCA_XXHASH3_64 AWS_XXHASH3_64_LEN
         | AWS_SCA_XXHASH3_128 \<Rightarrow> s_aws_xxhash_new H AWS_SCA_XXHASH3_128 AWS_XXHASH3_128_LEN
         | _ \<Rightarrow> Inl AWS_ERROR_UNKNOWN)
      of Inl e \<Rightarrow> Inl e
       | Inr checksum \<Rightarrow> Inr (checksum\<lparr>cs_algorithm := algorithm\<rparr>))"

definition s_hash_update :: "hash_lib \<Rightarrow> aws_s3_checksum \<Rightarrow> u8 list \<Rightarrow> aws_s3_checksum result" where
  "s_hash_update H checksum data =
     (case aws_hash_update H (cs_hash checksum) data of Inl e \<Rightarrow> Inl e | Inr h \<Rightarrow> Inr (checksum\<lparr>cs_hash := h\<rparr>))"

definition s_xxhash_update :: "hash_lib \<Rightarrow> aws_s3_checksum \<Rightarrow> u8 list \<Rightarrow> aws_s3_checksum result" where
  "s_xxhash_update H checksum data =
     (case aws_xxhash_update H (cs_xxhash checksum) data of Inl e \<Rightarrow> Inl e | Inr h \<Rightarrow> Inr (checksum\<lparr>cs_xxhash := h\<rparr>))"

definition s_crc32_checksum_update :: "hash_lib \<Rightarrow> aws_s3_checksum \<Rightarrow> u8 list \<Rightarrow> aws_s3_checksum result" where
  "s_crc32_checksum_update H checksum buf =
     (if \<not> cs_good checksum then Inl AWS_ERROR_INVALID_STATE
      else Inr (checksum\<lparr>cs_crc_val_32bit := aws_checksums_crc32_ex H buf (cs_crc_val_32bit checksum)\<rparr>))"

definition s_crc32c_checksum_update :: "hash_lib \<Rightarrow> aws_s3_checksum \<Rightarrow> u8 list \<Rightarrow> aws_s3_checksum result" where
  "s_crc32c_checksum_update H checksum buf =
     (if \<not> cs_good checksum then Inl AWS_ERROR_INVALID_STATE
      else Inr (checksum\<lparr>cs_crc_val_32bit := aws_checksums_crc32c_ex H buf (cs_crc_val_32bit checksum)\<rparr>))"

definition s_crc64nvme_checksum_update :: "hash_lib \<Rightarrow> aws_s3_checksum \<Rightarrow> u8 list \<Rightarrow> aws_s3_checksum result" where
  "s_crc64nvme_checksum_update H checksum buf =
     (if \<not> cs_good checksum then Inl AWS_ERROR_INVALID_STATE
      else Inr (checksum\<lparr>cs_crc_val_64bit := aws_checksums_crc64nvme_ex H buf (cs_crc_val_64bit checksum)\<rparr>))"

definition aws_checksum_update :: "hash_lib \<Rightarrow> aws_s3_checksum \<Rightarrow> u8 list \<Rightarrow> aws_s3_checksum result" where
  "aws_checksum_update H checksum to_checksum =
     (case cs_vtable checksum of
        hash_vtable \<Rightarrow> s_hash_update H checksum to_checksum
      | s_xxhash_vtable \<Rightarrow> s_xxhash_update H checksum to_checksum
      | crc32_vtable \<Rightarrow> s_crc32_checksum_update H checksum to_checksum
      | crc32c_vtable \<Rightarrow> s_crc32c_checksum_update H checksum to_checksum
      | crc64nvme_vtable \<Rightarrow> s_crc64nvme_checksum_update H checksum to_checksum)"

text \<open>
  Finalization appends the digest to a buffer that has room for \<open>room\<close> bytes: the bytes appended
  or the error, beside the checksum, which is used up either way.
\<close>

definition s_hash_finalize :: "hash_lib \<Rightarrow> aws_s3_checksum \<Rightarrow> usize \<Rightarrow> u8 list result \<times> aws_s3_checksum" where
  "s_hash_finalize H checksum room = (aws_hash_finalize H (cs_hash checksum) room, checksum\<lparr>cs_good := False\<rparr>)"

definition s_xxhash_finalize :: "hash_lib \<Rightarrow> aws_s3_checksum \<Rightarrow> usize \<Rightarrow> u8 list result \<times> aws_s3_checksum" where
  "s_xxhash_finalize H checksum room = (aws_xxhash_finalize H (cs_xxhash checksum) room, checksum\<lparr>cs_good := False\<rparr>)"

definition s_crc_finalize_helper :: "hash_lib \<Rightarrow> aws_s3_checksum \<Rightarrow> usize \<Rightarrow> u8 list result \<times> aws_s3_checksum" where
  "s_crc_finalize_helper H checksum room =
     (if \<not> cs_good checksum then (Inl AWS_ERROR_INVALID_STATE, checksum)
      else
        let used = checksum\<lparr>cs_good := False\<rparr> in
        if room < cs_digest_size checksum then (Inl AWS_ERROR_SHORT_BUFFER, used)
        else
          (case (if cs_digest_size checksum = AWS_CRC32_LEN
                 then aws_byte_buf_write_be32 H (cs_crc_val_32bit checksum) room
                 else aws_byte_buf_write_be64 H (cs_crc_val_64bit checksum) room) of
             Some bytes \<Rightarrow> (Inr bytes, used)
           | None \<Rightarrow> (Inl AWS_ERROR_INVALID_BUFFER_SIZE, used)))"

definition aws_checksum_finalize :: "hash_lib \<Rightarrow> aws_s3_checksum \<Rightarrow> usize \<Rightarrow> u8 list result \<times> aws_s3_checksum" where
  "aws_checksum_finalize H checksum room =
     (case cs_vtable checksum of
        hash_vtable \<Rightarrow> s_hash_finalize H checksum room
      | s_xxhash_vtable \<Rightarrow> s_xxhash_finalize H checksum room
      | _ \<Rightarrow> s_crc_finalize_helper H checksum room)"

subsection \<open>Combining digests\<close>

definition aws_checksum_algorithm_is_combinable :: "checksum_algorithm \<Rightarrow> bool" where
  "aws_checksum_algorithm_is_combinable algorithm \<longleftrightarrow>
     algorithm = AWS_SCA_CRC32 \<or> algorithm = AWS_SCA_CRC32C \<or> algorithm = AWS_SCA_CRC64NVME"

definition s_crc32_combine :: "hash_lib \<Rightarrow> aws_s3_checksum \<Rightarrow> u64 \<Rightarrow> u64 \<Rightarrow> aws_s3_checksum" where
  "s_crc32_combine H head tail_value tail_length =
     head\<lparr>cs_crc_val_32bit := aws_checksums_crc32_combine H (cs_crc_val_32bit head) (ucast tail_value) tail_length\<rparr>"

definition s_crc32c_combine :: "hash_lib \<Rightarrow> aws_s3_checksum \<Rightarrow> u64 \<Rightarrow> u64 \<Rightarrow> aws_s3_checksum" where
  "s_crc32c_combine H head tail_value tail_length =
     head\<lparr>cs_crc_val_32bit := aws_checksums_crc32c_combine H (cs_crc_val_32bit head) (ucast tail_value) tail_length\<rparr>"

definition s_crc64nvme_combine :: "hash_lib \<Rightarrow> aws_s3_checksum \<Rightarrow> u64 \<Rightarrow> u64 \<Rightarrow> aws_s3_checksum" where
  "s_crc64nvme_combine H head tail_value tail_length =
     head\<lparr>cs_crc_val_64bit := aws_checksums_crc64nvme_combine H (cs_crc_val_64bit head) tail_value tail_length\<rparr>"

definition checksum_combine :: "hash_lib \<Rightarrow> aws_checksum_vtable \<Rightarrow> (aws_s3_checksum \<Rightarrow> u64 \<Rightarrow> u64 \<Rightarrow> aws_s3_checksum) option" where
  "checksum_combine H vtable =
     (case vtable of
        crc32_vtable \<Rightarrow> Some (s_crc32_combine H)
      | crc32c_vtable \<Rightarrow> Some (s_crc32c_combine H)
      | crc64nvme_vtable \<Rightarrow> Some (s_crc64nvme_combine H)
      | _ \<Rightarrow> None)"

definition aws_checksum_combine_digest ::
    "hash_lib \<Rightarrow> aws_s3_checksum option \<Rightarrow> u8 list \<Rightarrow> u64 \<Rightarrow> aws_s3_checksum result" where
  "aws_checksum_combine_digest H head_opt tail_digest tail_length =
     (case head_opt of
        None \<Rightarrow> Inl AWS_ERROR_UNSUPPORTED_OPERATION
      | Some head \<Rightarrow>
          (case checksum_combine H (cs_vtable head) of
             None \<Rightarrow> Inl AWS_ERROR_UNSUPPORTED_OPERATION
           | Some combine \<Rightarrow>
               if \<not> cs_good head then Inl AWS_ERROR_INVALID_STATE
               else if of_nat (length tail_digest) \<noteq> cs_digest_size head then Inl AWS_ERROR_INVALID_ARGUMENT
               else
                 (case (if cs_digest_size head = AWS_CRC32_LEN
                        then map_option ucast (aws_byte_cursor_read_be32 H tail_digest)
                        else aws_byte_cursor_read_be64 H tail_digest) of
                    None \<Rightarrow> Inl AWS_ERROR_INVALID_ARGUMENT
                  | Some tail_value \<Rightarrow> Inr (combine head tail_value tail_length))))"

subsection \<open>One-shot computation\<close>

definition s_checksum_compute_fn :: "hash_lib \<Rightarrow> u8 list \<Rightarrow> usize \<Rightarrow> aws_s3_checksum \<Rightarrow> u8 list result" where
  "s_checksum_compute_fn H input room checksum =
     (case aws_checksum_update H checksum input of
        Inl e \<Rightarrow> Inl e
      | Inr checksum' \<Rightarrow> fst (aws_checksum_finalize H checksum' room))"

definition aws_checksum_compute :: "hash_lib \<Rightarrow> checksum_algorithm \<Rightarrow> u8 list \<Rightarrow> usize \<Rightarrow> u8 list result" where
  "aws_checksum_compute H algorithm input room =
     (case algorithm of
        AWS_SCA_SHA1 \<Rightarrow> hash_compute H AWS_SCA_SHA1 input room
      | AWS_SCA_SHA256 \<Rightarrow> hash_compute H AWS_SCA_SHA256 input room
      | AWS_SCA_SHA512 \<Rightarrow> hash_compute H AWS_SCA_SHA512 input room
      | AWS_SCA_XXHASH64 \<Rightarrow> hash_compute H AWS_SCA_XXHASH64 input room
      | AWS_SCA_XXHASH3_64 \<Rightarrow> hash_compute H AWS_SCA_XXHASH3_64 input room
      | AWS_SCA_XXHASH3_128 \<Rightarrow> hash_compute H AWS_SCA_XXHASH3_128 input room
      | AWS_SCA_CRC64NVME \<Rightarrow> s_checksum_compute_fn H input room s_crc64nvme_checksum_new
      | AWS_SCA_CRC32 \<Rightarrow> s_checksum_compute_fn H input room s_crc32_checksum_new
      | AWS_SCA_CRC32C \<Rightarrow> s_checksum_compute_fn H input room s_crc32c_checksum_new
      | _ \<Rightarrow> Inl AWS_ERROR_INVALID_ARGUMENT)"

text \<open>
  \<open>s_validate_checksum\<close> of \<open>s3_meta_request.c\<close>: finalize, encode, compare with the value of the
  header.
\<close>

definition s_validate_checksum :: "hash_lib \<Rightarrow> aws_s3_checksum \<Rightarrow> string \<Rightarrow> bool \<times> aws_s3_checksum" where
  "s_validate_checksum H checksum_to_validate expected_encoded_checksum =
     (case aws_base64_compute_encoded_len H (cs_digest_size checksum_to_validate) of
        Inl e \<Rightarrow> (False, checksum_to_validate)
      | Inr encoded_checksum_len \<Rightarrow>
          (case aws_checksum_finalize H checksum_to_validate (cs_digest_size checksum_to_validate) of
             (Inl e, used) \<Rightarrow> (False, used)
           | (Inr response_body_sum, used) \<Rightarrow>
               (case aws_base64_encode H response_body_sum encoded_checksum_len of
                  Inl e \<Rightarrow> (False, used)
                | Inr encoded \<Rightarrow> (encoded = expected_encoded_checksum, used))))"

subsection \<open>The checksum configuration of a meta request\<close>

datatype checksum_location = AWS_SCL_NONE | AWS_SCL_HEADER | AWS_SCL_TRAILER

datatype checksum_validation_mode = AWS_SCVM_DEFAULT | AWS_SCVM_REQUEST_ONLY | AWS_SCVM_FULL_OBJECT

text \<open>The caller's configuration. A validation mode outside the enumeration is \<open>None\<close>.\<close>

record checksum_config =
  cc_location :: checksum_location
  cc_checksum_algorithm :: checksum_algorithm
  cc_full_object_checksum_callback :: bool
  cc_validate_response_checksum :: bool
  cc_validate_checksum_algorithms :: "checksum_algorithm list option"
  cc_response_checksum_validation_mode :: "checksum_validation_mode option"
  cc_expected_checksum :: string
  cc_expected_checksum_algorithm :: checksum_algorithm

record response_checksum_algorithms =
  ra_crc64nvme :: bool
  ra_crc32c :: bool
  ra_crc32 :: bool
  ra_sha1 :: bool
  ra_sha256 :: bool
  ra_sha512 :: bool
  ra_xxhash64 :: bool
  ra_xxhash3_64 :: bool
  ra_xxhash3_128 :: bool

record checksum_config_storage =
  st_full_object_checksum :: string
  st_has_full_object_checksum :: bool
  st_full_object_checksum_callback :: bool
  st_location :: checksum_location
  st_checksum_algorithm :: checksum_algorithm
  st_unknown_checksum_algo :: string
  st_validate_response_checksum :: bool
  st_response_checksum_validation_mode :: checksum_validation_mode
  st_response_checksum_algorithms :: response_checksum_algorithms

definition no_algorithms :: response_checksum_algorithms where
  "no_algorithms = \<lparr>ra_crc64nvme = False, ra_crc32c = False, ra_crc32 = False, ra_sha1 = False, ra_sha256 = False,
     ra_sha512 = False, ra_xxhash64 = False, ra_xxhash3_64 = False, ra_xxhash3_128 = False\<rparr>"

definition all_algorithms :: response_checksum_algorithms where
  "all_algorithms = \<lparr>ra_crc64nvme = True, ra_crc32c = True, ra_crc32 = True, ra_sha1 = True, ra_sha256 = True,
     ra_sha512 = True, ra_xxhash64 = True, ra_xxhash3_64 = True, ra_xxhash3_128 = True\<rparr>"

definition zero_checksum_config_storage :: checksum_config_storage where
  "zero_checksum_config_storage =
     \<lparr>st_full_object_checksum = '''', st_has_full_object_checksum = False, st_full_object_checksum_callback = False,
      st_location = AWS_SCL_NONE, st_checksum_algorithm = AWS_SCA_NONE, st_unknown_checksum_algo = '''',
      st_validate_response_checksum = False, st_response_checksum_validation_mode = AWS_SCVM_DEFAULT,
      st_response_checksum_algorithms = no_algorithms\<rparr>"

definition s_checksum_algo_priority_list :: "checksum_algorithm list" where
  "s_checksum_algo_priority_list =
     [AWS_SCA_XXHASH3_128, AWS_SCA_XXHASH3_64, AWS_SCA_CRC64NVME, AWS_SCA_CRC32C, AWS_SCA_CRC32, AWS_SCA_XXHASH64,
      AWS_SCA_SHA512, AWS_SCA_SHA256, AWS_SCA_SHA1]"

fun add_algorithm :: "checksum_algorithm \<Rightarrow> response_checksum_algorithms \<Rightarrow> response_checksum_algorithms" where
  "add_algorithm AWS_SCA_CRC64NVME r = r\<lparr>ra_crc64nvme := True\<rparr>"
| "add_algorithm AWS_SCA_CRC32C r = r\<lparr>ra_crc32c := True\<rparr>"
| "add_algorithm AWS_SCA_CRC32 r = r\<lparr>ra_crc32 := True\<rparr>"
| "add_algorithm AWS_SCA_SHA1 r = r\<lparr>ra_sha1 := True\<rparr>"
| "add_algorithm AWS_SCA_SHA256 r = r\<lparr>ra_sha256 := True\<rparr>"
| "add_algorithm AWS_SCA_SHA512 r = r\<lparr>ra_sha512 := True\<rparr>"
| "add_algorithm AWS_SCA_XXHASH64 r = r\<lparr>ra_xxhash64 := True\<rparr>"
| "add_algorithm AWS_SCA_XXHASH3_64 r = r\<lparr>ra_xxhash3_64 := True\<rparr>"
| "add_algorithm AWS_SCA_XXHASH3_128 r = r\<lparr>ra_xxhash3_128 := True\<rparr>"
| "add_algorithm _ r = r"

fun aws_s3_meta_request_checksum_config_has_algorithm :: "checksum_config_storage \<Rightarrow> checksum_algorithm \<Rightarrow> bool" where
  "aws_s3_meta_request_checksum_config_has_algorithm c AWS_SCA_CRC64NVME = ra_crc64nvme (st_response_checksum_algorithms c)"
| "aws_s3_meta_request_checksum_config_has_algorithm c AWS_SCA_CRC32C = ra_crc32c (st_response_checksum_algorithms c)"
| "aws_s3_meta_request_checksum_config_has_algorithm c AWS_SCA_CRC32 = ra_crc32 (st_response_checksum_algorithms c)"
| "aws_s3_meta_request_checksum_config_has_algorithm c AWS_SCA_SHA1 = ra_sha1 (st_response_checksum_algorithms c)"
| "aws_s3_meta_request_checksum_config_has_algorithm c AWS_SCA_SHA256 = ra_sha256 (st_response_checksum_algorithms c)"
| "aws_s3_meta_request_checksum_config_has_algorithm c AWS_SCA_SHA512 = ra_sha512 (st_response_checksum_algorithms c)"
| "aws_s3_meta_request_checksum_config_has_algorithm c AWS_SCA_XXHASH64 = ra_xxhash64 (st_response_checksum_algorithms c)"
| "aws_s3_meta_request_checksum_config_has_algorithm c AWS_SCA_XXHASH3_64 = ra_xxhash3_64 (st_response_checksum_algorithms c)"
| "aws_s3_meta_request_checksum_config_has_algorithm c AWS_SCA_XXHASH3_128 = ra_xxhash3_128 (st_response_checksum_algorithms c)"
| "aws_s3_meta_request_checksum_config_has_algorithm c _ = False"

definition s_byte_buf_to_upper :: "string \<Rightarrow> string" where
  "s_byte_buf_to_upper buf =
     map (\<lambda>c. if 97 \<le> (of_char c :: nat) \<and> (of_char c :: nat) \<le> 122 then char_of ((of_char c :: nat) - 32) else c) buf"

text \<open>
  The headers of a message are read by index (\<open>names\<close>, in their order) and by name. The loop over
  the priority list keeps the algorithm of the first header present and fails on a second one;
  \<open>header_value\<close> is the last value it read.
\<close>

fun find_checksum_header ::
    "headers \<Rightarrow> checksum_algorithm list \<Rightarrow> checksum_algorithm \<Rightarrow> string \<Rightarrow> (checksum_algorithm \<times> string) result" where
  "find_checksum_header hs [] header_algo header_value = Inr (header_algo, header_value)"
| "find_checksum_header hs (algorithm # rest) header_algo header_value =
     (case hs (aws_get_http_header_name_from_checksum_algorithm algorithm) of
        None \<Rightarrow> find_checksum_header hs rest header_algo header_value
      | Some value \<Rightarrow>
          if header_algo = AWS_SCA_NONE then find_checksum_header hs rest algorithm value
          else Inl AWS_ERROR_INVALID_ARGUMENT)"

definition s_init_and_verify_checksum_config_from_headers ::
    "str_lib \<Rightarrow> checksum_config_storage \<Rightarrow> string list \<Rightarrow> headers \<Rightarrow> checksum_config_storage result" where
  "s_init_and_verify_checksum_config_from_headers S checksum_config names hs =
     (case List.find (aws_s3_is_checksum_value_header_name S) names of
        None \<Rightarrow> Inr checksum_config
      | Some checksum_header_name \<Rightarrow>
          (case find_checksum_header hs s_checksum_algo_priority_list AWS_SCA_NONE '''' of
             Inl e \<Rightarrow> Inl e
           | Inr (found_algo, header_value) \<Rightarrow>
               let header_algo = (if found_algo = AWS_SCA_NONE then AWS_SCA_UNKNOWN else found_algo) in
               if st_has_full_object_checksum checksum_config then Inl AWS_ERROR_INVALID_ARGUMENT
               else
                 Inr (checksum_config
                   \<lparr>st_checksum_algorithm := header_algo, st_location := AWS_SCL_NONE,
                    st_unknown_checksum_algo :=
                      (if header_algo = AWS_SCA_UNKNOWN
                       then s_byte_buf_to_upper (str_advance S checksum_header_name (length ''x-amz-checksum-''))
                       else st_unknown_checksum_algo checksum_config),
                    st_full_object_checksum := header_value, st_has_full_object_checksum := True\<rparr>)))"

definition aws_s3_meta_request_checksum_config_storage_init ::
    "str_lib \<Rightarrow> checksum_config option \<Rightarrow> string list \<Rightarrow> headers \<Rightarrow> checksum_config_storage result" where
  "aws_s3_meta_request_checksum_config_storage_init S config_opt names hs =
     (case config_opt of
        None \<Rightarrow> Inr zero_checksum_config_storage
      | Some config \<Rightarrow>
          if cc_location config = AWS_SCL_TRAILER \<and>
             (case hs g_content_encoding_header_name of
                None \<Rightarrow> False
              | Some existing_encoding \<Rightarrow> find_exact S existing_encoding g_content_encoding_header_aws_chunked)
          then Inl AWS_ERROR_INVALID_ARGUMENT
          else if cc_location config \<noteq> AWS_SCL_NONE \<and> cc_checksum_algorithm config = AWS_SCA_NONE
          then Inl AWS_ERROR_INVALID_ARGUMENT
          else
            (case cc_response_checksum_validation_mode config of
               None \<Rightarrow> Inl AWS_ERROR_INVALID_ARGUMENT
             | Some validation_mode \<Rightarrow>
                 let internal_config = zero_checksum_config_storage
                       \<lparr>st_checksum_algorithm := cc_checksum_algorithm config, st_location := cc_location config,
                        st_validate_response_checksum := cc_validate_response_checksum config,
                        st_response_checksum_validation_mode := validation_mode,
                        st_full_object_checksum_callback := cc_full_object_checksum_callback config,
                        st_has_full_object_checksum := cc_full_object_checksum_callback config,
                        st_response_checksum_algorithms :=
                          (case cc_validate_checksum_algorithms config of
                             Some algorithms \<Rightarrow> foldl (\<lambda>r a. add_algorithm a r) no_algorithms algorithms
                           | None \<Rightarrow>
                               if cc_validate_response_checksum config then all_algorithms else no_algorithms)\<rparr>
                 in s_init_and_verify_checksum_config_from_headers S internal_config names hs))"

text \<open>
  \<open>aws_s3_check_headers_for_checksum\<close> of \<open>s3_util.c\<close>: the running checksum and the expected value
  for the first selected algorithm whose header is there, if that value has the right length.
\<close>

fun check_headers_loop ::
    "hash_lib \<Rightarrow> checksum_config_storage \<Rightarrow> headers \<Rightarrow> checksum_algorithm list \<Rightarrow> (aws_s3_checksum \<times> string) option result" where
  "check_headers_loop H config hs [] = Inr None"
| "check_headers_loop H config hs (algorithm # rest) =
     (if \<not> aws_s3_meta_request_checksum_config_has_algorithm config algorithm then check_headers_loop H config hs rest
      else
        (case hs (aws_get_http_header_name_from_checksum_algorithm algorithm) of
           None \<Rightarrow> check_headers_loop H config hs rest
         | Some checksum_value \<Rightarrow>
             let encoded_len =
               (case aws_base64_compute_encoded_len H (aws_get_digest_size_from_checksum_algorithm H algorithm) of
                  Inr n \<Rightarrow> n | Inl _ \<Rightarrow> 0) in
             if of_nat (length checksum_value) = encoded_len
             then (case aws_checksum_new H algorithm of
                     Inl e \<Rightarrow> Inl e
                   | Inr checksum \<Rightarrow> Inr (Some (checksum, checksum_value)))
             else Inr None))"

definition aws_s3_check_headers_for_checksum ::
    "hash_lib \<Rightarrow> checksum_config_storage \<Rightarrow> headers option \<Rightarrow> (aws_s3_checksum \<times> string) option result" where
  "aws_s3_check_headers_for_checksum H config headers_opt =
     (case headers_opt of
        None \<Rightarrow> Inr None
      | Some hs \<Rightarrow> check_headers_loop H config hs s_checksum_algo_priority_list)"



subsection \<open>CRCs of pieces\<close>

text \<open>
  The checksum that has been fed the bytes \<open>xs\<close>, and its digest, for the three algorithms that can
  be combined.
\<close>

definition crc_sum :: "hash_lib \<Rightarrow> checksum_algorithm \<Rightarrow> u8 list \<Rightarrow> aws_s3_checksum" where
  "crc_sum H a xs =
     (if a = AWS_SCA_CRC32
      then s_crc32_checksum_new\<lparr>cs_algorithm := a, cs_crc_val_32bit := aws_checksums_crc32_ex H xs 0\<rparr>
      else if a = AWS_SCA_CRC32C
      then s_crc32c_checksum_new\<lparr>cs_algorithm := a, cs_crc_val_32bit := aws_checksums_crc32c_ex H xs 0\<rparr>
      else s_crc64nvme_checksum_new\<lparr>cs_algorithm := a, cs_crc_val_64bit := aws_checksums_crc64nvme_ex H xs 0\<rparr>)"

definition crc_digest :: "hash_lib \<Rightarrow> checksum_algorithm \<Rightarrow> u8 list \<Rightarrow> u8 list" where
  "crc_digest H a xs =
     (if a = AWS_SCA_CRC32 then the (aws_byte_buf_write_be32 H (aws_checksums_crc32_ex H xs 0) 4)
      else if a = AWS_SCA_CRC32C then the (aws_byte_buf_write_be32 H (aws_checksums_crc32c_ex H xs 0) 4)
      else the (aws_byte_buf_write_be64 H (aws_checksums_crc64nvme_ex H xs 0) 8))"

lemmas crc_new_defs = s_crc32_checksum_new_def s_crc32c_checksum_new_def s_crc64nvme_checksum_new_def new_checksum_def

lemma combinable_cases:
  assumes "aws_checksum_algorithm_is_combinable a"
  obtains "a = AWS_SCA_CRC32" | "a = AWS_SCA_CRC32C" | "a = AWS_SCA_CRC64NVME"
  using assms by (auto simp: aws_checksum_algorithm_is_combinable_def)

lemma crc_sum_algorithm [simp]: "cs_algorithm (crc_sum H a xs) = a" "cs_good (crc_sum H a xs)"
  by (simp_all add: crc_sum_def crc_new_defs)

lemma checksum_new_crc:
  assumes "crc_ok H" "aws_checksum_algorithm_is_combinable a"
  shows "aws_checksum_new H a = Inr (crc_sum H a [])"
  using assms by (auto elim!: combinable_cases simp: aws_checksum_new_def crc_sum_def crc_ok_def crc_new_defs)

lemma checksum_update_crc:
  assumes "crc_ok H" "aws_checksum_algorithm_is_combinable a"
  shows "aws_checksum_update H (crc_sum H a xs) ys = Inr (crc_sum H a (xs @ ys))"
  using assms by (auto elim!: combinable_cases simp: aws_checksum_update_def crc_sum_def crc_ok_def crc_new_defs
      s_crc32_checksum_update_def s_crc32c_checksum_update_def s_crc64nvme_checksum_update_def)

lemma be32E:
  assumes "be_ok H"
  obtains bytes where "length bytes = 4" "aws_byte_cursor_read_be32 H bytes = Some x"
    "\<And>room. room \<ge> 4 \<Longrightarrow> aws_byte_buf_write_be32 H x room = Some bytes"
  using assms unfolding be_ok_def by meson

lemma be64E:
  assumes "be_ok H"
  obtains bytes where "length bytes = 8" "aws_byte_cursor_read_be64 H bytes = Some x"
    "\<And>room. room \<ge> 8 \<Longrightarrow> aws_byte_buf_write_be64 H x room = Some bytes"
  using assms unfolding be_ok_def by meson

lemma checksum_finalize_crc:
  assumes "be_ok H" "aws_checksum_algorithm_is_combinable a" "room \<ge> cs_digest_size (crc_sum H a xs)"
  shows "fst (aws_checksum_finalize H (crc_sum H a xs) room) = Inr (crc_digest H a xs)"
  using assms(2)
proof (cases rule: combinable_cases)
  case 1
  obtain bytes where "\<And>room. room \<ge> 4 \<Longrightarrow> aws_byte_buf_write_be32 H (aws_checksums_crc32_ex H xs 0) room = Some bytes"
    using be32E [OF assms(1)] by metis
  with 1 assms(3) show ?thesis
    by (simp add: aws_checksum_finalize_def s_crc_finalize_helper_def crc_sum_def crc_digest_def crc_new_defs
        digest_len_defs Let_def)
next
  case 2
  obtain bytes where "\<And>room. room \<ge> 4 \<Longrightarrow> aws_byte_buf_write_be32 H (aws_checksums_crc32c_ex H xs 0) room = Some bytes"
    using be32E [OF assms(1)] by metis
  with 2 assms(3) show ?thesis
    by (simp add: aws_checksum_finalize_def s_crc_finalize_helper_def crc_sum_def crc_digest_def crc_new_defs
        digest_len_defs Let_def)
next
  case 3
  obtain bytes where "\<And>room. room \<ge> 8 \<Longrightarrow> aws_byte_buf_write_be64 H (aws_checksums_crc64nvme_ex H xs 0) room = Some bytes"
    using be64E [OF assms(1)] by metis
  with 3 assms(3) show ?thesis
    by (simp add: aws_checksum_finalize_def s_crc_finalize_helper_def crc_sum_def crc_digest_def crc_new_defs
        digest_len_defs Let_def)
qed

lemma crc_digest_length:
  assumes "be_ok H" "aws_checksum_algorithm_is_combinable a"
  shows "crc_digest H a xs \<noteq> []" "length (crc_digest H a xs) \<le> 8"
    "of_nat (length (crc_digest H a xs)) = cs_digest_size (crc_sum H a ys)" "cs_digest_size (crc_sum H a ys) \<le> 8"
proof -
  obtain b1 b2 b3 where "length b1 = 4" "aws_byte_buf_write_be32 H (aws_checksums_crc32_ex H xs 0) 4 = Some b1"
      "length b2 = 4" "aws_byte_buf_write_be32 H (aws_checksums_crc32c_ex H xs 0) 4 = Some b2"
      "length b3 = 8" "aws_byte_buf_write_be64 H (aws_checksums_crc64nvme_ex H xs 0) 8 = Some b3"
    using be32E [OF assms(1)] be64E [OF assms(1)] by (metis order_refl)
  with assms(2) have "length (crc_digest H a xs) = unat (cs_digest_size (crc_sum H a ys))"
    "crc_digest H a xs \<noteq> []" "unat (cs_digest_size (crc_sum H a ys)) \<le> 8"
    by (auto elim!: combinable_cases simp: crc_digest_def crc_sum_def crc_new_defs digest_len_defs)
  then show "crc_digest H a xs \<noteq> []" "length (crc_digest H a xs) \<le> 8"
    "of_nat (length (crc_digest H a xs)) = cs_digest_size (crc_sum H a ys)" "cs_digest_size (crc_sum H a ys) \<le> 8"
    by (simp_all add: word_le_nat_alt)
qed

lemma ucast_u32_u64_u32 [simp]: "ucast (ucast (x :: u32) :: u64) = x"
  by (rule word_unat_eq_iff [THEN iffD2]) (use unat_u32_of_u64 [of "ucast x"] unat_lt2p32 [of x] in simp)

lemma combine_digest_crc:
  assumes "crc_ok H" "be_ok H" "aws_checksum_algorithm_is_combinable a" "length ys < 2 ^ 64"
  shows "aws_checksum_combine_digest H (Some (crc_sum H a xs)) (crc_digest H a ys) (of_nat (length ys)) =
    Inr (crc_sum H a (xs @ ys))"
proof -
  obtain b1 b2 b3 where "length b1 = 4" "aws_byte_buf_write_be32 H (aws_checksums_crc32_ex H ys 0) 4 = Some b1"
      "aws_byte_cursor_read_be32 H b1 = Some (aws_checksums_crc32_ex H ys 0)"
      "length b2 = 4" "aws_byte_buf_write_be32 H (aws_checksums_crc32c_ex H ys 0) 4 = Some b2"
      "aws_byte_cursor_read_be32 H b2 = Some (aws_checksums_crc32c_ex H ys 0)"
      "length b3 = 8" "aws_byte_buf_write_be64 H (aws_checksums_crc64nvme_ex H ys 0) 8 = Some b3"
      "aws_byte_cursor_read_be64 H b3 = Some (aws_checksums_crc64nvme_ex H ys 0)"
    using be32E [OF assms(2)] be64E [OF assms(2)] by (metis order_refl)
  with assms(1,3,4) show ?thesis
    by (auto elim!: combinable_cases simp: aws_checksum_combine_digest_def checksum_combine_def crc_sum_def crc_digest_def
        crc_new_defs digest_len_defs s_crc32_combine_def s_crc32c_combine_def s_crc64nvme_combine_def crc_ok_def)
qed

subsection \<open>An instance for the examples\<close>

text \<open>
  Every checksum is the sum of the bytes modulo its width; integers are written in base 256; the
  encoding writes each byte as a character.
\<close>

fun be_bytes :: "nat \<Rightarrow> nat \<Rightarrow> u8 list" where
  "be_bytes 0 n = []"
| "be_bytes (Suc k) n = be_bytes k (n div 256) @ [of_nat (n mod 256)]"

definition be_value :: "u8 list \<Rightarrow> nat" where
  "be_value bytes = foldl (\<lambda>n b. n * 256 + unat b) 0 bytes"

definition example_hash :: hash_lib where
  "example_hash =
     \<lparr>AWS_SHA1_LEN = 20, AWS_SHA256_LEN = 32, AWS_SHA512_LEN = 64,
      aws_checksums_crc32_ex = (\<lambda>body c. c + sum_list (map ucast body)),
      aws_checksums_crc32c_ex = (\<lambda>body c. c + sum_list (map ucast body)),
      aws_checksums_crc64nvme_ex = (\<lambda>body c. c + sum_list (map ucast body)),
      aws_checksums_crc32_combine = (\<lambda>a b n. a + b), aws_checksums_crc32c_combine = (\<lambda>a b n. a + b),
      aws_checksums_crc64nvme_combine = (\<lambda>a b n. a + b),
      hash_fn = (\<lambda>a. Inr (0, 20)), aws_hash_update = (\<lambda>h body. Inr (h + length body)),
      aws_hash_finalize = (\<lambda>h room. Inr (replicate 20 0)),
      xxhash_fn = (\<lambda>a. Inr 0), aws_xxhash_update = (\<lambda>h body. Inr (h + length body)),
      aws_xxhash_finalize = (\<lambda>h room. Inr (replicate 8 0)), hash_compute = (\<lambda>a body room. Inr []),
      aws_byte_buf_write_be32 = (\<lambda>x room. if room \<ge> 4 then Some (be_bytes 4 (unat x)) else None),
      aws_byte_buf_write_be64 = (\<lambda>x room. if room \<ge> 8 then Some (be_bytes 8 (unat x)) else None),
      aws_byte_cursor_read_be32 = (\<lambda>bytes. if length bytes \<ge> 4 then Some (of_nat (be_value (take 4 bytes))) else None),
      aws_byte_cursor_read_be64 = (\<lambda>bytes. if length bytes \<ge> 8 then Some (of_nat (be_value (take 8 bytes))) else None),
      aws_base64_compute_encoded_len = (\<lambda>n. Inr n),
      aws_base64_encode = (\<lambda>bytes room. Inr (map (\<lambda>b. char_of (unat b)) bytes))\<rparr>"

lemma length_be_bytes [simp]: "length (be_bytes k n) = k"
  by (induction k arbitrary: n) simp_all

lemma be_value_bytes: "n < 256 ^ k \<Longrightarrow> be_value (be_bytes k n) = n"
proof (induction k arbitrary: n)
  case (Suc k)
  then have "be_value (be_bytes k (n div 256)) = n div 256"
    by (intro Suc.IH) (simp add: less_mult_imp_div_less mult.commute)
  then show ?case by (simp add: be_value_def unat_of_nat)
qed (simp add: be_value_def)

lemma example_hash_ok: "crc_ok example_hash" "be_ok example_hash"
proof -
  show "crc_ok example_hash" by (simp add: crc_ok_def example_hash_def)
  have 4: "be_value (be_bytes 4 (unat x)) = unat x" for x :: u32
    using unat_lt2p32 [of x] by (intro be_value_bytes) simp
  have 8: "be_value (be_bytes 8 (unat x)) = unat x" for x :: u64
    using unat_lt2p64 [of x] by (intro be_value_bytes) simp
  have "\<exists>bytes. length bytes = 4 \<and> aws_byte_cursor_read_be32 example_hash bytes = Some x \<and>
      (\<forall>room\<ge>4. aws_byte_buf_write_be32 example_hash x room = Some bytes)" for x
    by (rule exI [of _ "be_bytes 4 (unat x)"]) (simp add: example_hash_def 4)
  moreover have "\<exists>bytes. length bytes = 8 \<and> aws_byte_cursor_read_be64 example_hash bytes = Some x \<and>
      (\<forall>room\<ge>8. aws_byte_buf_write_be64 example_hash x room = Some bytes)" for x
    by (rule exI [of _ "be_bytes 8 (unat x)"]) (simp add: example_hash_def 8)
  ultimately show "be_ok example_hash" by (simp only: be_ok_def) blast
qed

end
