(* ===== verification/S3_Meta_Request.thy ===== *)
theory S3_Meta_Request
  imports S3_Checksums
begin

section \<open>The meta request and the delivery of bodies (\<^verbatim>\<open>source/s3_meta_request.c\<close>)\<close>

text \<open>
  The base type of every meta request: its finish result, the queue that puts the bodies of the
  parts in order, the events delivered on its event loop, the read window, the mask of delivered
  parts and the contiguous prefix a resume token reports.

  State: record \<open>meta_request\<close> has the fields of \<open>struct aws_s3_meta_request\<close> these operations
  use; the client is the part of \<open>struct aws_s3_client\<close> a meta request reads or counts in. A body
  is the list of its bytes. Array lists are lists. A priority queue of aws-c-common is the list of
  its elements in the order in which it gives them out; pushing is a parameter (\<open>push_request\<close>,
  \<open>push_delivery\<close>, \<open>Inl\<close> for a failed push). The user's callbacks, writing to the file and the
  hash functions are parameters too (record \<open>sink_env\<close>). The number of connections a disk
  throughput allows, which the code computes with floating point, is a field where one is configured. Each critical section is one
  definition; a failed \<open>AWS_FATAL_ASSERT\<close> is \<open>None\<close>. Debug assertions, logging, metrics timestamps
  and the scheduling of the client's work task are not modelled.
\<close>

subsection \<open>Data\<close>

datatype meta_request_type =
    AWS_S3_META_REQUEST_TYPE_DEFAULT
  | AWS_S3_META_REQUEST_TYPE_GET_OBJECT
  | AWS_S3_META_REQUEST_TYPE_PUT_OBJECT
  | AWS_S3_META_REQUEST_TYPE_COPY_OBJECT

datatype meta_request_state = AWS_S3_META_REQUEST_STATE_ACTIVE | AWS_S3_META_REQUEST_STATE_FINISHED



record meta_request_result =
  res_error_response_headers :: "headers option"
  res_error_response_body :: "u8 list option"
  res_error_response_operation_name :: "string option"
  res_response_status :: nat
  res_error_code :: aws_error
  res_did_validate :: bool
  res_validation_algorithm :: checksum_algorithm

record delivery_tracking_record =
  dt_part_number :: u32
  dt_range_start :: u64
  dt_range_end :: u64
  dt_bytes :: u64

text \<open>A telemetry event carries metrics, which are not modelled: the flag says whether its pointer to them is set.\<close>

datatype meta_request_event =
    EVENT_RESPONSE_BODY (completed_request: aws_s3_request) (bytes_delivered: usize)
  | EVENT_PROGRESS (bytes_transferred: u64) (progress_content_length: u64)
  | EVENT_TELEMETRY (telemetry_metrics: bool)

record aws_s3_client =
  cl_enable_read_backpressure :: bool
  cl_force_sequential_requests :: bool
  cl_part_size_set :: bool
  cl_optimal_range_size :: u64
  cl_out_of_order_delivery :: aws_tribool
  cl_out_of_order_delivery_env :: aws_tribool
  cl_num_requests_streaming_response :: usize
  cl_num_requests_stream_queued_waiting :: usize
  cl_num_pending_writes :: usize
  cl_ideal_connection_count :: u32
  cl_max_active_connections_override :: u32
  cl_disk_connections :: "u32 option"

text \<open>One part's contribution to the checksum of the whole object; \<open>slot_digest\<close> is empty until it is recorded.\<close>

record combine_slot =
  slot_length :: u64
  slot_digest :: "u8 list"

text \<open>The data of an upload whose body the user writes piece by piece. A waker is an opaque callback.\<close>

record async_write_data =
  aw_ready_to_send :: bool
  aw_eof :: bool
  aw_buffered_data :: "u8 list"
  aw_buffered_data_ticket :: "nat option"
  aw_buffered_data_ticket_future :: "nat option"
  aw_waker :: "nat option"

record meta_request =
  mr_type :: meta_request_type
  mr_part_size :: usize
  mr_max_active_connections_override :: u32
  mr_is_express :: bool
  mr_client :: aws_s3_client
  mr_has_headers_callback :: bool
  mr_has_body_callback :: bool
  mr_has_body_callback_ex :: bool
  mr_has_progress_callback :: bool
  mr_has_telemetry_callback :: bool
  mr_recv_filepath :: bool
  mr_recv_file_write_fd_slots :: bool
  mr_recv_file_direct_io :: bool
  mr_recv_file_base_offset :: u64
  mr_recv_buffer_capacity :: "usize option"
  mr_recv_buffer_expected_len :: u64
  mr_recv_buffer_len :: usize
  mr_recv_file_delete_on_failure :: bool
  mr_recv_file_finalized :: bool
  mr_has_finish_callback :: bool
  mr_on_error_resume_token :: bool
  mr_pause_complete_callback :: bool
  mr_request_body_using_async_writes :: bool
  mr_fio_streaming :: bool \<comment> \<open>file options that stream, and a parallel stream as body\<close>
  mr_disk_connections :: "u32 option"
  mr_requested_range_start :: u64
  mr_requested_range_start_resolved :: bool
  mr_checksum_config :: checksum_config_storage
  mr_response_header_checksum :: string
  mr_running_response_sum :: "aws_s3_checksum option"
  mr_checksum_combinable :: bool
  mr_combine_slots :: "combine_slot list option"
  mr_combine_slot_count :: u32
  mr_buffer_pool_optimized :: bool
  mr_out_of_order_delivery_override :: aws_tribool
  mr_out_of_order_delivery :: bool
  pending_body_streaming_requests :: "aws_s3_request list"
  mr_state :: meta_request_state
  read_window_running_total :: u64
  next_streaming_part :: u32
  num_parts_delivery_sent :: u32
  num_parts_delivery_completed :: u32
  parts_delivered_mask :: "u8 list option"
  parts_delivered_mask_length :: u32
  parts_delivered_mask_num_parts :: u32
  num_bytes_delivered :: u64
  num_bytes_delivered_total :: u64
  next_contiguous_delivered_part :: u32
  next_contiguous_delivered_range_start :: u64
  completed_deliveries_tracker :: "delivery_tracking_record list"
  event_delivery_task_scheduled :: bool
  event_delivery_array :: "meta_request_event list"
  event_delivery_active :: bool
  finish_result :: meta_request_result
  finish_result_set :: bool
  async_pause_requested :: bool
  cancellable_http_streams :: "nat list"
  pending_buffer_futures :: "nat list"
  io_event_delivery_array :: "meta_request_event list"
  next_deliver_range_start :: u64
  num_bytes_delivery_completed :: u64
  next_read_offset :: u64
  async_write :: async_write_data

text \<open>What the operations call in other libraries and in the user's code.\<close>

record sink_env =
  env_math :: aws_math
  push_request :: "aws_s3_request \<Rightarrow> aws_s3_request list \<Rightarrow> aws_s3_request list result"
  push_delivery :: "delivery_tracking_record \<Rightarrow> delivery_tracking_record list \<Rightarrow> delivery_tracking_record list result"
  cursor_advance :: "u8 list \<Rightarrow> usize \<Rightarrow> u8 list"
  env_hash :: hash_lib
  file_write :: "u64 \<Rightarrow> u8 list \<Rightarrow> aws_error"
  body_callback :: "u8 list \<Rightarrow> u64 \<Rightarrow> aws_error"
  body_callback_ex :: "u8 list \<Rightarrow> u64 \<Rightarrow> nat option \<Rightarrow> aws_error"

subsection \<open>The finish result\<close>

definition aws_s3_meta_request_result_setup ::
    "meta_request_result \<Rightarrow> aws_s3_request option \<Rightarrow> nat \<Rightarrow> aws_error \<Rightarrow> meta_request_result" where
  "aws_s3_meta_request_result_setup result failed_request response_status error_code =
     (let result =
        (case failed_request of
           None \<Rightarrow> result
         | Some request \<Rightarrow>
             let result = (if rq_response_headers request \<noteq> None
                   then result\<lparr>res_error_response_headers := rq_response_headers request\<rparr> else result);
                 result = (if rq_response_body_capacity request > 0
                   then result\<lparr>res_error_response_body := Some (rq_response_body request)\<rparr> else result)
             in result\<lparr>res_error_response_operation_name := rq_operation_name request\<rparr>)
      in result\<lparr>res_response_status := response_status, res_error_code := error_code\<rparr>)"

definition aws_s3_meta_request_has_finish_result_synced :: "meta_request \<Rightarrow> bool" where
  "aws_s3_meta_request_has_finish_result_synced m = finish_result_set m"

definition aws_s3_meta_request_set_fail_synced ::
    "meta_request \<Rightarrow> aws_s3_request option \<Rightarrow> aws_error \<Rightarrow> meta_request" where
  "aws_s3_meta_request_set_fail_synced m failed_request error_code =
     (let error_code = (if error_code = AWS_ERROR_SUCCESS then AWS_ERROR_UNKNOWN else error_code) in
      if finish_result_set m then m
      else
        let m = m\<lparr>finish_result_set := True\<rparr> in
        (case failed_request of
           Some request \<Rightarrow>
             if error_code = AWS_ERROR_S3_INVALID_RESPONSE_STATUS \<or>
                error_code = AWS_ERROR_S3_NON_RECOVERABLE_ASYNC_ERROR \<or> error_code = AWS_ERROR_S3_OBJECT_MODIFIED
             then m\<lparr>finish_result := aws_s3_meta_request_result_setup (finish_result m) (Some request)
                       (rq_response_status request) error_code\<rparr>
             else m\<lparr>finish_result := aws_s3_meta_request_result_setup (finish_result m) None 0 error_code\<rparr>
         | None \<Rightarrow> m\<lparr>finish_result := aws_s3_meta_request_result_setup (finish_result m) None 0 error_code\<rparr>))"

definition aws_s3_meta_request_set_success_synced :: "meta_request \<Rightarrow> nat \<Rightarrow> meta_request" where
  "aws_s3_meta_request_set_success_synced m response_status =
     (if finish_result_set m then m
      else m\<lparr>finish_result_set := True,
             finish_result := aws_s3_meta_request_result_setup (finish_result m) None response_status AWS_ERROR_SUCCESS\<rparr>)"

definition aws_s3_meta_request_is_active :: "meta_request \<Rightarrow> bool" where
  "aws_s3_meta_request_is_active m = (mr_state m = AWS_S3_META_REQUEST_STATE_ACTIVE)"

definition aws_s3_meta_request_is_finished :: "meta_request \<Rightarrow> bool" where
  "aws_s3_meta_request_is_finished m = (mr_state m = AWS_S3_META_REQUEST_STATE_FINISHED)"

text \<open>
  Cancelling hands the cancellable streams and the pending buffer futures out for cancellation;
  the lists returned are the ones \<open>aws_http_stream_cancel\<close> and \<open>..._set_error\<close> are called on.
\<close>

definition aws_s3_meta_request_cancel_cancellable_requests_synced :: "meta_request \<Rightarrow> meta_request \<times> nat list" where
  "aws_s3_meta_request_cancel_cancellable_requests_synced m =
     (m\<lparr>cancellable_http_streams := []\<rparr>, cancellable_http_streams m)"

definition aws_s3_meta_request_cancel_pending_buffer_futures_synced :: "meta_request \<Rightarrow> nat list" where
  "aws_s3_meta_request_cancel_pending_buffer_futures_synced m = pending_buffer_futures m"

definition aws_s3_meta_request_cancel :: "meta_request \<Rightarrow> meta_request \<times> nat list \<times> nat list" where
  "aws_s3_meta_request_cancel m =
     (let m1 = aws_s3_meta_request_set_fail_synced m None AWS_ERROR_S3_CANCELED;
          (m2, streams) = aws_s3_meta_request_cancel_cancellable_requests_synced m1
      in (m2, streams, aws_s3_meta_request_cancel_pending_buffer_futures_synced m2))"

text \<open>
  Pausing: the first flag says whether the type can build a resume token. \<open>Inr (m, Some e)\<close>
  means the callback is invoked at once with the error \<open>e\<close>.
\<close>

definition aws_s3_meta_request_pause_async ::
    "bool \<Rightarrow> meta_request \<Rightarrow> (meta_request \<times> aws_error option \<times> nat list \<times> nat list) result" where
  "aws_s3_meta_request_pause_async can_build_resume_token m =
     (if \<not> can_build_resume_token then Inl AWS_ERROR_UNSUPPORTED_OPERATION
      else if async_pause_requested m then Inr (m, Some AWS_ERROR_INVALID_STATE, [], [])
      else
        let m1 = aws_s3_meta_request_set_fail_synced (m\<lparr>async_pause_requested := True\<rparr>) None AWS_ERROR_S3_PAUSED;
            (m2, streams) = aws_s3_meta_request_cancel_cancellable_requests_synced m1
        in Inr (m2, None, streams, aws_s3_meta_request_cancel_pending_buffer_futures_synced m2))"

subsection \<open>Events and the read window\<close>

definition aws_s3_meta_request_add_event_for_delivery_synced ::
    "meta_request \<Rightarrow> meta_request_event option \<Rightarrow> meta_request" where
  "aws_s3_meta_request_add_event_for_delivery_synced m event =
     (let m = (case event of None \<Rightarrow> m | Some e \<Rightarrow> m\<lparr>event_delivery_array := event_delivery_array m @ [e]\<rparr>) in
      if \<not> event_delivery_task_scheduled m \<and> event_delivery_array m \<noteq> []
      then m\<lparr>event_delivery_task_scheduled := True\<rparr> else m)"

definition aws_s3_meta_request_are_events_out_for_delivery_synced :: "meta_request \<Rightarrow> bool" where
  "aws_s3_meta_request_are_events_out_for_delivery_synced m =
     (event_delivery_array m \<noteq> [] \<or> event_delivery_active m)"

text \<open>The metrics themselves are not modelled: \<open>rq_metrics\<close> says whether the request still has them.\<close>

definition aws_s3_request_finish_up_metrics_synced :: "aws_s3_request \<Rightarrow> meta_request \<Rightarrow> aws_s3_request \<times> meta_request" where
  "aws_s3_request_finish_up_metrics_synced request m =
     (if rq_metrics request
      then (request\<lparr>rq_metrics := False\<rparr>,
            if mr_has_telemetry_callback m
            then aws_s3_meta_request_add_event_for_delivery_synced m (Some (EVENT_TELEMETRY (rq_metrics request))) else m)
      else (request, m))"

definition aws_s3_meta_request_increment_read_window :: "aws_math \<Rightarrow> meta_request \<Rightarrow> u64 \<Rightarrow> meta_request" where
  "aws_s3_meta_request_increment_read_window M m bytes =
     (if bytes = 0 then m
      else if \<not> cl_enable_read_backpressure (mr_client m) then m
      else aws_s3_meta_request_add_event_for_delivery_synced
             (m\<lparr>read_window_running_total := aws_add_u64_saturating M bytes (read_window_running_total m)\<rparr>) None)"

subsection \<open>Putting bodies in order\<close>

text \<open>The result of the push is ignored by the code: a failed push leaves the queue as it was.\<close>

definition s_s3_meta_request_body_streaming_push_synced ::
    "sink_env \<Rightarrow> meta_request \<Rightarrow> aws_s3_request \<Rightarrow> meta_request" where
  "s_s3_meta_request_body_streaming_push_synced E m request =
     (case push_request E request (pending_body_streaming_requests m) of
        Inr q \<Rightarrow> m\<lparr>pending_body_streaming_requests := q\<rparr>
      | Inl _ \<Rightarrow> m)"

definition s_s3_meta_request_body_streaming_pop_next_synced :: "meta_request \<Rightarrow> (meta_request \<times> aws_s3_request) option" where
  "s_s3_meta_request_body_streaming_pop_next_synced m =
     (case pending_body_streaming_requests m of
        [] \<Rightarrow> None
      | top_request # rest \<Rightarrow>
          if rq_part_number top_request \<noteq> next_streaming_part m then None
          else Some (m\<lparr>pending_body_streaming_requests := rest, next_streaming_part := next_streaming_part m + 1\<rparr>, top_request))"

text \<open>The loop that moves every body that can be streamed to the event array, and counts them.\<close>

function stream_ready_bodies :: "meta_request \<Rightarrow> u32 \<Rightarrow> meta_request \<times> u32" where
  "stream_ready_bodies m num_streaming_requests =
     (case s_s3_meta_request_body_streaming_pop_next_synced m of
        None \<Rightarrow> (m, num_streaming_requests)
      | Some (m', request) \<Rightarrow>
          stream_ready_bodies
            (aws_s3_meta_request_add_event_for_delivery_synced m' (Some (EVENT_RESPONSE_BODY request 0)))
            (num_streaming_requests + 1))"
  by pat_completeness auto
termination
  by (relation "measure (\<lambda>(m, n). length (pending_body_streaming_requests m))")
    (auto simp: s_s3_meta_request_body_streaming_pop_next_synced_def
      aws_s3_meta_request_add_event_for_delivery_synced_def Let_def split: list.splits if_splits)

declare stream_ready_bodies.simps [simp del]

text \<open>
  An out-of-order body for a file is handed to a write worker: the second component of the result.
\<close>

definition aws_s3_meta_request_stream_response_body_synced ::
    "sink_env \<Rightarrow> meta_request \<Rightarrow> aws_s3_request \<Rightarrow> meta_request \<times> aws_s3_request option" where
  "aws_s3_meta_request_stream_response_body_synced E m request =
     (if mr_out_of_order_delivery m
      then
        let m = m\<lparr>num_parts_delivery_sent := num_parts_delivery_sent m + 1\<rparr>; c = mr_client m in
        if mr_recv_filepath m
        then (m\<lparr>mr_client := c\<lparr>cl_num_pending_writes := cl_num_pending_writes c + 1\<rparr>\<rparr>, Some request)
        else
          (aws_s3_meta_request_add_event_for_delivery_synced
             (m\<lparr>mr_client := c\<lparr>cl_num_requests_streaming_response := cl_num_requests_streaming_response c + 1\<rparr>\<rparr>)
             (Some (EVENT_RESPONSE_BODY request 0)), None)
      else
        let m1 = s_s3_meta_request_body_streaming_push_synced E m request;
            c = mr_client m1;
            m1 = m1\<lparr>mr_client := c\<lparr>cl_num_requests_stream_queued_waiting := cl_num_requests_stream_queued_waiting c + 1\<rparr>\<rparr>;
            (m2, n) = stream_ready_bodies m1 0
        in if n = 0 then (m2, None)
           else
             let c = mr_client m2 in
             (m2\<lparr>mr_client := c\<lparr>cl_num_requests_streaming_response := cl_num_requests_streaming_response c + ucast n,
                                cl_num_requests_stream_queued_waiting := cl_num_requests_stream_queued_waiting c - ucast n\<rparr>,
                 num_parts_delivery_sent := num_parts_delivery_sent m2 + n\<rparr>, None))"

subsection \<open>Delivered parts: the mask\<close>

definition s_byte_with_lowest_bits_set :: "u32 \<Rightarrow> u8" where
  "s_byte_with_lowest_bits_set count = ucast (push_bit (unat count) (1 :: u32) - 1)"

definition s_byte_index_holding_part :: "u32 \<Rightarrow> u32" where
  "s_byte_index_holding_part part_number = (part_number - 1) div 8"

definition s_bit_mask_for_part :: "u32 \<Rightarrow> u8" where
  "s_bit_mask_for_part part_number = ucast (push_bit (unat ((part_number - 1) mod 8)) (1 :: u32))"

text \<open>The functions that can fail after they changed the state return the error beside the state.\<close>

definition s_mark_part_delivered :: "meta_request \<Rightarrow> u32 \<Rightarrow> aws_error \<times> meta_request" where
  "s_mark_part_delivered m part_number =
     (case parts_delivered_mask m of
        None \<Rightarrow> (AWS_ERROR_SUCCESS, m)
      | Some mask_bytes \<Rightarrow>
          if part_number < 1 \<or> part_number > parts_delivered_mask_num_parts m then (AWS_ERROR_INVALID_STATE, m)
          else
            let byte_index = s_byte_index_holding_part part_number in
            if byte_index \<ge> parts_delivered_mask_length m then (AWS_ERROR_INVALID_STATE, m)
            else
              let part_bit_mask = s_bit_mask_for_part part_number;
                  byte = mask_bytes ! unat byte_index
              in if byte AND part_bit_mask \<noteq> 0 then (AWS_ERROR_INVALID_STATE, m)
                 else (AWS_ERROR_SUCCESS,
                       m\<lparr>parts_delivered_mask := Some (mask_bytes[unat byte_index := byte OR part_bit_mask])\<rparr>))"

definition aws_s3_meta_request_validate_parts_delivered_synced :: "meta_request \<Rightarrow> aws_error" where
  "aws_s3_meta_request_validate_parts_delivered_synced m =
     (case parts_delivered_mask m of
        None \<Rightarrow> AWS_ERROR_SUCCESS
      | Some mask_bytes \<Rightarrow>
          let num_parts = parts_delivered_mask_num_parts m;
              num_full_bytes = num_parts div 8;
              num_bytes = parts_delivered_mask_length m
          in if num_bytes \<noteq> (num_parts + 7) div 8 then AWS_ERROR_INVALID_STATE
             else if list_all (\<lambda>byte.
                 let required = (if unat num_full_bytes \<le> byte then s_byte_with_lowest_bits_set (num_parts mod 8) else 0xFF)
                 in mask_bytes ! byte AND required = required) [0..<unat num_bytes]
             then AWS_ERROR_SUCCESS else AWS_ERROR_INVALID_STATE)"

subsection \<open>Delivered parts: the contiguous prefix\<close>

definition s_s3_meta_request_extend_delivered_prefix_synced ::
    "meta_request \<Rightarrow> delivery_tracking_record \<Rightarrow> aws_error \<times> meta_request" where
  "s_s3_meta_request_extend_delivered_prefix_synced m r =
     (let expected_range_start =
        (if next_contiguous_delivered_part m = 1 then dt_range_start r else next_contiguous_delivered_range_start m)
      in if dt_range_start r \<noteq> expected_range_start then (AWS_ERROR_INVALID_STATE, m)
         else (AWS_ERROR_SUCCESS,
               m\<lparr>num_bytes_delivered := num_bytes_delivered m + dt_bytes r,
                 next_contiguous_delivered_range_start := dt_range_end r + 1,
                 next_contiguous_delivered_part := next_contiguous_delivered_part m + 1\<rparr>))"

text \<open>The loop that drains the records that continue the prefix; its argument is the queue.\<close>

fun drain_deliveries :: "delivery_tracking_record list \<Rightarrow> meta_request \<Rightarrow> aws_error \<times> meta_request" where
  "drain_deliveries [] m = (AWS_ERROR_SUCCESS, m\<lparr>completed_deliveries_tracker := []\<rparr>)"
| "drain_deliveries (entry # rest) m =
     (if dt_part_number entry = next_contiguous_delivered_part m
      then case s_s3_meta_request_extend_delivered_prefix_synced m entry of
          (e, m') \<Rightarrow>
            if e \<noteq> AWS_ERROR_SUCCESS then (e, m'\<lparr>completed_deliveries_tracker := rest\<rparr>) else drain_deliveries rest m'
      else (AWS_ERROR_SUCCESS, m\<lparr>completed_deliveries_tracker := entry # rest\<rparr>))"

definition s_s3_meta_request_record_delivered_part_synced ::
    "sink_env \<Rightarrow> meta_request \<Rightarrow> delivery_tracking_record \<Rightarrow> aws_error \<times> meta_request" where
  "s_s3_meta_request_record_delivered_part_synced E m r =
     (let m = m\<lparr>num_bytes_delivered_total := num_bytes_delivered_total m + dt_bytes r\<rparr> in
      if dt_part_number r \<noteq> next_contiguous_delivered_part m
      then case push_delivery E r (completed_deliveries_tracker m) of
          Inr q \<Rightarrow> (AWS_ERROR_SUCCESS, m\<lparr>completed_deliveries_tracker := q\<rparr>)
        | Inl e \<Rightarrow> (e, m)
      else case s_s3_meta_request_extend_delivered_prefix_synced m r of
          (e, m') \<Rightarrow> if e \<noteq> AWS_ERROR_SUCCESS then (e, m') else drain_deliveries (completed_deliveries_tracker m') m')"

subsection \<open>Sinks\<close>

definition s_should_apply_backpressure :: "meta_request \<Rightarrow> aws_s3_request \<Rightarrow> bool" where
  "s_should_apply_backpressure m request =
     (if \<not> cl_enable_read_backpressure (mr_client m) then False
      else if \<not> mr_has_body_callback m then False
      else if mr_type m = AWS_S3_META_REQUEST_TYPE_GET_OBJECT then True
      else rq_operation_name request = Some ''GetObject'')"

definition s_s3_recv_file_offset :: "aws_math \<Rightarrow> meta_request \<Rightarrow> u64 \<Rightarrow> u64 result" where
  "s_s3_recv_file_offset M m object_range_start =
     (if \<not> mr_requested_range_start_resolved m then Inl AWS_ERROR_INVALID_STATE
      else case aws_sub_u64_checked M object_range_start (mr_requested_range_start m) of
          None \<Rightarrow> Inl AWS_ERROR_INVALID_STATE
        | Some offset_from_base \<Rightarrow>
            (case aws_add_u64_checked M (mr_recv_file_base_offset m) offset_from_base of
               None \<Rightarrow> Inl AWS_ERROR_OVERFLOW_DETECTED
             | Some file_offset \<Rightarrow> Inr file_offset))"

definition body_len :: "u8 list \<Rightarrow> usize" where
  "body_len body = of_nat (length body)"

definition s_deliver_body_to_sink ::
    "sink_env \<Rightarrow> meta_request \<Rightarrow> u8 list \<Rightarrow> u64 \<Rightarrow> aws_s3_request \<Rightarrow> aws_error \<times> meta_request" where
  "s_deliver_body_to_sink E m body delivery_range_start request =
     (if mr_recv_buffer_capacity m \<noteq> None
      then (AWS_ERROR_SUCCESS,
            if cl_enable_read_backpressure (mr_client m)
            then aws_s3_meta_request_increment_read_window (env_math E) m (body_len body) else m)
      else if mr_recv_filepath m
      then case s_s3_recv_file_offset (env_math E) m delivery_range_start of
          Inl e \<Rightarrow> (e, m)
        | Inr file_offset \<Rightarrow>
            let e = file_write E file_offset body in
            if e \<noteq> AWS_ERROR_SUCCESS then (e, m)
            else (AWS_ERROR_SUCCESS,
                  if cl_enable_read_backpressure (mr_client m)
                  then aws_s3_meta_request_increment_read_window (env_math E) m (body_len body) else m)
      else
        let e = (if mr_has_body_callback_ex m
                 then body_callback_ex E body delivery_range_start (rq_ticket request) else AWS_ERROR_SUCCESS)
        in if e \<noteq> AWS_ERROR_SUCCESS then (e, m)
           else (if mr_has_body_callback m then body_callback E body delivery_range_start else AWS_ERROR_SUCCESS, m))"

subsection \<open>The write task of an out-of-order part\<close>

text \<open>
  \<open>run_ready\<close> says whether the task runs or its event loop cancelled it. The result \<open>None\<close> is the
  failed assertion that a write was pending.
\<close>

definition s_s3_body_write_task :: "sink_env \<Rightarrow> bool \<Rightarrow> meta_request \<Rightarrow> aws_s3_request \<Rightarrow> meta_request option" where
  "s_s3_body_write_task E run_ready m body_write =
     (let body = rq_response_body body_write;
          error_code =
            (if run_ready
             then case s_s3_recv_file_offset (env_math E) m (rq_part_range_start body_write) of
                 Inl e \<Rightarrow> e
               | Inr file_offset \<Rightarrow> file_write E file_offset body
             else AWS_ERROR_S3_CANCELED);
          m = (if run_ready \<and> error_code = AWS_ERROR_SUCCESS \<and> cl_enable_read_backpressure (mr_client m)
               then aws_s3_meta_request_increment_read_window (env_math E) m (body_len body) else m);
          m = m\<lparr>num_parts_delivery_completed := num_parts_delivery_completed m + 1\<rparr>;
          m = (if error_code = AWS_ERROR_SUCCESS
               then
                 let (e1, m1) = s_mark_part_delivered m (rq_part_number body_write);
                     m1 = (if e1 \<noteq> AWS_ERROR_SUCCESS then aws_s3_meta_request_set_fail_synced m1 None e1 else m1);
                     (e2, m2) = s_s3_meta_request_record_delivered_part_synced E m1
                       \<lparr>dt_part_number = rq_part_number body_write, dt_range_start = rq_part_range_start body_write,
                        dt_range_end = rq_part_range_end body_write, dt_bytes = body_len body\<rparr>
                 in if e2 \<noteq> AWS_ERROR_SUCCESS then aws_s3_meta_request_set_fail_synced m2 None e2 else m2
               else aws_s3_meta_request_set_fail_synced m None error_code);
          m = (if rq_metrics body_write \<and> mr_has_telemetry_callback m
               then aws_s3_meta_request_add_event_for_delivery_synced m (Some (EVENT_TELEMETRY (rq_metrics body_write))) else m);
          c = mr_client m
      in if cl_num_pending_writes c > 0
         then Some (m\<lparr>mr_client := c\<lparr>cl_num_pending_writes := cl_num_pending_writes c - 1\<rparr>\<rparr>) else None)"

subsection \<open>The event delivery task\<close>

text \<open>
  The local variables of the task: the error after which no callback fires, the counts, the
  window left, the events to put back and the parts fully delivered. Two further fields record
  what the task did outside: \<open>d_sunk\<close> the bodies handed to the sink, with the range start they
  were delivered at, and \<open>d_progress\<close> the progress callbacks.
\<close>

record delivery =
  d_meta :: meta_request
  d_error_code :: aws_error
  d_num_parts_delivered :: u32
  d_num_bytes_delivered :: u64
  d_bytes_allowed :: u64
  d_incomplete :: "meta_request_event list"
  d_completed :: "delivery_tracking_record list"
  d_sunk :: "(u64 \<times> u8 list) list"
  d_progress :: "(u64 \<times> u64) list"

text \<open>The first critical section: the events are swapped out and the window is read.\<close>

definition event_delivery_begin :: "meta_request \<Rightarrow> delivery option" where
  "event_delivery_begin m =
     (if io_event_delivery_array m \<noteq> [] then None
      else
        let m1 = m\<lparr>io_event_delivery_array := event_delivery_array m, event_delivery_array := [],
                   event_delivery_active := True, event_delivery_task_scheduled := False\<rparr>
        in Some \<lparr>d_meta = m1,
                 d_error_code = (if aws_s3_meta_request_has_finish_result_synced m1 then AWS_ERROR_S3_CANCELED else AWS_ERROR_SUCCESS),
                 d_num_parts_delivered = 0, d_num_bytes_delivered = 0,
                 d_bytes_allowed = read_window_running_total m1 - num_bytes_delivery_completed m1,
                 d_incomplete = [], d_completed = [], d_sunk = [], d_progress = []\<rparr>)"

text \<open>A part whose body is complete, or whose delivery failed, is counted and its request released.\<close>

definition finish_part :: "delivery \<Rightarrow> aws_s3_request \<Rightarrow> u64 \<Rightarrow> delivery" where
  "finish_part d request bytes =
     (let c = mr_client (d_meta d);
          m = (d_meta d)\<lparr>mr_client := c\<lparr>cl_num_requests_streaming_response := cl_num_requests_streaming_response c - 1\<rparr>\<rparr>;
          d = d\<lparr>d_meta := m, d_num_parts_delivered := d_num_parts_delivered d + 1\<rparr>
      in if d_error_code d = AWS_ERROR_SUCCESS
         then d\<lparr>d_completed := d_completed d @
                [\<lparr>dt_part_number = rq_part_number request, dt_range_start = rq_part_range_start request,
                  dt_range_end = rq_part_range_end request, dt_bytes = bytes\<rparr>]\<rparr>
         else d)"

text \<open>
  Steps 3 to 6 of the loop body, for a chunk of at least one byte at position \<open>pos\<close> of the object: the
  check of the order, the running checksum, the sink and the counting.
\<close>

definition check_order :: "delivery \<Rightarrow> aws_s3_request \<Rightarrow> u64 \<Rightarrow> u64 \<Rightarrow> delivery" where
  "check_order d request pos len =
     (if \<not> mr_out_of_order_delivery (d_meta d)
      then
        let next = (if rq_part_number request = 1 then pos else next_deliver_range_start (d_meta d))
        in d\<lparr>d_meta := (d_meta d)\<lparr>next_deliver_range_start := next + len\<rparr>,
             d_error_code := (if pos \<noteq> next then AWS_ERROR_INVALID_STATE else d_error_code d)\<rparr>
      else d)"

definition add_to_sum :: "sink_env \<Rightarrow> delivery \<Rightarrow> u8 list \<Rightarrow> delivery" where
  "add_to_sum E d body =
     (case mr_running_response_sum (d_meta d) of
        Some running_sum \<Rightarrow>
          if d_error_code d = AWS_ERROR_SUCCESS \<and> \<not> mr_checksum_combinable (d_meta d)
          then case aws_checksum_update (env_hash E) running_sum body of
              Inr running_sum' \<Rightarrow> d\<lparr>d_meta := (d_meta d)\<lparr>mr_running_response_sum := Some running_sum'\<rparr>\<rparr>
            | Inl e \<Rightarrow> d\<lparr>d_error_code := e\<rparr>
          else d
      | None \<Rightarrow> d)"

definition to_sink :: "sink_env \<Rightarrow> delivery \<Rightarrow> aws_s3_request \<Rightarrow> u64 \<Rightarrow> u8 list \<Rightarrow> delivery" where
  "to_sink E d request pos body =
     (if d_error_code d = AWS_ERROR_SUCCESS
      then
        let (e, m) = s_deliver_body_to_sink E (d_meta d) body pos request
        in d\<lparr>d_meta := m, d_error_code := e, d_sunk := d_sunk d @ [(pos, body)]\<rparr>
      else d)"

definition count_chunk :: "delivery \<Rightarrow> u64 \<Rightarrow> delivery" where
  "count_chunk d len =
     d\<lparr>d_meta := (d_meta d)\<lparr>num_bytes_delivery_completed := num_bytes_delivery_completed (d_meta d) + len\<rparr>,
       d_num_bytes_delivered :=
         (if d_error_code d = AWS_ERROR_SUCCESS then d_num_bytes_delivered d + len else d_num_bytes_delivered d)\<rparr>"

definition deliver_chunk ::
    "sink_env \<Rightarrow> delivery \<Rightarrow> aws_s3_request \<Rightarrow> usize \<Rightarrow> u8 list \<Rightarrow> bool \<Rightarrow> delivery" where
  "deliver_chunk E d request bytes_before response_body delivery_incomplete =
     (let delivery_range_start = rq_part_range_start request + bytes_before;
          len = body_len response_body;
          d = check_order d request delivery_range_start len;
          d = add_to_sum E d response_body;
          d = to_sink E d request delivery_range_start response_body;
          d = count_chunk d len;
          bytes_after = bytes_before + len
      in if \<not> delivery_incomplete \<or> d_error_code d \<noteq> AWS_ERROR_SUCCESS then finish_part d request bytes_after
         else d\<lparr>d_incomplete := EVENT_RESPONSE_BODY request bytes_after # d_incomplete d\<rparr>)"

definition deliver_response_body :: "sink_env \<Rightarrow> delivery \<Rightarrow> aws_s3_request \<Rightarrow> usize \<Rightarrow> delivery option" where
  "deliver_response_body E d request bytes_before =
     (let body = rq_response_body request in
      if body = [] then Some (finish_part d request 0)
      else
        let backpressure = s_should_apply_backpressure (d_meta d) request in
        if \<not> backpressure \<and> bytes_before \<noteq> 0 then None
        else
          let body = (if backpressure then cursor_advance E body bytes_before else body);
              delivery_incomplete = (backpressure \<and> body_len body > d_bytes_allowed d);
              body = (if delivery_incomplete then take (unat (d_bytes_allowed d)) body else body);
              d = (if backpressure then d\<lparr>d_bytes_allowed := d_bytes_allowed d - body_len body\<rparr> else d)
          in if body = [] then Some (d\<lparr>d_incomplete := EVENT_RESPONSE_BODY request bytes_before # d_incomplete d\<rparr>)
             else Some (deliver_chunk E d request bytes_before body delivery_incomplete))"

fun deliver_event :: "sink_env \<Rightarrow> delivery \<Rightarrow> meta_request_event \<Rightarrow> delivery option" where
  "deliver_event E d (EVENT_RESPONSE_BODY request bytes_before) = deliver_response_body E d request bytes_before"
| "deliver_event E d (EVENT_PROGRESS transferred content_length) =
     Some (if d_error_code d = AWS_ERROR_SUCCESS \<and> mr_has_progress_callback (d_meta d) \<and> transferred > 0
           then d\<lparr>d_progress := d_progress d @ [(transferred, content_length)]\<rparr> else d)"
| "deliver_event E d (EVENT_TELEMETRY metrics) = (if mr_has_telemetry_callback (d_meta d) \<and> metrics then Some d else None)"

fun deliver_events :: "sink_env \<Rightarrow> delivery \<Rightarrow> meta_request_event list \<Rightarrow> delivery option" where
  "deliver_events E d [] = Some d"
| "deliver_events E d (event # rest) =
     (case deliver_event E d event of None \<Rightarrow> None | Some d' \<Rightarrow> deliver_events E d' rest)"

text \<open>The loop over the parts delivered by one run of the task.\<close>

fun record_deliveries :: "sink_env \<Rightarrow> bool \<Rightarrow> meta_request \<Rightarrow> delivery_tracking_record list \<Rightarrow> meta_request" where
  "record_deliveries E out_of_order m [] = m"
| "record_deliveries E out_of_order m (completed # rest) =
     (let (e1, m1) = s_mark_part_delivered m (dt_part_number completed);
          m1 = (if e1 \<noteq> AWS_ERROR_SUCCESS then aws_s3_meta_request_set_fail_synced m1 None e1 else m1)
      in if out_of_order
         then
           let (e2, m2) = s_s3_meta_request_record_delivered_part_synced E m1 completed
           in if e2 \<noteq> AWS_ERROR_SUCCESS then aws_s3_meta_request_set_fail_synced m2 None e2
              else record_deliveries E out_of_order m2 rest
         else record_deliveries E out_of_order m1 rest)"

text \<open>The second critical section.\<close>

definition event_delivery_end :: "sink_env \<Rightarrow> delivery \<Rightarrow> meta_request option" where
  "event_delivery_end E d =
     (let m = (d_meta d)\<lparr>io_event_delivery_array := []\<rparr>;
          out_of_order = mr_out_of_order_delivery m;
          m = (if d_error_code d \<noteq> AWS_ERROR_SUCCESS then aws_s3_meta_request_set_fail_synced m None (d_error_code d) else m)
      in if d_incomplete d \<noteq> [] \<and> d_bytes_allowed d \<noteq> 0 then None
         else
           let m = (if d_incomplete d \<noteq> []
                    then
                      let m = m\<lparr>event_delivery_array := rev (d_incomplete d) @ event_delivery_array m\<rparr>
                      in if read_window_running_total m - num_bytes_delivery_completed m > 0 \<and> d_error_code d = AWS_ERROR_SUCCESS
                         then aws_s3_meta_request_add_event_for_delivery_synced m None else m
                    else m);
               m = m\<lparr>num_parts_delivery_completed := num_parts_delivery_completed m + d_num_parts_delivered d\<rparr>;
               m = record_deliveries E out_of_order m (d_completed d);
               m = (if \<not> out_of_order
                    then m\<lparr>num_bytes_delivered := num_bytes_delivered m + d_num_bytes_delivered d,
                           num_bytes_delivered_total := num_bytes_delivered_total m + d_num_bytes_delivered d\<rparr>
                    else m)
           in Some (m\<lparr>event_delivery_active := False\<rparr>))"

text \<open>The task run without interference: the bodies it delivered, in order, and the state after it.\<close>

definition s_s3_meta_request_event_delivery_task ::
    "sink_env \<Rightarrow> meta_request \<Rightarrow> (meta_request \<times> (u64 \<times> u8 list) list) option" where
  "s_s3_meta_request_event_delivery_task E m =
     (case event_delivery_begin m of
        None \<Rightarrow> None
      | Some d \<Rightarrow>
          (case deliver_events E d (io_event_delivery_array (d_meta d)) of
             None \<Rightarrow> None
           | Some d' \<Rightarrow> map_option (\<lambda>m'. (m', d_sunk d')) (event_delivery_end E d')))"

end
