(* ===== verification/S3_Delivery.thy ===== *)
theory S3_Delivery
  imports S3_Meta_Request "HOL-Library.Multiset"
begin

section \<open>Delivering bodies: order, window and accounting\<close>

text \<open>
  The properties of \<open>S3_Meta_Request\<close>: bodies that complete in any order are handed to the user as
  one stream of bytes in part order and never beyond the read window; the mask accepts exactly
  the runs that deliver every part once; the contiguous prefix counts the bytes of the parts
  before the first gap; the event delivery task runs to its end on events it can handle; and a finished meta
  request delivers nothing more.

  Assumptions on the code that is called: \<open>cursor_ok\<close> (a byte cursor advances by at most its
  length) and \<open>queue_ok\<close> (a priority queue gives out the least key first).
\<close>

subsection \<open>Assumptions on other libraries\<close>

text \<open>
  \<open>aws_byte_cursor_advance\<close> moves the cursor if it has that many bytes and the count is at most
  \<open>SIZE_MAX / 2\<close>.
\<close>

definition cursor_ok :: "(u8 list \<Rightarrow> usize \<Rightarrow> u8 list) \<Rightarrow> bool" where
  "cursor_ok f \<longleftrightarrow> (\<forall>body n. unat n \<le> length body \<longrightarrow> unat n < 2 ^ 63 \<longrightarrow> f body n = drop (unat n) body)"

text \<open>Pushing to a priority queue keeps its elements and their order.\<close>

definition queue_ok :: "('a \<Rightarrow> 'k::linorder) \<Rightarrow> ('a \<Rightarrow> 'a list \<Rightarrow> 'a list result) \<Rightarrow> bool" where
  "queue_ok key push \<longleftrightarrow>
     (\<forall>x q. sorted (map key q) \<longrightarrow> (\<exists>q'. push x q = Inr q' \<and> mset q' = add_mset x (mset q) \<and> sorted (map key q')))"

subsection \<open>A concrete meta request\<close>

text \<open>
  For the examples: a download in order to a callback, with backpressure and a window of three
  bytes, and an environment in which every call succeeds.
\<close>

definition example_request :: "u32 \<Rightarrow> u64 \<Rightarrow> u8 list \<Rightarrow> aws_s3_request" where
  "example_request part start body =
     (aws_s3_request_new 2 False AWS_S3_AUTO_RANGE_GET_REQUEST_TYPE_GET_OBJECT_WITH_RANGE AWS_S3_REQUEST_TYPE_GET_OBJECT part 0)
       \<lparr>rq_part_range_start := start, rq_part_range_end := start + of_nat (length body) - 1, rq_response_body := body\<rparr>"

definition example_client :: aws_s3_client where
  "example_client = \<lparr>cl_enable_read_backpressure = True, cl_force_sequential_requests = False, cl_part_size_set = True,
     cl_optimal_range_size = 2, cl_out_of_order_delivery = AWS_TRIBOOL_UNSET, cl_out_of_order_delivery_env = AWS_TRIBOOL_UNSET,
     cl_num_requests_streaming_response = 2, cl_num_requests_stream_queued_waiting = 0, cl_num_pending_writes = 0,
     cl_ideal_connection_count = 2, cl_max_active_connections_override = 0, cl_disk_connections = None\<rparr>"

definition example_meta_request :: meta_request where
  "example_meta_request =
     \<lparr>mr_type = AWS_S3_META_REQUEST_TYPE_GET_OBJECT, mr_part_size = 2, mr_max_active_connections_override = 0,
      mr_is_express = False, mr_client = example_client, mr_has_headers_callback = False, mr_has_body_callback = True,
      mr_has_body_callback_ex = False, mr_has_progress_callback = False, mr_has_telemetry_callback = False,
      mr_recv_filepath = False, mr_recv_file_write_fd_slots = False, mr_recv_file_direct_io = False,
      mr_recv_file_base_offset = 0, mr_recv_buffer_capacity = None, mr_recv_buffer_expected_len = 0,
      mr_recv_buffer_len = 0, mr_recv_file_delete_on_failure = False, mr_recv_file_finalized = False,
      mr_has_finish_callback = True, mr_on_error_resume_token = False, mr_pause_complete_callback = False,
      mr_request_body_using_async_writes = False, mr_fio_streaming = False, mr_disk_connections = None,
      mr_requested_range_start = 0, mr_requested_range_start_resolved = True, mr_checksum_config = zero_checksum_config_storage,
      mr_response_header_checksum = '''', mr_running_response_sum = None,
      mr_checksum_combinable = False, mr_combine_slots = None, mr_combine_slot_count = 0, mr_buffer_pool_optimized = False,
      mr_out_of_order_delivery_override = AWS_TRIBOOL_UNSET, mr_out_of_order_delivery = False,
      pending_body_streaming_requests = [], mr_state = AWS_S3_META_REQUEST_STATE_ACTIVE,
      read_window_running_total = 3, next_streaming_part = 1, num_parts_delivery_sent = 0,
      num_parts_delivery_completed = 0, parts_delivered_mask = None, parts_delivered_mask_length = 0,
      parts_delivered_mask_num_parts = 0, num_bytes_delivered = 0, num_bytes_delivered_total = 0,
      next_contiguous_delivered_part = 1, next_contiguous_delivered_range_start = 0,
      completed_deliveries_tracker = [], event_delivery_task_scheduled = False, event_delivery_array = [],
      event_delivery_active = False,
      finish_result = \<lparr>res_error_response_headers = None, res_error_response_body = None,
        res_error_response_operation_name = None, res_response_status = 0, res_error_code = AWS_ERROR_SUCCESS,
        res_did_validate = False, res_validation_algorithm = AWS_SCA_NONE\<rparr>,
      finish_result_set = False, async_pause_requested = False, cancellable_http_streams = [],
      pending_buffer_futures = [], io_event_delivery_array = [], next_deliver_range_start = 0,
      num_bytes_delivery_completed = 0, next_read_offset = 0,
      async_write = \<lparr>aw_ready_to_send = False, aw_eof = False, aw_buffered_data = [], aw_buffered_data_ticket = None,
        aw_buffered_data_ticket_future = None, aw_waker = None\<rparr>\<rparr>"

definition example_env :: sink_env where
  "example_env =
     \<lparr>env_math = example_math, push_request = (\<lambda>r q. Inr (insort_key rq_part_number r q)),
      push_delivery = (\<lambda>r q. Inr (insort_key dt_part_number r q)), cursor_advance = (\<lambda>body n. drop (unat n) body),
      env_hash = example_hash, file_write = (\<lambda>pos body. AWS_ERROR_SUCCESS),
      body_callback = (\<lambda>body pos. AWS_ERROR_SUCCESS), body_callback_ex = (\<lambda>body pos t. AWS_ERROR_SUCCESS)\<rparr>"

text \<open>Two parts of two bytes are queued.\<close>

definition example_queued :: meta_request where
  "example_queued = example_meta_request\<lparr>event_delivery_array :=
     [EVENT_RESPONSE_BODY (example_request 1 0 [10, 11]) 0, EVENT_RESPONSE_BODY (example_request 2 2 [12, 13]) 0]\<rparr>"

text \<open>Three parts have arrived, the third one is missing.\<close>

definition example_arrivals :: "aws_s3_request list" where
  "example_arrivals = [example_request 2 2 [12, 13], example_request 1 0 [10, 11], example_request 4 6 [16, 17]]"

text \<open>A cancelled download whose window is used up.\<close>

definition example_cancelled :: meta_request where
  "example_cancelled = example_meta_request\<lparr>finish_result_set := True, num_bytes_delivery_completed := 3,
     event_delivery_array := [EVENT_RESPONSE_BODY (example_request 2 2 [12, 13]) 1]\<rparr>"

lemma example_env_ok:
  "cursor_ok (cursor_advance example_env)" "queue_ok rq_part_number (push_request example_env)"
  "queue_ok dt_part_number (push_delivery example_env)"
  by (auto simp: example_env_def cursor_ok_def queue_ok_def sorted_insort_key)

lemmas example_defs = example_queued_def example_meta_request_def example_client_def example_request_def aws_s3_request_new_def

subsection \<open>The configuration of a meta request\<close>

text \<open>
  The fields the delivery reads and none of its steps writes. The running checksum, which it does
  write, stays usable.
\<close>

abbreviation sum_good :: "meta_request \<Rightarrow> bool" where
  "sum_good m \<equiv> pred_option cs_good (mr_running_response_sum m)"

definition same_config :: "meta_request \<Rightarrow> meta_request \<Rightarrow> bool" where
  "same_config m m' \<longleftrightarrow>
     mr_type m' = mr_type m \<and> mr_has_body_callback m' = mr_has_body_callback m \<and>
     mr_has_body_callback_ex m' = mr_has_body_callback_ex m \<and>
     mr_has_telemetry_callback m' = mr_has_telemetry_callback m \<and>
     mr_recv_buffer_capacity m' = mr_recv_buffer_capacity m \<and> mr_recv_filepath m' = mr_recv_filepath m \<and>
     mr_out_of_order_delivery m' = mr_out_of_order_delivery m \<and>
     mr_checksum_combinable m' = mr_checksum_combinable m \<and>
     io_event_delivery_array m' = io_event_delivery_array m \<and>
     cl_enable_read_backpressure (mr_client m') = cl_enable_read_backpressure (mr_client m) \<and>
     mr_part_size m' = mr_part_size m \<and> mr_state m' = mr_state m \<and>
     pending_body_streaming_requests m' = pending_body_streaming_requests m \<and>
     num_parts_delivery_sent m' = num_parts_delivery_sent m \<and> next_streaming_part m' = next_streaming_part m \<and>
     map_option length (parts_delivered_mask m') = map_option length (parts_delivered_mask m) \<and>
     parts_delivered_mask_length m' = parts_delivered_mask_length m \<and>
     parts_delivered_mask_num_parts m' = parts_delivered_mask_num_parts m \<and>
     (finish_result_set m \<longrightarrow> finish_result_set m') \<and> (sum_good m \<longrightarrow> sum_good m')"

lemma same_config_refl [simp]: "same_config m m"
  by (simp add: same_config_def)

lemma same_config_trans: "same_config m m' \<Longrightarrow> same_config m' m'' \<Longrightarrow> same_config m m''"
  by (simp add: same_config_def)

lemma update_keeps_good:
  "aws_checksum_update H s body = Inr s' \<Longrightarrow> cs_good s' = cs_good s"
  by (auto simp: aws_checksum_update_def s_hash_update_def s_xxhash_update_def s_crc32_checksum_update_def
      s_crc32c_checksum_update_def s_crc64nvme_checksum_update_def split: aws_checksum_vtable.splits sum.splits if_splits)

lemma same_config_backpressure:
  "same_config m m' \<Longrightarrow> s_should_apply_backpressure m' r = s_should_apply_backpressure m r"
  by (simp add: same_config_def s_should_apply_backpressure_def)

lemma same_config_add_event:
  "same_config m (aws_s3_meta_request_add_event_for_delivery_synced m e)"
  by (cases e) (simp_all add: aws_s3_meta_request_add_event_for_delivery_synced_def same_config_def Let_def)

lemma same_config_increment:
  "same_config m (aws_s3_meta_request_increment_read_window M m n)"
  unfolding aws_s3_meta_request_increment_read_window_def
  by (auto intro!: same_config_trans [OF _ same_config_add_event]) (simp add: same_config_def)

lemma same_config_sink:
  "s_deliver_body_to_sink E m body pos r = (e, m') \<Longrightarrow> same_config m m'"
  unfolding s_deliver_body_to_sink_def
  by (auto simp: same_config_increment Let_def split: if_splits sum.splits)

lemma same_config_finish_part:
  "same_config (d_meta d) (d_meta (finish_part d r n))"
  by (simp add: finish_part_def same_config_def Let_def)

lemma finish_part_keeps [simp]:
  "d_error_code (finish_part d r n) = d_error_code d"
  "d_bytes_allowed (finish_part d r n) = d_bytes_allowed d"
  "d_incomplete (finish_part d r n) = d_incomplete d"
  "d_sunk (finish_part d r n) = d_sunk d"
  "d_num_bytes_delivered (finish_part d r n) = d_num_bytes_delivered d"
  by (simp_all add: finish_part_def Let_def)

lemma stages_keep [simp]:
  "d_bytes_allowed (check_order d r pos n) = d_bytes_allowed d"
  "d_incomplete (check_order d r pos n) = d_incomplete d"
  "d_bytes_allowed (add_to_sum E d body) = d_bytes_allowed d"
  "d_incomplete (add_to_sum E d body) = d_incomplete d"
  "d_bytes_allowed (to_sink E d r pos body) = d_bytes_allowed d"
  "d_incomplete (to_sink E d r pos body) = d_incomplete d"
  "d_bytes_allowed (count_chunk d n) = d_bytes_allowed d"
  "d_incomplete (count_chunk d n) = d_incomplete d"
  by (simp_all add: check_order_def add_to_sum_def to_sink_def count_chunk_def Let_def
      split: option.split sum.split prod.split)

lemma same_config_stages:
  "same_config (d_meta d) (d_meta (check_order d r pos n))"
  "same_config (d_meta d) (d_meta (add_to_sum E d body))"
  "same_config (d_meta d) (d_meta (to_sink E d r pos body))"
  "same_config (d_meta d) (d_meta (count_chunk d n))"
     apply (simp add: check_order_def same_config_def Let_def)
    apply (auto simp: add_to_sum_def same_config_def update_keeps_good split: option.split sum.split)[1]
   apply (simp add: to_sink_def same_config_sink split: prod.split)
  apply (simp add: count_chunk_def same_config_def)
  done

lemma same_config_chunk:
  "same_config (d_meta d) (d_meta (deliver_chunk E d r b body incomplete))"
proof -
  define pos where "pos = rq_part_range_start r + b"
  define d1 where "d1 = check_order d r pos (body_len body)"
  define d2 where "d2 = add_to_sum E d1 body"
  define d3 where "d3 = to_sink E d2 r pos body"
  have "same_config (d_meta d) (d_meta (count_chunk d3 (body_len body)))"
    unfolding d3_def d2_def d1_def by (meson same_config_trans same_config_stages)
  then show ?thesis
    unfolding deliver_chunk_def Let_def pos_def [symmetric] d1_def [symmetric] d2_def [symmetric] d3_def [symmetric]
    by (auto intro: same_config_trans [OF _ same_config_finish_part])
qed

text \<open>No step of the delivery queues an event: a sink only asks for another run of the task.\<close>

lemma add_no_event [simp]:
  "event_delivery_array (aws_s3_meta_request_add_event_for_delivery_synced m None) = event_delivery_array m"
  by (simp add: aws_s3_meta_request_add_event_for_delivery_synced_def)

lemma increment_keeps_array [simp]:
  "event_delivery_array (aws_s3_meta_request_increment_read_window M m n) = event_delivery_array m"
  by (simp add: aws_s3_meta_request_increment_read_window_def)

lemma sink_keeps_array:
  "s_deliver_body_to_sink E m body pos r = (e, m') \<Longrightarrow> event_delivery_array m' = event_delivery_array m"
  unfolding s_deliver_body_to_sink_def by (auto simp: Let_def split: if_splits sum.splits)

lemma stages_keep_array [simp]:
  "event_delivery_array (d_meta (check_order d r pos n)) = event_delivery_array (d_meta d)"
  "event_delivery_array (d_meta (add_to_sum E d body)) = event_delivery_array (d_meta d)"
  "event_delivery_array (d_meta (to_sink E d r pos body)) = event_delivery_array (d_meta d)"
  "event_delivery_array (d_meta (count_chunk d n)) = event_delivery_array (d_meta d)"
  "event_delivery_array (d_meta (finish_part d r k)) = event_delivery_array (d_meta d)"
  by (simp_all add: check_order_def add_to_sum_def to_sink_def count_chunk_def finish_part_def sink_keeps_array Let_def
      split: option.split sum.split prod.split)

lemma chunk_keeps_array [simp]:
  "event_delivery_array (d_meta (deliver_chunk E d r b body inc)) = event_delivery_array (d_meta d)"
  by (simp add: deliver_chunk_def Let_def)

lemma deliver_events_keeps_array:
  "deliver_events E d es = Some d' \<Longrightarrow> event_delivery_array (d_meta d') = event_delivery_array (d_meta d)"
proof (induction es arbitrary: d)
  case (Cons e es)
  then obtain d1 where 1: "deliver_event E d e = Some d1" "deliver_events E d1 es = Some d'"
    by (auto split: option.splits)
  then have "event_delivery_array (d_meta d1) = event_delivery_array (d_meta d)"
    by (cases e) (auto simp: deliver_response_body_def Let_def split: if_splits)
  then show ?case using Cons.IH [OF 1(2)] by simp
qed simp

subsection \<open>No assertion of the delivery task fails\<close>

text \<open>
  An event the task can handle: a body event that was partly delivered belongs to a request with
  backpressure and has bytes left, and a telemetry event has metrics and there is a callback for it.
\<close>

fun event_ok :: "meta_request \<Rightarrow> meta_request_event \<Rightarrow> bool" where
  "event_ok m (EVENT_RESPONSE_BODY r b) \<longleftrightarrow>
     length (rq_response_body r) < 2 ^ 63 \<and>
     (if s_should_apply_backpressure m r then rq_response_body r = [] \<or> unat b < length (rq_response_body r) else b = 0)"
| "event_ok m (EVENT_PROGRESS n l) \<longleftrightarrow> True"
| "event_ok m (EVENT_TELEMETRY metrics) \<longleftrightarrow> mr_has_telemetry_callback m \<and> metrics"

lemma event_ok_cong:
  assumes "mr_type m' = mr_type m" "mr_has_body_callback m' = mr_has_body_callback m"
    and "mr_has_telemetry_callback m' = mr_has_telemetry_callback m"
    and "cl_enable_read_backpressure (mr_client m') = cl_enable_read_backpressure (mr_client m)"
  shows "event_ok m' e = event_ok m e"
  using assms by (cases e) (simp_all add: s_should_apply_backpressure_def)

text \<open>What holds of the local variables between two events.\<close>

definition delivery_ok :: "meta_request \<Rightarrow> delivery \<Rightarrow> bool" where
  "delivery_ok m d \<longleftrightarrow>
     same_config m (d_meta d) \<and> list_all (event_ok m) (d_incomplete d) \<and>
     (d_incomplete d \<noteq> [] \<longrightarrow> d_bytes_allowed d = 0)"

lemma unat_body_len: "length body < 2 ^ 63 \<Longrightarrow> unat (body_len body) = length body"
  by (simp add: body_len_def unat_of_nat)

text \<open>What backpressure leaves of a body: the bytes left, cut to the window, and the window after it.\<close>

lemma window_cut:
  assumes "cursor_ok (cursor_advance E)" "length body < 2 ^ 63" "unat b < length body"
    and "rest = cursor_advance E body b"
  shows "rest = drop (unat b) body"
    and "(body_len rest > a) = (unat a < length body - unat b)"
    and "\<not> body_len rest > a \<Longrightarrow> unat (a - body_len rest) = unat a - (length body - unat b)"
    and "body_len rest > a \<Longrightarrow> body_len (take (unat a) rest) = a"
proof -
  show rest: "rest = drop (unat b) body"
    using assms by (simp add: cursor_ok_def)
  have len: "unat (body_len rest) = length body - unat b"
    using assms(2) by (simp add: rest unat_body_len)
  show "(body_len rest > a) = (unat a < length body - unat b)"
    by (simp add: word_less_nat_alt len)
  show "\<not> body_len rest > a \<Longrightarrow> unat (a - body_len rest) = unat a - (length body - unat b)"
    by (simp add: unat_sub_if' len word_less_nat_alt)
  show "body_len rest > a \<Longrightarrow> body_len (take (unat a) rest) = a"
    using len by (simp add: word_less_nat_alt body_len_def rest)
qed

lemma delivery_ok_chunk:
  assumes "delivery_ok m d" "d_incomplete d = [] \<or> d_bytes_allowed d = 0"
    and "inc \<Longrightarrow> d_bytes_allowed d = 0 \<and> event_ok m (EVENT_RESPONSE_BODY r (b + body_len body))"
  shows "delivery_ok m (deliver_chunk E d r b body inc)"
proof -
  have "same_config m (d_meta (deliver_chunk E d r b body inc))"
    using assms(1) same_config_chunk same_config_trans unfolding delivery_ok_def by blast
  then show ?thesis
    using assms unfolding delivery_ok_def deliver_chunk_def Let_def by (simp split: if_split del: event_ok.simps)
qed

lemma deliver_response_body_ok:
  assumes "cursor_ok (cursor_advance E)" "delivery_ok m d" "event_ok m (EVENT_RESPONSE_BODY r b)"
  shows "\<exists>d'. deliver_response_body E d r b = Some d' \<and> delivery_ok m d'"
proof -
  let ?body = "rq_response_body r" and ?bp = "s_should_apply_backpressure m r" and ?a = "d_bytes_allowed d"
  have bp: "s_should_apply_backpressure (d_meta d) r = ?bp"
    using assms(2) by (simp add: delivery_ok_def same_config_backpressure)
  consider (empty) "?body = []" | (free) "?body \<noteq> []" "\<not> ?bp" | (window) "?body \<noteq> []" "?bp" by blast
  then show ?thesis
  proof cases
    case empty
    have "same_config m (d_meta (finish_part d r 0))"
      using assms(2) same_config_finish_part same_config_trans unfolding delivery_ok_def by blast
    then show ?thesis
      using assms(2) empty by (simp add: deliver_response_body_def delivery_ok_def)
  next
    case free
    have "delivery_ok m (deliver_chunk E d r b ?body False)"
      using assms(2) by (intro delivery_ok_chunk) (auto simp: delivery_ok_def)
    then show ?thesis
      using assms(3) free bp by (simp add: deliver_response_body_def)
  next
    case window
    then have b: "unat b < length ?body" and l: "length ?body < 2 ^ 63" using assms(3) by auto
    note rest = window_cut(1) [OF assms(1) l b refl]
    note cut = window_cut(2-4) [OF assms(1) l b refl, of ?a]
    show ?thesis
    proof (cases "unat ?a < length ?body - unat b")
      case True
      let ?rest = "take (unat ?a) (cursor_advance E ?body b)" and ?d = "d\<lparr>d_bytes_allowed := 0\<rparr>"
      have inc: "body_len (cursor_advance E ?body b) > ?a" using cut(1) True by simp
      have ok: "delivery_ok m ?d" using assms(2) by (simp add: delivery_ok_def)
      have sum: "unat (b + ?a) = unat b + unat ?a"
        using True l by (intro unat_add_nowrap) simp
      have "event_ok m (EVENT_RESPONSE_BODY r (b + body_len ?rest))"
        using window(2) l less_diff_conv [of "unat ?a"] True cut(3) [OF inc] sum by (simp add: add.commute)
      then have "delivery_ok m (deliver_chunk E ?d r b ?rest True)"
        by (intro delivery_ok_chunk ok) auto
      moreover have "delivery_ok m (?d\<lparr>d_incomplete := EVENT_RESPONSE_BODY r b # d_incomplete d\<rparr>)"
        using assms(3) ok by (simp add: delivery_ok_def)
      ultimately show ?thesis
        using window inc bp cut(3) [OF inc] by (simp add: deliver_response_body_def Let_def)
    next
      case False
      let ?rest = "cursor_advance E ?body b" and ?d = "d\<lparr>d_bytes_allowed := ?a - body_len (cursor_advance E ?body b)\<rparr>"
      have inc: "\<not> body_len ?rest > ?a" using cut(1) False by simp
      have "d_incomplete d = []" using assms(2) False b by (auto simp: delivery_ok_def)
      then have "delivery_ok m (deliver_chunk E ?d r b ?rest False)"
        using assms(2) by (intro delivery_ok_chunk) (auto simp: delivery_ok_def)
      then show ?thesis
        using window inc bp b rest by (simp add: deliver_response_body_def Let_def)
    qed
  qed
qed

lemma deliver_events_ok:
  assumes "cursor_ok (cursor_advance E)" "delivery_ok m d" "list_all (event_ok m) es"
  shows "\<exists>d'. deliver_events E d es = Some d' \<and> delivery_ok m d'"
  using assms(2,3)
proof (induction es arbitrary: d)
  case (Cons e es)
  have "\<exists>d'. deliver_event E d e = Some d' \<and> delivery_ok m d'"
    using Cons.prems deliver_response_body_ok [OF assms(1)]
    by (cases e) (auto simp: delivery_ok_def same_config_def)
  then show ?case
    using Cons.IH Cons.prems(2) by auto
qed simp

text \<open>The second critical section keeps the configuration, the events and the position.\<close>

definition same_stream :: "meta_request \<Rightarrow> meta_request \<Rightarrow> bool" where
  "same_stream m m' \<longleftrightarrow>
     event_delivery_array m' = event_delivery_array m \<and> next_deliver_range_start m' = next_deliver_range_start m \<and>
     num_parts_delivery_completed m' = num_parts_delivery_completed m"

lemma same_stream_refl [simp]: "same_stream m m"
  by (simp add: same_stream_def)

lemma same_stream_trans: "same_stream m m' \<Longrightarrow> same_stream m' m'' \<Longrightarrow> same_stream m m''"
  by (simp add: same_stream_def)

lemma set_fail_keeps:
  "same_config m (aws_s3_meta_request_set_fail_synced m r e)"
  "same_stream m (aws_s3_meta_request_set_fail_synced m r e)"
  by (simp_all add: aws_s3_meta_request_set_fail_synced_def same_config_def same_stream_def Let_def split: option.split)

lemma mark_keeps:
  "same_config m (snd (s_mark_part_delivered m p))"
  "same_stream m (snd (s_mark_part_delivered m p))"
  by (simp_all add: s_mark_part_delivered_def same_config_def same_stream_def Let_def split: option.split)

lemma extend_keeps:
  "same_config m (snd (s_s3_meta_request_extend_delivered_prefix_synced m r))"
  "same_stream m (snd (s_s3_meta_request_extend_delivered_prefix_synced m r))"
  by (simp_all add: s_s3_meta_request_extend_delivered_prefix_synced_def same_config_def same_stream_def Let_def)

lemma drain_keeps:
  "same_config m (snd (drain_deliveries q m)) \<and> same_stream m (snd (drain_deliveries q m))"
proof (induction q arbitrary: m)
  case (Cons r q)
  obtain e m' where ext: "s_s3_meta_request_extend_delivered_prefix_synced m r = (e, m')" by fastforce
  have "same_config m m'" "same_stream m m'" using extend_keeps [of m r] ext by auto
  then show ?case
    using Cons.IH [of m'] ext by (auto simp: same_config_def same_stream_def)
qed (simp add: same_config_def same_stream_def)

lemma record_keeps:
  "same_config m (snd (s_s3_meta_request_record_delivered_part_synced E m r))"
  "same_stream m (snd (s_s3_meta_request_record_delivered_part_synced E m r))"
proof -
  let ?m = "m\<lparr>num_bytes_delivered_total := num_bytes_delivered_total m + dt_bytes r\<rparr>"
  obtain e m' where ext: "s_s3_meta_request_extend_delivered_prefix_synced ?m r = (e, m')" by fastforce
  have m: "same_config m ?m" "same_stream m ?m" by (simp_all add: same_config_def same_stream_def)
  have m': "same_config ?m m'" "same_stream ?m m'" using extend_keeps [of ?m r] ext by auto
  have d: "same_config m' (snd (drain_deliveries q m'))"
    "same_stream m' (snd (drain_deliveries q m'))" for q
    using drain_keeps by auto
  have "snd (s_s3_meta_request_record_delivered_part_synced E m r) =
      (if dt_part_number r \<noteq> next_contiguous_delivered_part m
       then case push_delivery E r (completed_deliveries_tracker m) of
           Inr q \<Rightarrow> ?m\<lparr>completed_deliveries_tracker := q\<rparr> | Inl e \<Rightarrow> ?m
       else if e \<noteq> AWS_ERROR_SUCCESS then m' else snd (drain_deliveries (completed_deliveries_tracker m') m'))"
    using ext by (simp add: s_s3_meta_request_record_delivered_part_synced_def Let_def split: sum.split)
  then show "same_config m (snd (s_s3_meta_request_record_delivered_part_synced E m r))"
    "same_stream m (snd (s_s3_meta_request_record_delivered_part_synced E m r))"
    using m' d(2) same_config_trans [OF m(1) same_config_trans [OF m'(1) d(1)]] same_config_trans [OF m(1) m'(1)]
    by (auto split: sum.splits if_splits simp: same_config_def same_stream_def)
qed

lemma record_deliveries_keeps:
  "same_config m (record_deliveries E ooo m ds) \<and>
   same_stream m (record_deliveries E ooo m ds)"
proof (induction ds arbitrary: m)
  case (Cons r ds)
  obtain e1 m1 where 1: "s_mark_part_delivered m (dt_part_number r) = (e1, m1)" by fastforce
  define m1' where "m1' = (if e1 \<noteq> AWS_ERROR_SUCCESS then aws_s3_meta_request_set_fail_synced m1 None e1 else m1)"
  obtain e2 m2 where 2: "s_s3_meta_request_record_delivered_part_synced E m1' r = (e2, m2)" by fastforce
  have "same_config m m1'" "same_stream m m1'"
    using mark_keeps [of m "dt_part_number r"] 1 same_config_trans [OF _ set_fail_keeps(1)] same_stream_trans [OF _ set_fail_keeps(2)]
    by (simp_all add: m1'_def)
  moreover have "same_config m1' m2" "same_stream m1' m2"
    using record_keeps [where m = m1' and E = E and r = r] 2 by auto
  moreover have "record_deliveries E ooo m (r # ds) =
      (if ooo then if e2 \<noteq> AWS_ERROR_SUCCESS then aws_s3_meta_request_set_fail_synced m2 None e2
                   else record_deliveries E ooo m2 ds
       else record_deliveries E ooo m1' ds)"
    using 1 2 by (simp add: m1'_def Let_def)
  ultimately show ?case
    using Cons.IH [of m1'] Cons.IH [of m2] set_fail_keeps [of m2 None e2]
    by (auto intro: same_config_trans same_stream_trans split: if_split)
qed simp

lemma event_delivery_end_ok:
  assumes "d_incomplete d \<noteq> [] \<longrightarrow> d_bytes_allowed d = 0"
  obtains m' where "event_delivery_end E d = Some m'"
    "same_config ((d_meta d)\<lparr>io_event_delivery_array := []\<rparr>) m'"
    "event_delivery_array m' = rev (d_incomplete d) @ event_delivery_array (d_meta d)" "\<not> event_delivery_active m'"
    "next_deliver_range_start m' = next_deliver_range_start (d_meta d)"
    "num_parts_delivery_completed m' = num_parts_delivery_completed (d_meta d) + d_num_parts_delivered d"
proof -
  define m0 where "m0 = (d_meta d)\<lparr>io_event_delivery_array := []\<rparr>"
  define m1 where "m1 = (if d_error_code d \<noteq> AWS_ERROR_SUCCESS
    then aws_s3_meta_request_set_fail_synced m0 None (d_error_code d) else m0)"
  define m2 where "m2 = (if d_incomplete d \<noteq> []
    then let m = m1\<lparr>event_delivery_array := rev (d_incomplete d) @ event_delivery_array m1\<rparr>
         in if read_window_running_total m - num_bytes_delivery_completed m > 0 \<and> d_error_code d = AWS_ERROR_SUCCESS
            then aws_s3_meta_request_add_event_for_delivery_synced m None else m
    else m1)"
  define m3 where "m3 = record_deliveries E (mr_out_of_order_delivery m0)
    (m2\<lparr>num_parts_delivery_completed := num_parts_delivery_completed m2 + d_num_parts_delivered d\<rparr>) (d_completed d)"
  have 1: "same_config m0 m1 \<and> same_stream m0 m1"
    using set_fail_keeps by (simp add: m1_def same_stream_def)
  have 2: "same_config m1 m2 \<and> event_delivery_array m2 = rev (d_incomplete d) @ event_delivery_array m1 \<and>
      next_deliver_range_start m2 = next_deliver_range_start m1 \<and>
      num_parts_delivery_completed m2 = num_parts_delivery_completed m1"
    by (auto simp: m2_def same_config_def aws_s3_meta_request_add_event_for_delivery_synced_def Let_def)
  have 3: "same_config m2 m3 \<and> event_delivery_array m3 = event_delivery_array m2 \<and>
      next_deliver_range_start m3 = next_deliver_range_start m2 \<and>
      num_parts_delivery_completed m3 = num_parts_delivery_completed m2 + d_num_parts_delivered d"
    using record_deliveries_keeps [of "m2\<lparr>num_parts_delivery_completed := num_parts_delivery_completed m2 + d_num_parts_delivered d\<rparr>"]
    by (simp add: m3_def same_config_def same_stream_def)
  define m4 where "m4 = (if \<not> mr_out_of_order_delivery m0
    then m3\<lparr>num_bytes_delivered := num_bytes_delivered m3 + d_num_bytes_delivered d,
            num_bytes_delivered_total := num_bytes_delivered_total m3 + d_num_bytes_delivered d\<rparr> else m3)"
  have 4: "same_config m3 m4 \<and> same_stream m3 m4"
    by (simp add: m4_def same_config_def same_stream_def)
  have eq: "event_delivery_end E d = Some (m4\<lparr>event_delivery_active := False\<rparr>)"
    unfolding event_delivery_end_def Let_def m4_def m3_def m2_def m1_def m0_def
    using assms by (cases "d_incomplete d = []") simp_all
  have "same_config m0 m4" using 1 2 3 4 same_config_trans by blast
  then have "same_config m0 (m4\<lparr>event_delivery_active := False\<rparr>)" by (simp add: same_config_def)
  then show thesis
    using that [OF eq] 1 2 3 4 unfolding m0_def same_stream_def by simp
qed

lemma begin_some:
  assumes "io_event_delivery_array m = []"
  obtains d where "event_delivery_begin m = Some d"
    "d_meta d = m\<lparr>io_event_delivery_array := event_delivery_array m, event_delivery_array := [],
                  event_delivery_active := True, event_delivery_task_scheduled := False\<rparr>"
    "d_error_code d = (if finish_result_set m then AWS_ERROR_S3_CANCELED else AWS_ERROR_SUCCESS)"
    "d_bytes_allowed d = read_window_running_total m - num_bytes_delivery_completed m"
    "d_incomplete d = []" "d_completed d = []" "d_sunk d = []" "d_num_bytes_delivered d = 0"
    "d_num_parts_delivered d = 0"
  using assms by (simp add: event_delivery_begin_def aws_s3_meta_request_has_finish_result_synced_def)

lemma task_parts:
  assumes "cursor_ok (cursor_advance E)" "io_event_delivery_array m = []" "list_all (event_ok m) (event_delivery_array m)"
  obtains d d' m' where "event_delivery_begin m = Some d" "deliver_events E d (event_delivery_array m) = Some d'"
    "delivery_ok (d_meta d) d'" "event_delivery_end E d' = Some m'"
    "s_s3_meta_request_event_delivery_task E m = Some (m', d_sunk d')"
    "same_config ((d_meta d')\<lparr>io_event_delivery_array := []\<rparr>) m'" "event_delivery_array m' = rev (d_incomplete d')"
    "\<not> event_delivery_active m'" "next_deliver_range_start m' = next_deliver_range_start (d_meta d')"
    "num_parts_delivery_completed m' = num_parts_delivery_completed (d_meta d') + d_num_parts_delivered d'"
proof -
  obtain d where d: "event_delivery_begin m = Some d"
    "d_meta d = m\<lparr>io_event_delivery_array := event_delivery_array m, event_delivery_array := [],
                  event_delivery_active := True, event_delivery_task_scheduled := False\<rparr>" "d_incomplete d = []"
    using begin_some [OF assms(2)] by metis
  have "list_all (event_ok (d_meta d)) (event_delivery_array m)"
    using assms(3) event_ok_cong [of "d_meta d" m] by (simp add: d(2) list_all_iff)
  then obtain d' where d': "deliver_events E d (event_delivery_array m) = Some d'" "delivery_ok (d_meta d) d'"
    using deliver_events_ok [OF assms(1), of "d_meta d" d] d(3) by (auto simp: delivery_ok_def)
  obtain m' where m': "event_delivery_end E d' = Some m'"
    "same_config ((d_meta d')\<lparr>io_event_delivery_array := []\<rparr>) m'"
    "event_delivery_array m' = rev (d_incomplete d') @ event_delivery_array (d_meta d')" "\<not> event_delivery_active m'"
    "next_deliver_range_start m' = next_deliver_range_start (d_meta d')"
    "num_parts_delivery_completed m' = num_parts_delivery_completed (d_meta d') + d_num_parts_delivered d'"
    using event_delivery_end_ok [of d'] d'(2) unfolding delivery_ok_def by metis
  show thesis
    using that [OF d(1) d' m'(1) _ m'(2)] m' d d' deliver_events_keeps_array [OF d'(1)]
    by (simp add: s_s3_meta_request_event_delivery_task_def)
qed

lemma task_events_ok:
  assumes "cursor_ok (cursor_advance E)" "io_event_delivery_array m = []"
    and "list_all (event_ok m) (event_delivery_array m)"
  shows "\<exists>m' sunk. s_s3_meta_request_event_delivery_task E m = Some (m', sunk) \<and>
           io_event_delivery_array m' = [] \<and> \<not> event_delivery_active m' \<and>
           list_all (event_ok m') (event_delivery_array m')"
proof -
  obtain d d' m' where "event_delivery_begin m = Some d" "deliver_events E d (event_delivery_array m) = Some d'"
    and ok: "delivery_ok (d_meta d) d'" and "event_delivery_end E d' = Some m'"
    and run: "s_s3_meta_request_event_delivery_task E m = Some (m', d_sunk d')"
      "same_config ((d_meta d')\<lparr>io_event_delivery_array := []\<rparr>) m'" "event_delivery_array m' = rev (d_incomplete d')"
      "\<not> event_delivery_active m'" "next_deliver_range_start m' = next_deliver_range_start (d_meta d')"
    by (rule task_parts [OF assms])
  have "same_config (d_meta d) (d_meta d')" using ok by (simp add: delivery_ok_def)
  then have "event_ok m' e = event_ok (d_meta d) e" for e
    using run(2) unfolding same_config_def by (intro event_ok_cong) simp_all
  then have "list_all (event_ok m') (event_delivery_array m')"
    using ok unfolding run(3) by (simp add: delivery_ok_def list_all_iff)
  moreover have "io_event_delivery_array m' = []"
    using run(2) by (simp add: same_config_def)
  ultimately show ?thesis
    using run(1,4) by blast
qed

subsection \<open>The stream of bytes the user receives\<close>

text \<open>
  The specification: a meta request that delivers in order holds a stream of bytes still to be
  delivered, starting at a position of the object. One run of the task takes a prefix of the
  stream, as long as the read window allows, and hands it to the callback in chunks, each at the
  position where the chunk before it ended.
\<close>

fun event_bytes :: "meta_request_event \<Rightarrow> u8 list" where
  "event_bytes (EVENT_RESPONSE_BODY r b) = drop (unat b) (rq_response_body r)"
| "event_bytes _ = []"

definition stream_of :: "meta_request_event list \<Rightarrow> u8 list" where
  "stream_of es = concat (map event_bytes es)"

definition window_take :: "bool \<Rightarrow> nat \<Rightarrow> u8 list \<Rightarrow> u8 list" where
  "window_take backpressure window xs = (if backpressure then take window xs else xs)"

definition window_drop :: "bool \<Rightarrow> nat \<Rightarrow> u8 list \<Rightarrow> u8 list" where
  "window_drop backpressure window xs = (if backpressure then drop window xs else [])"

fun chunks_from :: "u64 \<Rightarrow> (u64 \<times> u8 list) list \<Rightarrow> bool" where
  "chunks_from pos [] = True"
| "chunks_from pos ((start, body) # rest) = (start = pos \<and> chunks_from (pos + body_len body) rest)"

text \<open>The events hold the parts of the object from \<open>pos\<close> on, without a gap.\<close>

fun contiguous :: "u64 \<Rightarrow> u64 \<Rightarrow> meta_request_event list \<Rightarrow> bool" where
  "contiguous nxt pos [] = True"
| "contiguous nxt pos (EVENT_RESPONSE_BODY r b # es) =
     (if rq_response_body r = [] then contiguous nxt pos es
      else
        let pos' = rq_part_range_start r + body_len (rq_response_body r)
        in rq_part_range_start r + b = pos \<and> (rq_part_number r = 1 \<or> nxt = pos) \<and> contiguous pos' pos' es)"
| "contiguous nxt pos (_ # es) = contiguous nxt pos es"

text \<open>A meta request whose body callback and checksum accept every chunk.\<close>

definition accepts :: "sink_env \<Rightarrow> meta_request \<Rightarrow> bool" where
  "accepts E m \<longleftrightarrow>
     mr_type m = AWS_S3_META_REQUEST_TYPE_GET_OBJECT \<and> \<not> mr_out_of_order_delivery m \<and>
     mr_recv_buffer_capacity m = None \<and> \<not> mr_recv_filepath m \<and>
     (\<forall>body pos. body_callback E body pos = AWS_ERROR_SUCCESS) \<and>
     (\<forall>body pos t. body_callback_ex E body pos t = AWS_ERROR_SUCCESS) \<and>
     (\<forall>h body. \<exists>h'. aws_hash_update (env_hash E) h body = Inr h') \<and>
     (\<forall>h body. \<exists>h'. aws_xxhash_update (env_hash E) h body = Inr h') \<and> sum_good m"

lemma accepts_cong: "same_config m m' \<Longrightarrow> accepts E m \<Longrightarrow> accepts E m'"
  by (simp add: accepts_def same_config_def)

lemma accepts_update:
  assumes "accepts E m" "mr_running_response_sum m = Some s"
  obtains s' where "aws_checksum_update (env_hash E) s body = Inr s'" "cs_good s'"
proof -
  have "cs_good s" using assms by (simp add: accepts_def)
  obtain h where "aws_hash_update (env_hash E) (cs_hash s) body = Inr h" using assms(1) unfolding accepts_def by blast
  moreover obtain h' where "aws_xxhash_update (env_hash E) (cs_xxhash s) body = Inr h'"
    using assms(1) unfolding accepts_def by blast
  ultimately have "\<exists>s'. aws_checksum_update (env_hash E) s body = Inr s'" using \<open>cs_good s\<close>
    by (simp add: aws_checksum_update_def s_hash_update_def s_xxhash_update_def s_crc32_checksum_update_def
        s_crc32c_checksum_update_def s_crc64nvme_checksum_update_def split: aws_checksum_vtable.split)
  then show thesis using that update_keeps_good \<open>cs_good s\<close> by blast
qed

lemma body_len_append: "body_len (xs @ ys) = body_len xs + body_len ys"
  by (simp add: body_len_def)

lemma chunks_from_snoc:
  "chunks_from pos (cs @ [(p, body)]) = (chunks_from pos cs \<and> p = pos + body_len (concat (map snd cs)))"
  by (induction cs arbitrary: pos) (auto simp: body_len_append body_len_def add.assoc)

text \<open>One chunk at the right position is accepted.\<close>

lemma deliver_chunk_accepted:
  assumes "accepts E (d_meta d)" "d_error_code d = AWS_ERROR_SUCCESS"
    and "rq_part_number r = 1 \<or> next_deliver_range_start (d_meta d) = rq_part_range_start r + b"
    and d': "d' = deliver_chunk E d r b body inc"
  shows "d_error_code d' = AWS_ERROR_SUCCESS"
    and "d_sunk d' = d_sunk d @ [(rq_part_range_start r + b, body)]"
    and "next_deliver_range_start (d_meta d') = rq_part_range_start r + b + body_len body"
    and "d_num_bytes_delivered d' = d_num_bytes_delivered d + body_len body"
    and "d_incomplete d' = (if inc then [EVENT_RESPONSE_BODY r (b + body_len body)] else []) @ d_incomplete d"
    and "d_bytes_allowed d' = d_bytes_allowed d"
proof -
  define pos where "pos = rq_part_range_start r + b"
  define d1 where "d1 = check_order d r pos (body_len body)"
  define d2 where "d2 = add_to_sum E d1 body"
  define d3 where "d3 = to_sink E d2 r pos body"
  have d1: "accepts E (d_meta d1)" "d_error_code d1 = AWS_ERROR_SUCCESS" "d_sunk d1 = d_sunk d"
    "next_deliver_range_start (d_meta d1) = pos + body_len body" "d_num_bytes_delivered d1 = d_num_bytes_delivered d"
    using assms(1-3) by (auto simp: d1_def check_order_def accepts_def Let_def pos_def)
  have d2: "accepts E (d_meta d2)" "d_error_code d2 = AWS_ERROR_SUCCESS" "d_sunk d2 = d_sunk d"
    "next_deliver_range_start (d_meta d2) = pos + body_len body" "d_num_bytes_delivered d2 = d_num_bytes_delivered d"
  proof -
    have "d2 = d1 \<or> (\<exists>s'. d2 = d1\<lparr>d_meta := (d_meta d1)\<lparr>mr_running_response_sum := Some s'\<rparr>\<rparr> \<and> cs_good s')"
    proof (cases "mr_running_response_sum (d_meta d1)")
      case (Some s)
      then obtain s' where "aws_checksum_update (env_hash E) s body = Inr s'" "cs_good s'"
        using accepts_update d1(1) by blast
      then show ?thesis using Some d1(2) by (auto simp: d2_def add_to_sum_def)
    qed (simp add: d2_def add_to_sum_def)
    then show "accepts E (d_meta d2)" "d_error_code d2 = AWS_ERROR_SUCCESS" "d_sunk d2 = d_sunk d"
      "next_deliver_range_start (d_meta d2) = pos + body_len body" "d_num_bytes_delivered d2 = d_num_bytes_delivered d"
      using d1 by (auto simp: accepts_def)
  qed
  have d3: "d_error_code d3 = AWS_ERROR_SUCCESS" "d_sunk d3 = d_sunk d @ [(pos, body)]"
    "next_deliver_range_start (d_meta d3) = pos + body_len body" "d_num_bytes_delivered d3 = d_num_bytes_delivered d"
    using d2 by (auto simp: d3_def to_sink_def accepts_def s_deliver_body_to_sink_def)
  have eq: "d' = (let d = count_chunk d3 (body_len body)
      in if \<not> inc then finish_part d r (b + body_len body)
         else d\<lparr>d_incomplete := EVENT_RESPONSE_BODY r (b + body_len body) # d_incomplete d\<rparr>)"
    using d3(1) unfolding d' deliver_chunk_def d3_def d2_def d1_def pos_def Let_def by (simp add: count_chunk_def)
  have inc: "d_incomplete d3 = d_incomplete d" "d_bytes_allowed d3 = d_bytes_allowed d"
    by (simp_all add: d3_def d2_def d1_def)
  show "d_error_code d' = AWS_ERROR_SUCCESS"
    "d_sunk d' = d_sunk d @ [(rq_part_range_start r + b, body)]"
    "next_deliver_range_start (d_meta d') = rq_part_range_start r + b + body_len body"
    "d_num_bytes_delivered d' = d_num_bytes_delivered d + body_len body"
    "d_incomplete d' = (if inc then [EVENT_RESPONSE_BODY r (b + body_len body)] else []) @ d_incomplete d"
    "d_bytes_allowed d' = d_bytes_allowed d"
    using d3 inc by (simp_all add: eq count_chunk_def finish_part_def Let_def pos_def)
qed

text \<open>With no window left, every body waits and the rest is done.\<close>

fun has_body :: "meta_request_event \<Rightarrow> bool" where
  "has_body (EVENT_RESPONSE_BODY r b) = (rq_response_body r \<noteq> [])"
| "has_body _ = False"

lemma contiguous_bodies [simp]: "contiguous nxt pos (filter has_body es) = contiguous nxt pos es"
  by (induction nxt pos es rule: contiguous.induct) (auto simp: Let_def)

lemma stream_of_bodies [simp]: "stream_of (filter has_body es) = stream_of es"
proof (induction es)
  case (Cons e es)
  then show ?case by (cases e) (auto simp: stream_of_def)
qed (simp add: stream_of_def)

definition backpressure :: "meta_request \<Rightarrow> bool" where
  "backpressure m \<longleftrightarrow> cl_enable_read_backpressure (mr_client m) \<and> mr_has_body_callback m"

lemma accepts_backpressure:
  "accepts E m \<Longrightarrow> same_config m m' \<Longrightarrow> s_should_apply_backpressure m' r = backpressure m"
  by (simp add: accepts_def same_config_def s_should_apply_backpressure_def backpressure_def)

lemma finish_part_next [simp]:
  "next_deliver_range_start (d_meta (finish_part d r n)) = next_deliver_range_start (d_meta d)"
  by (simp add: finish_part_def Let_def)

lemma deliver_without_window:
  assumes "cursor_ok (cursor_advance E)" "accepts E m" "backpressure m" "same_config m (d_meta d)"
    and "d_bytes_allowed d = 0" "list_all (event_ok m) es"
  shows "\<exists>d'. deliver_events E d es = Some d' \<and> d_error_code d' = d_error_code d \<and> d_sunk d' = d_sunk d \<and>
           d_num_bytes_delivered d' = d_num_bytes_delivered d \<and>
           d_incomplete d' = rev (filter has_body es) @ d_incomplete d \<and>
           next_deliver_range_start (d_meta d') = next_deliver_range_start (d_meta d)"
  using assms(4-6)
proof (induction es arbitrary: d)
  case (Cons e es)
  have "\<exists>d1. deliver_event E d e = Some d1 \<and> d_error_code d1 = d_error_code d \<and> d_sunk d1 = d_sunk d \<and>
      d_num_bytes_delivered d1 = d_num_bytes_delivered d \<and>
      d_incomplete d1 = (if has_body e then [e] else []) @ d_incomplete d \<and> d_bytes_allowed d1 = 0 \<and>
      next_deliver_range_start (d_meta d1) = next_deliver_range_start (d_meta d) \<and> same_config m (d_meta d1)"
  proof (cases e)
    case (EVENT_RESPONSE_BODY r b)
    have bp: "s_should_apply_backpressure (d_meta d) r" "s_should_apply_backpressure m r"
      using accepts_backpressure [OF assms(2)] Cons.prems(1) assms(3) by auto
    show ?thesis
    proof (cases "rq_response_body r = []")
      case True
      then show ?thesis
        using Cons.prems same_config_trans [OF Cons.prems(1) same_config_finish_part]
        by (simp add: EVENT_RESPONSE_BODY deliver_response_body_def)
    next
      case False
      then have b: "unat b < length (rq_response_body r)" and l: "length (rq_response_body r) < 2 ^ 63"
        using Cons.prems(3) bp by (auto simp: EVENT_RESPONSE_BODY)
      have "body_len (cursor_advance E (rq_response_body r) b) > 0"
        using window_cut(2) [OF assms(1) l b refl, of 0] b by simp
      then show ?thesis
        using False Cons.prems bp by (simp add: EVENT_RESPONSE_BODY deliver_response_body_def Let_def body_len_def)
    qed
  qed (use Cons.prems in \<open>auto simp: same_config_def\<close>)
  then show ?case
    using Cons.IH Cons.prems(3) by fastforce
qed simp

text \<open>One body with window left: it is delivered as far as the window allows.\<close>

lemma deliver_body_in_window:
  assumes "cursor_ok (cursor_advance E)" "accepts E m" "same_config m (d_meta d)" "d_error_code d = AWS_ERROR_SUCCESS"
    and "event_ok m (EVENT_RESPONSE_BODY r b)" "rq_response_body r \<noteq> []" "d_incomplete d = []"
    and "rq_part_number r = 1 \<or> next_deliver_range_start (d_meta d) = rq_part_range_start r + b"
    and "backpressure m \<longrightarrow> d_bytes_allowed d \<noteq> 0"
  obtains d' where "deliver_response_body E d r b = Some d'" "d_error_code d' = AWS_ERROR_SUCCESS"
    "same_config m (d_meta d')"
    "let chunk = window_take (backpressure m) (unat (d_bytes_allowed d)) (drop (unat b) (rq_response_body r));
         cut = (backpressure m \<and> unat (d_bytes_allowed d) < length (rq_response_body r) - unat b)
     in d_sunk d' = d_sunk d @ [(rq_part_range_start r + b, chunk)] \<and>
        next_deliver_range_start (d_meta d') = rq_part_range_start r + b + body_len chunk \<and>
        d_num_bytes_delivered d' = d_num_bytes_delivered d + body_len chunk \<and>
        d_incomplete d' = (if cut then [EVENT_RESPONSE_BODY r (b + body_len chunk)] else []) \<and>
        (backpressure m \<longrightarrow> unat (d_bytes_allowed d') = unat (d_bytes_allowed d) - (length (rq_response_body r) - unat b))"
proof -
  let ?body = "rq_response_body r" and ?a = "d_bytes_allowed d"
  have l: "length ?body < 2 ^ 63" using assms(5) by simp
  have bp: "s_should_apply_backpressure m' r = backpressure m" if "same_config m m'" for m'
    using accepts_backpressure [OF assms(2) that] .
  have acc: "accepts E (d_meta d)" using assms(2,3) accepts_cong by blast
  show thesis
  proof (cases "backpressure m")
    case False
    then have "b = 0" using assms(5) bp [of m] by simp
    then show ?thesis
      using False assms(6,7) bp [OF assms(3)] deliver_chunk_accepted [OF acc assms(4,8) refl, of ?body False]
        same_config_trans [OF assms(3) same_config_chunk]
      by (intro that [of "deliver_chunk E d r b ?body False"]) (simp_all add: deliver_response_body_def window_take_def)
  next
    case True
    then have b: "unat b < length ?body" using assms(5,6) bp [of m] by simp
    note rest = window_cut(1) [OF assms(1) l b refl] and cut = window_cut(2-4) [OF assms(1) l b refl, of ?a]
    define chunk where "chunk = take (unat ?a) (drop (unat b) ?body)"
    define inc where "inc = (unat ?a < length ?body - unat b)"
    define d1 where "d1 = d\<lparr>d_bytes_allowed := ?a - body_len chunk\<rparr>"
    have a: "unat ?a > 0" using assms(9) True by (simp add: unat_gt_0)
    have chunk: "chunk \<noteq> []" using a b by (simp add: chunk_def)
    have eq: "deliver_response_body E d r b = Some (deliver_chunk E d1 r b chunk inc)"
      using assms(6) bp [OF assms(3)] True chunk cut(1) a
      by (auto simp: deliver_response_body_def Let_def inc_def rest chunk_def d1_def)
    have left: "unat (?a - body_len chunk) = unat ?a - (length ?body - unat b)"
      using cut(2,3) cut(1) by (cases inc) (simp_all add: inc_def rest chunk_def)
    have d1: "accepts E (d_meta d1)" "d_error_code d1 = AWS_ERROR_SUCCESS" "same_config m (d_meta d1)"
      "rq_part_number r = 1 \<or> next_deliver_range_start (d_meta d1) = rq_part_range_start r + b"
      using acc assms by (simp_all add: d1_def)
    show ?thesis
      using deliver_chunk_accepted [OF d1(1,2,4) refl, of chunk inc] True assms(7) left
        same_config_trans [OF d1(3) same_config_chunk]
      by (intro that [OF eq]) (simp_all add: window_take_def chunk_def [symmetric] inc_def [symmetric] d1_def)
  qed
qed

text \<open>A whole run over the queued events.\<close>

lemma window_split:
  "window_take bp a (xs @ ys) = window_take bp a xs @ window_take bp (a - length xs) ys"
  "window_drop bp a (xs @ ys) = window_drop bp a xs @ window_drop bp (a - length xs) ys"
  by (simp_all add: window_take_def window_drop_def)

lemma stream_of_Cons [simp]: "stream_of (e # es) = event_bytes e @ stream_of es" "stream_of [] = []"
  by (simp_all add: stream_of_def)

text \<open>The local variables after a run over \<open>es\<close> from \<open>d\<close> to \<open>d'\<close>.\<close>

definition streamed :: "bool \<Rightarrow> nat \<Rightarrow> u64 \<Rightarrow> u8 list \<Rightarrow> delivery \<Rightarrow> delivery \<Rightarrow> bool" where
  "streamed bp a pos xs d d' \<longleftrightarrow>
     d_error_code d' = AWS_ERROR_SUCCESS \<and>
     (\<exists>cs. d_sunk d' = d_sunk d @ cs \<and> chunks_from pos cs \<and> concat (map snd cs) = window_take bp a xs) \<and>
     stream_of (rev (d_incomplete d')) = window_drop bp a xs \<and>
     d_num_bytes_delivered d' = d_num_bytes_delivered d + body_len (window_take bp a xs) \<and>
     contiguous (next_deliver_range_start (d_meta d')) (pos + body_len (window_take bp a xs)) (rev (d_incomplete d'))"

lemma streamed_stop:
  assumes "d_error_code d' = AWS_ERROR_SUCCESS" "d_sunk d' = d_sunk d" "d_num_bytes_delivered d' = d_num_bytes_delivered d"
    and "window_take bp a xs = []" "stream_of (rev (d_incomplete d')) = window_drop bp a xs"
    and "contiguous (next_deliver_range_start (d_meta d')) pos (rev (d_incomplete d'))"
  shows "streamed bp a pos xs d d'"
  using assms by (simp add: streamed_def body_len_def exI [of _ "[]"])

lemma streamed_chunk:
  assumes "d_sunk d1 = d_sunk d @ [(pos, chunk)]" "d_num_bytes_delivered d1 = d_num_bytes_delivered d + body_len chunk"
    and "chunk = window_take bp a x" "window_drop bp a x = []"
    and "streamed bp (a - length x) (pos + body_len chunk) xs d1 d'"
  shows "streamed bp a pos (x @ xs) d d'"
proof -
  obtain cs where "d_sunk d' = d_sunk d1 @ cs" "chunks_from (pos + body_len chunk) cs"
    "concat (map snd cs) = window_take bp (a - length x) xs"
    using assms(5) unfolding streamed_def by blast
  then have "d_sunk d' = d_sunk d @ (pos, chunk) # cs \<and> chunks_from pos ((pos, chunk) # cs) \<and>
      concat (map snd ((pos, chunk) # cs)) = window_take bp a (x @ xs)"
    using assms(1,3) by (simp add: window_split)
  then show ?thesis
    using assms unfolding streamed_def by (auto simp: window_split body_len_append add.assoc)
qed

lemma deliver_stream_cut:
  assumes "cursor_ok (cursor_advance E)" "accepts E m" "same_config m (d_meta d1)" "d_error_code d1 = AWS_ERROR_SUCCESS"
    and "backpressure m" "d_bytes_allowed d1 = 0" "list_all (event_ok m) es" "d_incomplete d1 = [e]"
    and "d_sunk d1 = d_sunk d @ [(pos, chunk)]" "d_num_bytes_delivered d1 = d_num_bytes_delivered d + body_len chunk"
    and "chunk = take a x" "a < length x" "event_bytes e = drop a x" "has_body e"
    and "contiguous (next_deliver_range_start (d_meta d1)) (pos + body_len chunk) (e # es)"
  shows "\<exists>d'. deliver_events E d1 es = Some d' \<and> streamed True a pos (x @ stream_of es) d d'"
proof -
  obtain d' where d': "deliver_events E d1 es = Some d'" "d_error_code d' = AWS_ERROR_SUCCESS" "d_sunk d' = d_sunk d1"
    "d_num_bytes_delivered d' = d_num_bytes_delivered d1" "d_incomplete d' = rev (filter has_body es) @ [e]"
    "next_deliver_range_start (d_meta d') = next_deliver_range_start (d_meta d1)"
    using deliver_without_window [OF assms(1,2,5,3,6,7)] assms(4,8) by auto
  have "chunks_from pos [(pos, chunk)]" "concat (map snd [(pos, chunk)]) = window_take True a (x @ stream_of es)"
    using assms(11,12) by (simp_all add: window_take_def)
  moreover have "contiguous (next_deliver_range_start (d_meta d')) (pos + body_len chunk) (filter has_body (e # es))"
    using assms(15) d'(6) by (simp only: contiguous_bodies)
  ultimately show ?thesis
    using d' assms unfolding streamed_def
    by (intro exI [of _ d']) (auto simp: window_take_def window_drop_def simp del: contiguous_bodies)
qed

lemma streamed_window: "(bp \<Longrightarrow> a = a') \<Longrightarrow> streamed bp a pos xs d d' = streamed bp a' pos xs d d'"
  by (cases bp) (simp_all add: streamed_def window_take_def window_drop_def)

lemma deliver_stream_body:
  assumes "cursor_ok (cursor_advance E)" "accepts E m" "same_config m (d_meta d)" "d_error_code d = AWS_ERROR_SUCCESS"
    and "d_incomplete d = []" "event_ok m (EVENT_RESPONSE_BODY r b)" "list_all (event_ok m) es"
    and "contiguous (next_deliver_range_start (d_meta d)) pos (EVENT_RESPONSE_BODY r b # es)"
    and "rq_response_body r \<noteq> []" "\<not> (backpressure m \<and> d_bytes_allowed d = 0)" "a = unat (d_bytes_allowed d)"
    and IH: "\<And>d1 pos'. same_config m (d_meta d1) \<Longrightarrow> d_error_code d1 = AWS_ERROR_SUCCESS \<Longrightarrow> d_incomplete d1 = [] \<Longrightarrow>
      contiguous (next_deliver_range_start (d_meta d1)) pos' es \<Longrightarrow>
      \<exists>d'. deliver_events E d1 es = Some d' \<and> streamed (backpressure m) (unat (d_bytes_allowed d1)) pos' (stream_of es) d1 d'"
  shows "\<exists>d'. deliver_events E d (EVENT_RESPONSE_BODY r b # es) = Some d' \<and>
    streamed (backpressure m) a pos (stream_of (EVENT_RESPONSE_BODY r b # es)) d d'"
proof -
  let ?body = "rq_response_body r"
  define x where "x = drop (unat b) ?body"
  define chunk where "chunk = window_take (backpressure m) a x"
  define cut where "cut = (backpressure m \<and> a < length x)"
  have pos: "rq_part_range_start r + b = pos"
    "rq_part_number r = 1 \<or> next_deliver_range_start (d_meta d) = rq_part_range_start r + b"
    and cont: "contiguous (rq_part_range_start r + body_len ?body) (rq_part_range_start r + body_len ?body) es"
    using assms(8,9) by (auto simp: Let_def)
  obtain d1 where 1: "deliver_response_body E d r b = Some d1" "d_error_code d1 = AWS_ERROR_SUCCESS"
    "same_config m (d_meta d1)" "d_sunk d1 = d_sunk d @ [(pos, chunk)]"
    "next_deliver_range_start (d_meta d1) = pos + body_len chunk"
    "d_num_bytes_delivered d1 = d_num_bytes_delivered d + body_len chunk"
    "d_incomplete d1 = (if cut then [EVENT_RESPONSE_BODY r (b + body_len chunk)] else [])"
    "backpressure m \<longrightarrow> unat (d_bytes_allowed d1) = a - length x"
    using deliver_body_in_window [OF assms(1-4,6,9,5) pos(2)] assms(10,11) pos(1)
    unfolding Let_def chunk_def cut_def x_def by auto
  have b: "unat b \<le> length ?body" "length ?body < 2 ^ 63"
    using assms(6,9) by (auto split: if_splits)
  show ?thesis
  proof (cases cut)
    case True
    then have bp: "backpressure m" "a < length x" by (simp_all add: cut_def)
    have la: "body_len chunk = d_bytes_allowed d" using bp by (simp add: chunk_def window_take_def body_len_def assms(11))
    have sum: "unat (b + body_len chunk) = unat b + a"
      using bp b unfolding la assms(11) x_def by (intro unat_add_nowrap) simp
    let ?e = "EVENT_RESPONSE_BODY r (b + body_len chunk)"
    have inc: "d_incomplete d1 = [?e]" and left: "d_bytes_allowed d1 = 0"
      using True 1(7,8) bp by (simp_all add: unat_eq_zero)
    have "contiguous (next_deliver_range_start (d_meta d1)) (pos + body_len chunk) (?e # es)"
      using pos(1) 1(5) cont assms(9) by (simp add: add.assoc [symmetric] Let_def)
    moreover have "event_bytes ?e = drop a x" by (simp add: sum x_def add.commute)
    moreover have "chunk = take a x" using bp(1) by (simp add: chunk_def window_take_def)
    ultimately show ?thesis
      using deliver_stream_cut [OF assms(1,2) 1(3,2) bp(1) left assms(7) inc 1(4,6) _ bp(2)] 1(1) bp assms(9)
      by (simp add: x_def)
  next
    case False
    then have chunk: "chunk = x" "window_drop (backpressure m) a x = []"
      by (auto simp: chunk_def cut_def window_take_def window_drop_def)
    have "b + body_len x = body_len ?body" using b(1) by (simp add: x_def body_len_def of_nat_diff)
    then have "contiguous (next_deliver_range_start (d_meta d1)) (pos + body_len chunk) es"
      using cont 1(5) unfolding chunk(1) pos(1) [symmetric] by (simp add: add.assoc)
    then obtain d' where d': "deliver_events E d1 es = Some d'"
      "streamed (backpressure m) (unat (d_bytes_allowed d1)) (pos + body_len chunk) (stream_of es) d1 d'"
      using IH [OF 1(3,2)] 1(7) False by auto
    then have "streamed (backpressure m) (a - length x) (pos + body_len chunk) (stream_of es) d1 d'"
      using 1(8) streamed_window by metis
    then show ?thesis
      using streamed_chunk [OF 1(4,6) chunk_def chunk(2)] 1(1) d'(1) by (simp add: x_def)
  qed
qed

lemma deliver_event_skip:
  assumes "same_config m (d_meta d)" "event_ok m e" "\<not> has_body e"
  shows "\<exists>d1. deliver_event E d e = Some d1 \<and> same_config m (d_meta d1) \<and> d_error_code d1 = d_error_code d \<and>
      d_incomplete d1 = d_incomplete d \<and> next_deliver_range_start (d_meta d1) = next_deliver_range_start (d_meta d) \<and>
      d_bytes_allowed d1 = d_bytes_allowed d \<and> d_sunk d1 = d_sunk d \<and> d_num_bytes_delivered d1 = d_num_bytes_delivered d"
proof (cases e)
  case (EVENT_RESPONSE_BODY r b)
  then show ?thesis
    using assms same_config_trans [OF assms(1) same_config_finish_part] by (simp add: deliver_response_body_def)
qed (use assms in \<open>auto simp: same_config_def\<close>)

lemma deliver_stream:
  assumes "cursor_ok (cursor_advance E)" "accepts E m" "same_config m (d_meta d)" "d_error_code d = AWS_ERROR_SUCCESS"
    and "d_incomplete d = []" "list_all (event_ok m) es" "contiguous (next_deliver_range_start (d_meta d)) pos es"
    and "a = unat (d_bytes_allowed d)"
  shows "\<exists>d'. deliver_events E d es = Some d' \<and> streamed (backpressure m) a pos (stream_of es) d d'"
  using assms(3-)
proof (induction es arbitrary: d pos a)
  case Nil
  then show ?case by (simp add: streamed_stop window_take_def window_drop_def)
next
  case (Cons e es)
  have ok: "event_ok m e" "list_all (event_ok m) es" using Cons.prems(4) by simp_all
  show ?case
  proof (cases "has_body e")
    case False
    obtain d1 where 1: "deliver_event E d e = Some d1" "same_config m (d_meta d1)" "d_error_code d1 = AWS_ERROR_SUCCESS"
      "d_incomplete d1 = []" "next_deliver_range_start (d_meta d1) = next_deliver_range_start (d_meta d)"
      "a = unat (d_bytes_allowed d1)" "d_sunk d1 = d_sunk d" "d_num_bytes_delivered d1 = d_num_bytes_delivered d"
      using deliver_event_skip [OF Cons.prems(1) ok(1) False, of E] Cons.prems by metis
    have "contiguous (next_deliver_range_start (d_meta d1)) pos es" "event_bytes e = []"
      using False Cons.prems(5) 1(5) by (cases e; simp)+
    then show ?thesis
      using Cons.IH [OF 1(2,3,4) ok(2) _ 1(6)] 1(1,7,8) by (simp add: streamed_def)
  next
    case body: True
    then obtain r b where e: "e = EVENT_RESPONSE_BODY r b" "rq_response_body r \<noteq> []"
      by (cases e) auto
    show ?thesis
    proof (cases "backpressure m \<and> d_bytes_allowed d = 0")
      case True
      then obtain d' where d': "deliver_events E d (e # es) = Some d'" "d_error_code d' = AWS_ERROR_SUCCESS"
        "d_sunk d' = d_sunk d" "d_num_bytes_delivered d' = d_num_bytes_delivered d"
        "d_incomplete d' = rev (filter has_body (e # es))"
        "next_deliver_range_start (d_meta d') = next_deliver_range_start (d_meta d)"
        using deliver_without_window [OF assms(1,2) _ Cons.prems(1) _ Cons.prems(4)] Cons.prems(2,3) by auto
      have "streamed (backpressure m) a pos (stream_of (e # es)) d d'"
        using d' True Cons.prems(5,6) unfolding d'(5) rev_rev_ident
        by (intro streamed_stop)
          (simp_all only: d'(5) rev_rev_ident contiguous_bodies stream_of_bodies, simp_all add: window_take_def window_drop_def)
      then show ?thesis using d'(1) by blast
    next
      case False
      show ?thesis
        unfolding e(1)
        by (rule deliver_stream_body [OF assms(1,2) Cons.prems(1-3)])
          (use Cons.IH Cons.prems ok e False in auto)
    qed
  qed
qed

text \<open>
  C14. Delivery in order is a stream. Let the meta request deliver in order to a callback that
  accepts every chunk, and let its queued events hold the parts of the object from \<open>pos\<close> on
  without a gap. Then one run of the event delivery task hands the callback the next bytes of
  that stream, exactly as many as the read window allows (all of them without backpressure), in
  chunks that follow each other in the object; what is queued afterwards is the rest of the
  stream, again without a gap, from the position that was reached.
\<close>

theorem delivery_refines_stream:
  assumes "cursor_ok (cursor_advance E)" "accepts E m" "\<not> finish_result_set m" "io_event_delivery_array m = []"
    and "list_all (event_ok m) (event_delivery_array m)"
    and "contiguous (next_deliver_range_start m) pos (event_delivery_array m)"
  shows "\<exists>m' chunks. s_s3_meta_request_event_delivery_task E m = Some (m', chunks) \<and>
           (let window = unat (read_window_running_total m - num_bytes_delivery_completed m);
                stream = stream_of (event_delivery_array m); delivered = concat (map snd chunks)
            in delivered = window_take (backpressure m) window stream \<and>
               stream_of (event_delivery_array m') = window_drop (backpressure m) window stream \<and>
               chunks_from pos chunks \<and>
               contiguous (next_deliver_range_start m') (pos + body_len delivered) (event_delivery_array m'))"
proof -
  let ?es = "event_delivery_array m"
  obtain d d' m' where run: "event_delivery_begin m = Some d" "deliver_events E d ?es = Some d'"
    "s_s3_meta_request_event_delivery_task E m = Some (m', d_sunk d')" "event_delivery_array m' = rev (d_incomplete d')"
    "next_deliver_range_start m' = next_deliver_range_start (d_meta d')"
    using task_parts [OF assms(1,4,5)] by metis
  have d: "d_meta d = m\<lparr>io_event_delivery_array := ?es, event_delivery_array := [],
                  event_delivery_active := True, event_delivery_task_scheduled := False\<rparr>"
    "d_error_code d = AWS_ERROR_SUCCESS" "d_incomplete d = []" "d_sunk d = []"
    "d_bytes_allowed d = read_window_running_total m - num_bytes_delivery_completed m"
    using run(1) assms(3,4)
    by (auto simp: event_delivery_begin_def aws_s3_meta_request_has_finish_result_synced_def Let_def)
  have ev: "list_all (event_ok (d_meta d)) ?es" and acc: "accepts E (d_meta d)"
    and bp: "backpressure (d_meta d) = backpressure m"
    and cont: "contiguous (next_deliver_range_start (d_meta d)) pos ?es"
    using assms(2,5,6) event_ok_cong [of "d_meta d" m] by (simp_all add: d(1) list_all_iff accepts_def backpressure_def)
  have "streamed (backpressure m) (unat (d_bytes_allowed d)) pos (stream_of ?es) d d'"
    using deliver_stream [OF assms(1) acc same_config_refl d(2,3) ev cont refl] run(2) unfolding bp by simp
  then show ?thesis
    using d run unfolding streamed_def by (auto simp: Let_def)
qed

theorem delivery_refines_stream_witness:
  "\<exists>m' chunks. s_s3_meta_request_event_delivery_task example_env example_queued = Some (m', chunks) \<and>
     concat (map snd chunks) = [10, 11, 12] \<and> stream_of (event_delivery_array m') = [13] \<and> chunks_from 0 chunks \<and>
     contiguous (next_deliver_range_start m') 3 (event_delivery_array m')"
proof -
  have "accepts example_env example_queued" "\<not> finish_result_set example_queued" "io_event_delivery_array example_queued = []"
    "backpressure example_queued"
    "unat (read_window_running_total example_queued - num_bytes_delivery_completed example_queued) = 3"
    by (simp_all add: accepts_def backpressure_def example_env_def example_hash_def example_defs)
  moreover have "stream_of (event_delivery_array example_queued) = [10, 11, 12, 13]"
    "list_all (event_ok example_queued) (event_delivery_array example_queued)"
    "contiguous (next_deliver_range_start example_queued) 0 (event_delivery_array example_queued)"
    by (simp_all add: s_should_apply_backpressure_def body_len_def Let_def example_defs)
  ultimately show ?thesis
    using delivery_refines_stream [OF example_env_ok(1), of example_queued 0]
    by (simp add: Let_def window_take_def window_drop_def) (force simp: body_len_def)
qed

subsection \<open>A finished meta request\<close>

text \<open>What an error stops: nothing is handed out or recorded, and the result stays.\<close>

definition idle :: "delivery \<Rightarrow> delivery \<Rightarrow> bool" where
  "idle d d' \<longleftrightarrow>
     d_error_code d' \<noteq> AWS_ERROR_SUCCESS \<and> d_sunk d' = d_sunk d \<and> d_completed d' = d_completed d \<and>
     d_num_bytes_delivered d' = d_num_bytes_delivered d \<and>
     finish_result (d_meta d') = finish_result (d_meta d) \<and> finish_result_set (d_meta d') = finish_result_set (d_meta d) \<and>
     num_bytes_delivered (d_meta d') = num_bytes_delivered (d_meta d)"

lemma idle_chunk:
  assumes "d_error_code d \<noteq> AWS_ERROR_SUCCESS"
  shows "idle d (deliver_chunk E d r b body inc)"
proof -
  define pos where "pos = rq_part_range_start r + b"
  define d1 where "d1 = check_order d r pos (body_len body)"
  have 1: "idle d d1"
    using assms by (simp add: d1_def check_order_def Let_def idle_def)
  then have 2: "to_sink E (add_to_sum E d1 body) r pos body = d1"
    by (simp add: to_sink_def add_to_sum_def idle_def split: option.split)
  have "deliver_chunk E d r b body inc = finish_part (count_chunk d1 (body_len body)) r (b + body_len body)"
    using 1 2 by (simp add: deliver_chunk_def d1_def pos_def Let_def count_chunk_def idle_def)
  then show ?thesis using 1 by (simp add: count_chunk_def finish_part_def Let_def idle_def)
qed

lemma idle_events:
  assumes "deliver_events E d es = Some d'" "d_error_code d \<noteq> AWS_ERROR_SUCCESS"
  shows "idle d d'"
  using assms
proof (induction es arbitrary: d)
  case (Cons e es)
  then obtain d1 where 1: "deliver_event E d e = Some d1" "deliver_events E d1 es = Some d'"
    by (auto split: option.splits)
  have "idle d d1"
  proof (cases e)
    case (EVENT_RESPONSE_BODY r b)
    have "idle d (d\<lparr>d_bytes_allowed := a, d_incomplete := i\<rparr>)" "idle d (finish_part d r 0)"
      "idle d (deliver_chunk E (d\<lparr>d_bytes_allowed := a\<rparr>) r b body inc)"
      "idle d (deliver_chunk E d r b body inc)" "idle d (d\<lparr>d_incomplete := i\<rparr>)" for a i body inc
      using Cons.prems(2) idle_chunk [of "d\<lparr>d_bytes_allowed := a\<rparr>" E r b body inc] idle_chunk [of d E r b body inc]
      by (simp_all add: idle_def finish_part_def Let_def)
    then show ?thesis
      using 1(1) EVENT_RESPONSE_BODY by (auto simp: deliver_response_body_def Let_def split: if_splits)
  qed (use 1(1) Cons.prems(2) in \<open>auto simp: idle_def split: if_splits\<close>)
  then show ?case using Cons.IH [OF 1(2)] by (simp add: idle_def)
qed (simp add: idle_def)

text \<open>
  C15. Once a meta request has a result, whether it failed, was cancelled or paused, or succeeded,
  a run of the event delivery task hands nothing to the callback or to the file any more, and
  the result stays the one that was set first.
\<close>

theorem finished_delivers_nothing:
  assumes "finish_result_set m" "s_s3_meta_request_event_delivery_task E m = Some (m', sunk)"
  shows "sunk = [] \<and> finish_result_set m' \<and> finish_result m' = finish_result m \<and>
         num_bytes_delivered m' = num_bytes_delivered m"
proof -
  obtain d where d: "event_delivery_begin m = Some d" "d_error_code d = AWS_ERROR_S3_CANCELED" "d_completed d = []"
    "d_sunk d = []" "d_num_bytes_delivered d = 0" "finish_result_set (d_meta d)" "finish_result (d_meta d) = finish_result m"
    "num_bytes_delivered (d_meta d) = num_bytes_delivered m"
    using assms by (auto simp: s_s3_meta_request_event_delivery_task_def event_delivery_begin_def Let_def
        aws_s3_meta_request_has_finish_result_synced_def split: if_splits)
  obtain d' where d': "deliver_events E d (io_event_delivery_array (d_meta d)) = Some d'"
    "event_delivery_end E d' = Some m'" "sunk = d_sunk d'"
    using assms(2) d(1) by (auto simp: s_s3_meta_request_event_delivery_task_def split: option.splits)
  have "idle d d'" using idle_events [OF d'(1)] d(2) by simp
  then have "d_error_code d' \<noteq> AWS_ERROR_SUCCESS" "d_sunk d' = []" "d_completed d' = []" "d_num_bytes_delivered d' = 0"
    "finish_result_set (d_meta d')" "finish_result (d_meta d') = finish_result m"
    "num_bytes_delivered (d_meta d') = num_bytes_delivered m"
    using d by (simp_all add: idle_def)
  then show ?thesis
    using d'(2,3) by (auto simp: event_delivery_end_def aws_s3_meta_request_set_fail_synced_def Let_def split: if_splits)
qed

theorem finished_delivers_nothing_witness:
  "\<exists>m' sunk. s_s3_meta_request_event_delivery_task example_env (example_queued\<lparr>finish_result_set := True\<rparr>) = Some (m', sunk) \<and>
     sunk = [] \<and> finish_result_set m' \<and> finish_result m' = finish_result example_queued \<and> num_bytes_delivered m' = 0"
proof -
  let ?m = "example_queued\<lparr>finish_result_set := True\<rparr>"
  have "io_event_delivery_array ?m = []" "list_all (event_ok ?m) (event_delivery_array ?m)"
    by (simp_all add: example_defs s_should_apply_backpressure_def)
  then obtain m' sunk where run: "s_s3_meta_request_event_delivery_task example_env ?m = Some (m', sunk)"
    using task_parts [OF example_env_ok(1)] by metis
  have "num_bytes_delivered example_queued = 0" by (simp add: example_defs)
  then show ?thesis
    using finished_delivers_nothing [OF _ run] run by simp
qed

text \<open>
  C16. A cancelled download whose read window is used up does not come to rest by itself. The run
  of the event delivery task after the cancellation puts the body it cannot deliver back into
  the queue, although it will never deliver it, and schedules no further run: events are out for
  delivery and nothing that would remove them is pending.
\<close>

theorem cancelled_without_window_is_stuck:
  assumes "finish_result_set m" "io_event_delivery_array m = []" "event_delivery_array m = [EVENT_RESPONSE_BODY r b]"
    and "s_should_apply_backpressure m r" "cursor_ok (cursor_advance E)"
    and "unat b < length (rq_response_body r)" "length (rq_response_body r) < 2 ^ 63"
    and "read_window_running_total m = num_bytes_delivery_completed m"
  shows "\<exists>m'. s_s3_meta_request_event_delivery_task E m = Some (m', []) \<and>
           event_delivery_array m' = event_delivery_array m \<and>
           aws_s3_meta_request_are_events_out_for_delivery_synced m' \<and> \<not> event_delivery_task_scheduled m' \<and>
           \<not> event_delivery_active m' \<and> read_window_running_total m' = num_bytes_delivery_completed m'"
proof -
  have bp: "s_should_apply_backpressure (m\<lparr>io_event_delivery_array := x, event_delivery_array := y,
      event_delivery_active := z, event_delivery_task_scheduled := w\<rparr>) r" for x y z w
    using assms(4) by (simp add: s_should_apply_backpressure_def split: if_splits)
  have "body_len (cursor_advance E (rq_response_body r) b) > 0"
    using window_cut(2) [OF assms(5,7,6) refl, of 0] assms(6) by simp
  moreover have "rq_response_body r \<noteq> []" using assms(6) by auto
  ultimately show ?thesis
    using assms(1-3,8) bp
    by (simp add: s_s3_meta_request_event_delivery_task_def event_delivery_begin_def event_delivery_end_def
        deliver_response_body_def aws_s3_meta_request_has_finish_result_synced_def aws_s3_meta_request_set_fail_synced_def
        aws_s3_meta_request_are_events_out_for_delivery_synced_def Let_def body_len_def)
qed

theorem cancelled_without_window_is_stuck_witness:
  "\<exists>m'. s_s3_meta_request_event_delivery_task example_env example_cancelled = Some (m', []) \<and>
     aws_s3_meta_request_are_events_out_for_delivery_synced m' \<and> \<not> event_delivery_task_scheduled m'"
proof -
  have "finish_result_set example_cancelled" "io_event_delivery_array example_cancelled = []"
    "event_delivery_array example_cancelled = [EVENT_RESPONSE_BODY (example_request 2 2 [12, 13]) 1]"
    "read_window_running_total example_cancelled = num_bytes_delivery_completed example_cancelled"
    by (simp_all add: example_cancelled_def example_meta_request_def)
  moreover have "s_should_apply_backpressure example_cancelled (example_request 2 2 [12, 13])"
    "rq_response_body (example_request 2 2 [12, 13]) = [12, 13]"
    by (simp_all add: example_cancelled_def example_defs s_should_apply_backpressure_def)
  ultimately show ?thesis
    using cancelled_without_window_is_stuck [OF _ _ _ _ example_env_ok(1), of example_cancelled] by fastforce
qed

subsection \<open>Bodies are queued in the order of their parts\<close>

text \<open>
  What holds when the requests \<open>rs\<close> have completed: the requests \<open>ss\<close> of the parts before
  \<open>next_streaming_part\<close> are queued in order, the others wait.
\<close>

definition streaming :: "aws_s3_request list \<Rightarrow> meta_request \<Rightarrow> bool" where
  "streaming rs m \<longleftrightarrow>
     (\<exists>ss. event_delivery_array m = map (\<lambda>r. EVENT_RESPONSE_BODY r 0) ss \<and>
           map (unat \<circ> rq_part_number) ss = [1..<unat (next_streaming_part m)] \<and>
           mset rs = mset ss + mset (pending_body_streaming_requests m)) \<and>
     sorted (map rq_part_number (pending_body_streaming_requests m)) \<and> \<not> mr_out_of_order_delivery m \<and>
     (\<forall>r \<in> set (pending_body_streaming_requests m). next_streaming_part m \<le> rq_part_number r) \<and>
     1 \<le> next_streaming_part m"

definition part_numbers_ok :: "aws_s3_request list \<Rightarrow> bool" where
  "part_numbers_ok rs \<longleftrightarrow> distinct (map rq_part_number rs) \<and> (\<forall>r \<in> set rs. 0 < rq_part_number r \<and> rq_part_number r < U32_MAX)"

lemma part_numbers_ok_mset: "mset rs = mset rs' \<Longrightarrow> part_numbers_ok rs \<Longrightarrow> part_numbers_ok rs'"
  unfolding part_numbers_ok_def by (metis mset_eq_setD mset_map mset_eq_imp_distinct_iff)

lemma streaming_pop:
  assumes "streaming rs m" "part_numbers_ok rs" "s_s3_meta_request_body_streaming_pop_next_synced m = Some (m', r)"
  shows "streaming rs (aws_s3_meta_request_add_event_for_delivery_synced m' (Some (EVENT_RESPONSE_BODY r 0)))"
proof -
  obtain ss where ss: "event_delivery_array m = map (\<lambda>r. EVENT_RESPONSE_BODY r 0) ss"
    "map (unat \<circ> rq_part_number) ss = [1..<unat (next_streaming_part m)]"
    "mset rs = mset ss + mset (pending_body_streaming_requests m)"
    and rest: "sorted (map rq_part_number (pending_body_streaming_requests m))" "\<not> mr_out_of_order_delivery m"
    "\<forall>r \<in> set (pending_body_streaming_requests m). next_streaming_part m \<le> rq_part_number r" "1 \<le> next_streaming_part m"
    using assms(1) unfolding streaming_def by blast
  obtain q where q: "pending_body_streaming_requests m = r # q" "rq_part_number r = next_streaming_part m"
    and m': "m' = m\<lparr>pending_body_streaming_requests := q, next_streaming_part := next_streaming_part m + 1\<rparr>"
    using assms(3) by (auto simp: s_s3_meta_request_body_streaming_pop_next_synced_def split: list.splits if_splits)
  have "part_numbers_ok (ss @ r # q)"
    by (rule part_numbers_ok_mset [OF _ assms(2)]) (simp add: ss(3) q(1))
  then have r: "rq_part_number r < U32_MAX" and dist: "rq_part_number r \<notin> rq_part_number ` set q"
    by (auto simp: part_numbers_ok_def)
  have inc: "unat (next_streaming_part m + 1) = unat (next_streaming_part m) + 1"
    using r q(2) unat_inc_nowrap by metis
  have "next_streaming_part m + 1 \<le> rq_part_number r'" if "r' \<in> set q" for r'
  proof -
    have "next_streaming_part m \<noteq> rq_part_number r'" "next_streaming_part m \<le> rq_part_number r'"
      using that dist rest(3) q by auto
    then show ?thesis using inc by (simp add: word_le_nat_alt word_unat_eq_iff)
  qed
  moreover have "map (unat \<circ> rq_part_number) (ss @ [r]) = [1..<unat (next_streaming_part m + 1)]"
    using ss(2) q(2) inc rest(4) by (simp add: word_le_nat_alt)
  moreover have "event_delivery_array m @ [EVENT_RESPONSE_BODY r 0] = map (\<lambda>r. EVENT_RESPONSE_BODY r 0) (ss @ [r])"
    using ss(1) by simp
  moreover have "mset rs = mset (ss @ [r]) + mset q" "1 \<le> next_streaming_part m + 1"
    using ss(3) q(1) inc by (simp_all add: word_le_nat_alt)
  ultimately show ?thesis
    using rest(1,2) q(1)
    unfolding streaming_def m' aws_s3_meta_request_add_event_for_delivery_synced_def Let_def
    by (auto simp del: map_append map_map intro!: exI [of _ "ss @ [r]"])
qed

lemma streaming_ready:
  assumes "streaming rs m" "part_numbers_ok rs" "stream_ready_bodies m n = (m', n')"
  shows "streaming rs m' \<and> next_streaming_part m' \<notin> rq_part_number ` set rs"
  using assms
proof (induction m n arbitrary: m' n' rule: stream_ready_bodies.induct)
  case (1 m n)
  show ?case
  proof (cases "s_s3_meta_request_body_streaming_pop_next_synced m")
    case (Some p)
    obtain m1 r where p: "p = (m1, r)" by fastforce
    let ?m = "aws_s3_meta_request_add_event_for_delivery_synced m1 (Some (EVENT_RESPONSE_BODY r 0))"
    have "stream_ready_bodies ?m (n + 1) = (m', n')"
      using 1(4) Some p by (subst (asm) stream_ready_bodies.simps) simp
    then show ?thesis
      using 1(1) [OF Some p [symmetric] streaming_pop [OF 1(2,3)] 1(3)] Some p by simp
  next
    case None
    then have m': "m' = m" using 1(4) by (subst (asm) stream_ready_bodies.simps) simp
    obtain ss where ss: "map (unat \<circ> rq_part_number) ss = [1..<unat (next_streaming_part m)]"
      "mset rs = mset ss + mset (pending_body_streaming_requests m)"
      using 1(2) unfolding streaming_def by blast
    have "next_streaming_part m \<noteq> rq_part_number r" if "r \<in> set (pending_body_streaming_requests m)" for r
      using None that 1(2) unfolding s_s3_meta_request_body_streaming_pop_next_synced_def streaming_def
      by (cases "pending_body_streaming_requests m") (auto split: if_splits)
    moreover have "next_streaming_part m \<noteq> rq_part_number r" if "r \<in> set ss" for r
      using arg_cong [OF ss(1), of set] that by (auto simp: image_iff)
    moreover have "set rs = set ss \<union> set (pending_body_streaming_requests m)"
      using ss(2) by (metis set_mset_mset set_mset_union)
    ultimately show ?thesis using 1(2) m' by auto
  qed
qed

lemma streaming_body:
  assumes "queue_ok rq_part_number (push_request E)" "streaming rs m" "part_numbers_ok (r # rs)"
    and "next_streaming_part m \<notin> rq_part_number ` set rs"
  shows "let m' = fst (aws_s3_meta_request_stream_response_body_synced E m r)
         in streaming (r # rs) m' \<and> next_streaming_part m' \<notin> rq_part_number ` set (r # rs)"
proof -
  let ?q = "pending_body_streaming_requests m"
  obtain ss where ss: "event_delivery_array m = map (\<lambda>r. EVENT_RESPONSE_BODY r 0) ss"
    "map (unat \<circ> rq_part_number) ss = [1..<unat (next_streaming_part m)]" "mset rs = mset ss + mset ?q"
    and rest: "sorted (map rq_part_number ?q)" "\<not> mr_out_of_order_delivery m"
    "\<forall>r \<in> set ?q. next_streaming_part m \<le> rq_part_number r" "1 \<le> next_streaming_part m"
    using assms(2) unfolding streaming_def by blast
  obtain q where q: "push_request E r ?q = Inr q" "mset q = add_mset r (mset ?q)" "sorted (map rq_part_number q)"
    using assms(1) rest(1) unfolding queue_ok_def by blast
  define m1 where "m1 = (let m = s_s3_meta_request_body_streaming_push_synced E m r; c = mr_client m
    in m\<lparr>mr_client := c\<lparr>cl_num_requests_stream_queued_waiting := cl_num_requests_stream_queued_waiting c + 1\<rparr>\<rparr>)"
  have "next_streaming_part m \<le> rq_part_number r"
  proof (rule ccontr)
    assume "\<not> next_streaming_part m \<le> rq_part_number r"
    moreover have "0 < rq_part_number r" using assms(3) by (simp add: part_numbers_ok_def)
    ultimately have "unat (rq_part_number r) \<in> set (map (unat \<circ> rq_part_number) ss)"
      using ss(2) by (simp add: word_le_nat_alt word_less_nat_alt)
    then obtain r' where "r' \<in> set ss" "rq_part_number r' = rq_part_number r"
      by (auto simp: image_iff word_unat_eq_iff)
    moreover have "set rs = set ss \<union> set ?q" using ss(3) by (metis set_mset_mset set_mset_union)
    ultimately have "rq_part_number r \<in> rq_part_number ` set rs" by (metis UnCI image_eqI)
    then show False using assms(3) by (simp add: part_numbers_ok_def)
  qed
  moreover have "set q = insert r (set ?q)" using q(2) by (metis set_mset_add_mset_insert set_mset_mset)
  ultimately have "streaming (r # rs) m1"
    unfolding streaming_def m1_def s_s3_meta_request_body_streaming_push_synced_def Let_def
    using q ss rest by auto
  then have "streaming (r # rs) m2 \<and> next_streaming_part m2 \<notin> rq_part_number ` set (r # rs)"
    if "stream_ready_bodies m1 0 = (m2, n)" for m2 n
    using streaming_ready [OF _ assms(3) that] by blast
  then show ?thesis
    using rest(2) unfolding aws_s3_meta_request_stream_response_body_synced_def m1_def Let_def
    by (auto simp: streaming_def split: prod.split)
qed

text \<open>
  C17. Parts that complete in any order are queued for delivery in the order of their numbers. Let
  the bodies of requests with different part numbers arrive one after the other at a fresh meta
  request that delivers in order. Then the queued events are the bodies of the parts from 1 up to
  the first part that has not arrived, in that order, and every other request waits.
\<close>

theorem bodies_queued_in_part_order:
  assumes "queue_ok rq_part_number (push_request E)" "\<not> mr_out_of_order_delivery m"
    and "pending_body_streaming_requests m = []" "next_streaming_part m = 1" "event_delivery_array m = []"
    and "distinct (map rq_part_number rs)" "\<forall>r \<in> set rs. 0 < rq_part_number r \<and> rq_part_number r < U32_MAX"
  shows "\<exists>ss waiting. mset rs = mset (ss @ waiting) \<and>
           (let m' = fold (\<lambda>r m. fst (aws_s3_meta_request_stream_response_body_synced E m r)) rs m
            in event_delivery_array m' = map (\<lambda>r. EVENT_RESPONSE_BODY r 0) ss \<and>
               map (unat \<circ> rq_part_number) ss = [1..<length ss + 1] \<and>
               length ss + 1 \<notin> (unat \<circ> rq_part_number) ` set rs \<and>
               pending_body_streaming_requests m' = waiting)"
proof -
  let ?step = "\<lambda>r m. fst (aws_s3_meta_request_stream_response_body_synced E m r)"
  have "streaming rs (fold ?step rs m) \<and> next_streaming_part (fold ?step rs m) \<notin> rq_part_number ` set rs"
    using assms(6,7)
  proof (induction rs rule: rev_induct)
    case Nil
    then show ?case using assms(2-5) by (simp add: streaming_def)
  next
    case (snoc r rs)
    let ?m = "fold ?step rs m"
    have ok: "part_numbers_ok (r # rs)"
      using snoc.prems by (auto simp: part_numbers_ok_def)
    have IH: "streaming rs ?m" "next_streaming_part ?m \<notin> rq_part_number ` set rs"
      using snoc by simp_all
    then show ?case
      using streaming_body [OF assms(1) IH(1) ok IH(2)] by (simp add: Let_def streaming_def)
  qed
  then obtain ss where ss: "event_delivery_array (fold ?step rs m) = map (\<lambda>r. EVENT_RESPONSE_BODY r 0) ss"
    "map (unat \<circ> rq_part_number) ss = [1..<unat (next_streaming_part (fold ?step rs m))]"
    "mset rs = mset ss + mset (pending_body_streaming_requests (fold ?step rs m))"
    "1 \<le> next_streaming_part (fold ?step rs m)" "next_streaming_part (fold ?step rs m) \<notin> rq_part_number ` set rs"
    unfolding streaming_def by blast
  have "length ss = unat (next_streaming_part (fold ?step rs m)) - 1"
    using arg_cong [OF ss(2), of length] by simp
  then have len: "unat (next_streaming_part (fold ?step rs m)) = length ss + 1"
    using ss(4) by (simp add: word_le_nat_alt)
  then have "length ss + 1 \<notin> (unat \<circ> rq_part_number) ` set rs"
    using ss(5) by (metis (no_types, lifting) comp_apply image_iff word_unat_eq_iff)
  then show ?thesis
    using ss(1-3) len by (intro exI [of _ ss] exI [of _ "pending_body_streaming_requests (fold ?step rs m)"]) (simp add: Let_def)
qed

theorem bodies_queued_in_part_order_witness:
  "\<exists>ss waiting. mset example_arrivals = mset (ss @ waiting) \<and>
     (let m' = fold (\<lambda>r m. fst (aws_s3_meta_request_stream_response_body_synced example_env m r))
        example_arrivals example_meta_request
      in event_delivery_array m' = map (\<lambda>r. EVENT_RESPONSE_BODY r 0) ss \<and>
         map (unat \<circ> rq_part_number) ss = [1..<length ss + 1] \<and>
         length ss + 1 \<notin> (unat \<circ> rq_part_number) ` set example_arrivals \<and>
         pending_body_streaming_requests m' = waiting)"
proof -
  have "distinct (map rq_part_number example_arrivals)"
    "\<forall>r \<in> set example_arrivals. 0 < rq_part_number r \<and> rq_part_number r < U32_MAX"
    by (simp_all add: example_arrivals_def example_request_def aws_s3_request_new_def order.strict_iff_order)
  then show ?thesis
    by (intro bodies_queued_in_part_order [OF example_env_ok(2)]) (simp_all add: example_meta_request_def)
qed

end
