(* ===== verification/S3_Delivered_Parts.thy ===== *)
theory S3_Delivered_Parts
  imports S3_Delivery
begin

section \<open>Which parts were delivered: the mask and the contiguous prefix\<close>

text \<open>
  Two records of what reached the user. The mask holds one bit per part: it is shown to
  represent the set of delivered parts, to reject a part delivered twice or out of range, and to
  pass the final validation exactly when every part was delivered once. The prefix counts the
  bytes before the first part that is still missing: it is shown to be right for parts delivered
  in any order, which is what a resume token relies on.
\<close>

text \<open>Parts 2, 4 and 1 of an object with parts of five bytes, for an example.\<close>

definition example_deliveries :: "delivery_tracking_record list" where
  "example_deliveries =
     [\<lparr>dt_part_number = 2, dt_range_start = 5, dt_range_end = 9, dt_bytes = 5\<rparr>,
      \<lparr>dt_part_number = 4, dt_range_start = 15, dt_range_end = 19, dt_bytes = 5\<rparr>,
      \<lparr>dt_part_number = 1, dt_range_start = 0, dt_range_end = 4, dt_bytes = 5\<rparr>]"

subsection \<open>The mask represents a set of parts\<close>

definition part_bit :: "u8 list \<Rightarrow> nat \<Rightarrow> bool" where
  "part_bit bytes p = bit (bytes ! ((p - 1) div 8)) ((p - 1) mod 8)"

definition delivered :: "meta_request \<Rightarrow> nat set" where
  "delivered m = {p. 1 \<le> p \<and> p \<le> unat (parts_delivered_mask_num_parts m) \<and> part_bit (the (parts_delivered_mask m)) p}"

definition mask_ok :: "meta_request \<Rightarrow> bool" where
  "mask_ok m \<longleftrightarrow>
     parts_delivered_mask m \<noteq> None \<and>
     length (the (parts_delivered_mask m)) = unat (parts_delivered_mask_length m) \<and>
     unat (parts_delivered_mask_length m) = (unat (parts_delivered_mask_num_parts m) + 7) div 8 \<and>
     unat (parts_delivered_mask_num_parts m) + 7 < 2 ^ 32"

lemma unat_part_index:
  fixes p :: u32
  assumes "1 \<le> p"
  shows "unat (s_byte_index_holding_part p) = (unat p - 1) div 8" "unat ((p - 1) mod 8) = (unat p - 1) mod 8"
  using assms by (simp_all add: s_byte_index_holding_part_def unat_div unat_mod unat_sub)

lemma bit_mask_for_part:
  assumes "1 \<le> p"
  shows "bit (s_bit_mask_for_part p) i \<longleftrightarrow> i = (unat p - 1) mod 8"
proof -
  have "(unat p - 1) mod 8 < 8" by simp
  then show ?thesis
    using assms unat_part_index(2) [OF assms]
    by (auto simp: s_bit_mask_for_part_def bit_simps)
qed

lemma and_bit_mask:
  fixes b :: u8
  assumes "1 \<le> p"
  shows "b AND s_bit_mask_for_part p \<noteq> 0 \<longleftrightarrow> bit b ((unat p - 1) mod 8)"
proof
  assume "b AND s_bit_mask_for_part p \<noteq> 0"
  then obtain i where "bit (b AND s_bit_mask_for_part p) i" by (auto simp: bit_eq_iff)
  then show "bit b ((unat p - 1) mod 8)" using bit_mask_for_part [OF assms] by (auto simp: bit_simps)
next
  assume "bit b ((unat p - 1) mod 8)"
  then have "bit (b AND s_bit_mask_for_part p) ((unat p - 1) mod 8)"
    using bit_mask_for_part [OF assms] by (simp add: bit_simps)
  then show "b AND s_bit_mask_for_part p \<noteq> 0" by fastforce
qed

lemma part_index_inj:
  "1 \<le> p \<Longrightarrow> 1 \<le> q \<Longrightarrow> (p - 1) div 8 = (q - 1) div 8 \<Longrightarrow> (p - 1) mod 8 = (q - 1) mod 8 \<Longrightarrow> (p :: nat) = q"
  by (metis div_mult_mod_eq le_add_diff_inverse)

lemma mark_part:
  assumes "mask_ok m" "1 \<le> p" "unat p \<le> unat (parts_delivered_mask_num_parts m)"
  defines "bytes \<equiv> the (parts_delivered_mask m)" and "i \<equiv> (unat p - 1) div 8"
  shows "i < length bytes"
    and "s_mark_part_delivered m p =
      (if unat p \<in> delivered m then (AWS_ERROR_INVALID_STATE, m)
       else (AWS_ERROR_SUCCESS, m\<lparr>parts_delivered_mask := Some (bytes[i := bytes ! i OR s_bit_mask_for_part p])\<rparr>))"
proof -
  have p: "1 \<le> unat p" using assms(2) by (simp add: word_le_nat_alt)
  have len: "length bytes = (unat (parts_delivered_mask_num_parts m) + 7) div 8"
    and mask: "parts_delivered_mask m = Some bytes"
    using assms(1) by (auto simp: mask_ok_def bytes_def)
  show i: "i < length bytes"
    using p assms(3) by (simp add: len i_def)
  have "\<not> parts_delivered_mask_length m \<le> s_byte_index_holding_part p"
    using i assms(1) unat_part_index [OF assms(2)] by (simp add: mask_ok_def word_le_nat_alt bytes_def i_def)
  moreover have "bit (bytes ! i) ((unat p - 1) mod 8) \<longleftrightarrow> unat p \<in> delivered m"
    using p assms(3) by (simp add: delivered_def part_bit_def i_def bytes_def)
  ultimately show "s_mark_part_delivered m p =
      (if unat p \<in> delivered m then (AWS_ERROR_INVALID_STATE, m)
       else (AWS_ERROR_SUCCESS, m\<lparr>parts_delivered_mask := Some (bytes[i := bytes ! i OR s_bit_mask_for_part p])\<rparr>))"
    using assms(2,3) unat_part_index [OF assms(2)] and_bit_mask [OF assms(2), of "bytes ! i"]
    by (auto simp: s_mark_part_delivered_def mask Let_def i_def word_le_nat_alt word_less_nat_alt)
qed

lemma mark_delivered:
  assumes "mask_ok m" "1 \<le> p" "unat p \<le> unat (parts_delivered_mask_num_parts m)" "unat p \<notin> delivered m"
  shows "fst (s_mark_part_delivered m p) = AWS_ERROR_SUCCESS"
    and "delivered (snd (s_mark_part_delivered m p)) = insert (unat p) (delivered m)"
proof -
  let ?bytes = "the (parts_delivered_mask m)" and ?i = "(unat p - 1) div 8"
  let ?bytes' = "?bytes[?i := ?bytes ! ?i OR s_bit_mask_for_part p]"
  have p: "1 \<le> unat p" using assms(2) by (simp add: word_le_nat_alt)
  have mark: "s_mark_part_delivered m p = (AWS_ERROR_SUCCESS, m\<lparr>parts_delivered_mask := Some ?bytes'\<rparr>)"
    using mark_part(2) [OF assms(1-3)] assms(4) by simp
  have "part_bit ?bytes' q \<longleftrightarrow> q = unat p \<or> part_bit ?bytes q" if "1 \<le> q" for q
    using mark_part(1) [OF assms(1-3)] part_index_inj [OF that p] bit_mask_for_part [OF assms(2)]
    by (cases "(q - 1) div 8 = ?i") (auto simp: part_bit_def bit_simps)
  then show "fst (s_mark_part_delivered m p) = AWS_ERROR_SUCCESS"
    "delivered (snd (s_mark_part_delivered m p)) = insert (unat p) (delivered m)"
    using p assms(3) by (auto simp: mark delivered_def)
qed

lemma mark_rejected:
  assumes "mask_ok m" "\<not> (1 \<le> p \<and> unat p \<le> unat (parts_delivered_mask_num_parts m) \<and> unat p \<notin> delivered m)"
  shows "s_mark_part_delivered m p = (AWS_ERROR_INVALID_STATE, m)"
proof (cases "1 \<le> p \<and> unat p \<le> unat (parts_delivered_mask_num_parts m)")
  case True
  then show ?thesis using mark_part(2) [OF assms(1)] assms(2) by simp
next
  case False
  then have "p < 1 \<or> parts_delivered_mask_num_parts m < p" by (auto simp: word_le_nat_alt word_less_nat_alt)
  then show ?thesis using assms(1) by (auto simp: s_mark_part_delivered_def mask_ok_def)
qed

lemma mark_mask_ok: "mask_ok m \<Longrightarrow> mask_ok (snd (s_mark_part_delivered m p))"
  by (auto simp: mask_ok_def s_mark_part_delivered_def Let_def split: option.split)

lemma byte_with_lowest_bits_set:
  "unat c < 8 \<Longrightarrow> bit (s_byte_with_lowest_bits_set c) i \<longleftrightarrow> i < unat c"
  by (auto simp: s_byte_with_lowest_bits_set_def bit_simps mask_eq_exp_minus_1 [symmetric] push_bit_eq_mult)

subsection \<open>The validation\<close>

lemma and_eq_self_iff:
  fixes a b :: u8
  shows "a AND b = b \<longleftrightarrow> (\<forall>i. bit b i \<longrightarrow> bit a i)"
proof
  assume "a AND b = b"
  then show "\<forall>i. bit b i \<longrightarrow> bit a i" by (metis bit_and_iff)
next
  assume "\<forall>i. bit b i \<longrightarrow> bit a i"
  then show "a AND b = b" by (intro bit_eqI) (auto simp: bit_and_iff)
qed

text \<open>Arithmetic of positions in the mask, on numbers.\<close>

lemma part_index_bound: "1 \<le> p \<Longrightarrow> p \<le> n \<Longrightarrow> (p - 1) div 8 < (n + 7) div (8 :: nat)"
  using div_le_mono [of "p - 1 + 8" "n + 7" 8] by simp

lemma last_byte_bits: "n div 8 \<le> k \<Longrightarrow> k < (n + 7) div 8 \<Longrightarrow> i < 8 \<Longrightarrow> i < n mod 8 \<longleftrightarrow> 8 * k + i < (n :: nat)"
proof -
  assume "n div 8 \<le> k" "k < (n + 7) div 8"
  then have "k = n div 8" by linarith
  moreover have "n = 8 * (n div 8) + n mod 8" by simp
  ultimately show "i < n mod 8 \<longleftrightarrow> 8 * k + i < n" by linarith
qed

lemma full_byte_bits: "\<not> n div 8 \<le> k \<Longrightarrow> i < 8 \<Longrightarrow> 8 * k + i < (n :: nat)"
  by linarith

definition required_byte :: "u32 \<Rightarrow> nat \<Rightarrow> u8" where
  "required_byte n k = (if unat (n div 8) \<le> k then s_byte_with_lowest_bits_set (n mod 8) else 0xFF)"

lemma bit_required_byte:
  assumes "k < (unat n + 7) div 8" "i < 8"
  shows "bit (required_byte n k) i \<longleftrightarrow> 8 * k + i < unat n"
proof (cases "unat n div 8 \<le> k")
  case True
  have "unat (n mod 8) < 8" by (simp add: unat_mod)
  then have "bit (required_byte n k) i \<longleftrightarrow> i < unat n mod 8"
    using True by (simp add: required_byte_def byte_with_lowest_bits_set unat_div unat_mod)
  then show ?thesis using last_byte_bits [OF True assms] by simp
next
  case False
  have "required_byte n k = mask 8"
    using False by (simp add: required_byte_def unat_div mask_eq_exp_minus_1)
  then have "bit (required_byte n k) i"
    using assms(2) by (simp only: bit_mask_iff) simp
  then show ?thesis using full_byte_bits [OF False assms(2)] by simp
qed

lemma validate_iff:
  assumes "mask_ok m"
  shows "aws_s3_meta_request_validate_parts_delivered_synced m = AWS_ERROR_SUCCESS \<longleftrightarrow>
         delivered m = {1..unat (parts_delivered_mask_num_parts m)}"
proof -
  let ?n = "parts_delivered_mask_num_parts m"
  obtain bytes where mask: "parts_delivered_mask m = Some bytes" and len: "unat (parts_delivered_mask_length m) = (unat ?n + 7) div 8"
    and bound: "unat ?n + 7 < 2 ^ 32"
    using assms by (auto simp: mask_ok_def)
  have "unat ((?n + 7) div 8) = (unat ?n + 7) div 8"
    using bound unat_add_nowrap [of ?n 7] by (simp add: unat_div)
  then have num: "parts_delivered_mask_length m = (?n + 7) div 8"
    using len by (simp add: word_unat_eq_iff)
  have "aws_s3_meta_request_validate_parts_delivered_synced m = AWS_ERROR_SUCCESS \<longleftrightarrow>
      (\<forall>k < (unat ?n + 7) div 8. \<forall>i. bit (required_byte ?n k) i \<longrightarrow> bit (bytes ! k) i)"
    unfolding aws_s3_meta_request_validate_parts_delivered_synced_def mask Let_def required_byte_def [symmetric]
      and_eq_self_iff list_all_iff option.case num [symmetric] len option.sel
    by (auto simp: atLeast0LessThan)
  also have "\<dots> \<longleftrightarrow> (\<forall>p. 1 \<le> p \<and> p \<le> unat ?n \<longrightarrow> part_bit bytes p)"
  proof (intro iffI allI impI)
    fix p assume all: "\<forall>k < (unat ?n + 7) div 8. \<forall>i. bit (required_byte ?n k) i \<longrightarrow> bit (bytes ! k) i"
      and p: "1 \<le> p \<and> p \<le> unat ?n"
    have "(p - 1) div 8 < (unat ?n + 7) div 8" using p part_index_bound by blast
    moreover have "8 * ((p - 1) div 8) + (p - 1) mod 8 < unat ?n" using p unfolding mult_div_mod_eq by linarith
    ultimately show "part_bit bytes p"
      unfolding part_bit_def using all bit_required_byte [of "(p - 1) div 8" ?n "(p - 1) mod 8"]
      by (meson mod_less_divisor zero_less_numeral)
  next
    fix k i assume all: "\<forall>p. 1 \<le> p \<and> p \<le> unat ?n \<longrightarrow> part_bit bytes p"
      and k: "k < (unat ?n + 7) div 8" and bit: "bit (required_byte ?n k) i"
    have i: "i < 8" using bit_imp_le_length [OF bit] by simp
    then have "8 * k + i < unat ?n" using bit_required_byte [OF k] bit by simp
    then have "part_bit bytes (8 * k + i + 1)" using spec [OF all, of "8 * k + i + 1"] by simp
    then show "bit (bytes ! k) i" using i by (simp add: part_bit_def)
  qed
  also have "\<dots> \<longleftrightarrow> delivered m = {1..unat ?n}"
    unfolding delivered_def mask option.sel set_eq_iff atLeastAtMost_iff mem_Collect_eq by blast
  finally show ?thesis .
qed

lemma mark_keeps_parts:
  "parts_delivered_mask_num_parts (snd (s_mark_part_delivered m p)) = parts_delivered_mask_num_parts m"
  "finish_result_set (snd (s_mark_part_delivered m p)) = finish_result_set m"
  by (simp_all add: s_mark_part_delivered_def Let_def split: option.split)

lemma set_fail_sets [simp]: "finish_result_set (aws_s3_meta_request_set_fail_synced m r e)"
  by (simp add: aws_s3_meta_request_set_fail_synced_def Let_def split: option.split)

text \<open>The recording of parts delivered in order, from a state in which \<open>delivered m\<close> holds.\<close>

lemma record_failed_in_order: "finish_result_set m \<Longrightarrow> finish_result_set (record_deliveries E False m ds)"
proof (induction ds arbitrary: m)
  case (Cons r ds)
  obtain e m1 where "s_mark_part_delivered m (dt_part_number r) = (e, m1)" by fastforce
  then show ?case
    using Cons mark_keeps_parts(2) [of m "dt_part_number r"] by (simp add: Let_def)
qed simp

definition new_parts :: "meta_request \<Rightarrow> nat list \<Rightarrow> bool" where
  "new_parts m ps \<longleftrightarrow>
     distinct ps \<and> set ps \<subseteq> {1..unat (parts_delivered_mask_num_parts m)} \<and> set ps \<inter> delivered m = {}"

lemma record_in_order:
  assumes "mask_ok m" "\<not> finish_result_set m"
  shows "if new_parts m (map (\<lambda>d. unat (dt_part_number d)) ds)
         then \<not> finish_result_set (record_deliveries E False m ds) \<and> mask_ok (record_deliveries E False m ds) \<and>
              delivered (record_deliveries E False m ds) = delivered m \<union> set (map (\<lambda>d. unat (dt_part_number d)) ds) \<and>
              parts_delivered_mask_num_parts (record_deliveries E False m ds) = parts_delivered_mask_num_parts m
         else finish_result_set (record_deliveries E False m ds)"
  using assms
proof (induction ds arbitrary: m)
  case Nil
  then show ?case by (simp add: new_parts_def)
next
  case (Cons r ds)
  let ?p = "dt_part_number r"
  show ?case
  proof (cases "1 \<le> ?p \<and> unat ?p \<le> unat (parts_delivered_mask_num_parts m) \<and> unat ?p \<notin> delivered m")
    case True
    define m1 where "m1 = snd (s_mark_part_delivered m ?p)"
    have "s_mark_part_delivered m ?p = (AWS_ERROR_SUCCESS, m1)"
      using mark_delivered(1) [OF Cons.prems(1)] True by (simp add: m1_def prod_eq_iff)
    then have rec: "record_deliveries E False m (r # ds) = record_deliveries E False m1 ds"
      by simp
    have m1: "delivered m1 = insert (unat ?p) (delivered m)" "mask_ok m1" "\<not> finish_result_set m1"
      "parts_delivered_mask_num_parts m1 = parts_delivered_mask_num_parts m"
      using mark_delivered(2) [OF Cons.prems(1)] True mark_mask_ok [OF Cons.prems(1)] mark_keeps_parts [of m ?p] Cons.prems(2)
      by (simp_all add: m1_def)
    have "new_parts m (map (\<lambda>d. unat (dt_part_number d)) (r # ds)) \<longleftrightarrow> new_parts m1 (map (\<lambda>d. unat (dt_part_number d)) ds)"
      using True by (auto simp: new_parts_def m1 word_le_nat_alt)
    then show ?thesis
      using Cons.IH [OF m1(2,3)] m1(1,4) unfolding rec by (auto split: if_splits)
  next
    case False
    then have "\<not> new_parts m (map (\<lambda>d. unat (dt_part_number d)) (r # ds))"
      by (auto simp: new_parts_def word_le_nat_alt)
    moreover have "finish_result_set (record_deliveries E False m (r # ds))"
      using mark_rejected [OF Cons.prems(1) False] record_failed_in_order by simp
    ultimately show ?thesis by simp
  qed
qed

lemma empty_mask:
  assumes "unat n + 7 < 2 ^ 32" "parts_delivered_mask_num_parts m = n" "parts_delivered_mask_length m = (n + 7) div 8"
    and "parts_delivered_mask m = Some (replicate (unat ((n + 7) div 8)) 0)"
  shows "mask_ok m" "delivered m = {}"
proof -
  have len: "unat ((n + 7) div 8) = (unat n + 7) div 8"
    using assms(1) unat_add_nowrap [of n 7] by (simp add: unat_div)
  then show "mask_ok m" using assms by (simp add: mask_ok_def)
  have "\<not> part_bit (replicate (unat ((n + 7) div 8)) 0) p" if "1 \<le> p" "p \<le> unat n" for p
    using part_index_bound [OF that] len by (simp add: part_bit_def)
  then show "delivered m = {}" using assms by (auto simp: delivered_def)
qed

text \<open>Whether or not a record fails the meta request, the mask holds the parts recorded that are in range.\<close>

lemma set_fail_mask:
  "mask_ok (aws_s3_meta_request_set_fail_synced m r e) = mask_ok m"
  "delivered (aws_s3_meta_request_set_fail_synced m r e) = delivered m"
  "parts_delivered_mask_num_parts (aws_s3_meta_request_set_fail_synced m r e) = parts_delivered_mask_num_parts m"
  by (simp_all add: aws_s3_meta_request_set_fail_synced_def mask_ok_def delivered_def Let_def split: option.split)

lemma record_delivered:
  assumes "mask_ok m"
  shows "mask_ok (record_deliveries E False m ds) \<and>
    delivered (record_deliveries E False m ds) =
      delivered m \<union> (set (map (\<lambda>d. unat (dt_part_number d)) ds) \<inter> {1..unat (parts_delivered_mask_num_parts m)}) \<and>
    parts_delivered_mask_num_parts (record_deliveries E False m ds) = parts_delivered_mask_num_parts m"
  using assms
proof (induction ds arbitrary: m)
  case (Cons r ds)
  let ?p = "dt_part_number r" and ?n = "unat (parts_delivered_mask_num_parts m)"
  obtain m1 where rec: "record_deliveries E False m (r # ds) = record_deliveries E False m1 ds" and m1: "mask_ok m1"
    "parts_delivered_mask_num_parts m1 = parts_delivered_mask_num_parts m" "delivered m1 = delivered m \<union> ({unat ?p} \<inter> {1..?n})"
  proof (cases "1 \<le> ?p \<and> unat ?p \<le> ?n \<and> unat ?p \<notin> delivered m")
    case True
    define m1 where "m1 = snd (s_mark_part_delivered m ?p)"
    have "s_mark_part_delivered m ?p = (AWS_ERROR_SUCCESS, m1)"
      using mark_delivered(1) [OF Cons.prems] True by (simp add: m1_def prod_eq_iff)
    then have "record_deliveries E False m (r # ds) = record_deliveries E False m1 ds" by simp
    then show thesis
      using that [of m1] mark_delivered(2) [OF Cons.prems] True mark_mask_ok [OF Cons.prems]
        mark_keeps_parts [of m ?p] by (auto simp: m1_def word_le_nat_alt)
  next
    case False
    have "delivered m \<union> ({unat ?p} \<inter> {1..?n}) = delivered m" using False by (auto simp: word_le_nat_alt)
    then show thesis
      using that [of "aws_s3_meta_request_set_fail_synced m None AWS_ERROR_INVALID_STATE"] mark_rejected [OF Cons.prems False]
        Cons.prems by (simp add: set_fail_mask)
  qed
  show ?case using Cons.IH [OF m1(1)] unfolding rec m1(2,3) by auto
qed simp

text \<open>
  C18. What the final validation of the delivered parts establishes. Start from an empty mask for \<open>n\<close> parts (allocated
  with \<open>(n + 7) / 8\<close> bytes, \<open>n + 7 < 2^32\<close>) and a meta request that has not failed, and record delivered parts
  in any order of their numbers, as the ordered delivery does. The meta request is failed exactly when a part was recorded
  twice or is out of range; the validation succeeds exactly when no part is missing; so the meta request has not failed
  and the validation succeeds if and only if the recorded parts are \<open>1\<close> to \<open>n\<close>, each once.
\<close>

theorem validation_iff_each_part_once:
  assumes "unat n + 7 < 2 ^ 32" "\<not> finish_result_set m" "parts_delivered_mask_num_parts m = n"
    and "parts_delivered_mask_length m = (n + 7) div 8"
    and "parts_delivered_mask m = Some (replicate (unat ((n + 7) div 8)) 0)"
    and "ps = map (\<lambda>d. unat (dt_part_number d)) ds" "m' = record_deliveries E False m ds"
  shows "(finish_result_set m' \<longleftrightarrow> \<not> (distinct ps \<and> set ps \<subseteq> {1..unat n})) \<and>
         (aws_s3_meta_request_validate_parts_delivered_synced m' = AWS_ERROR_SUCCESS \<longleftrightarrow> {1..unat n} \<subseteq> set ps) \<and>
         (\<not> finish_result_set m' \<and> aws_s3_meta_request_validate_parts_delivered_synced m' = AWS_ERROR_SUCCESS \<longleftrightarrow>
            mset ps = mset [1..<unat n + 1])"
proof -
  have m: "mask_ok m" "delivered m = {}" using empty_mask [OF assms(1,3,4,5)] .
  have failed: "finish_result_set m' \<longleftrightarrow> \<not> (distinct ps \<and> set ps \<subseteq> {1..unat n})"
    using record_in_order [OF m(1) assms(2), of ds E] unfolding new_parts_def m(2) assms(3) assms(6,7) [symmetric]
    by (auto split: if_splits)
  have rec: "mask_ok m'" "delivered m' = set ps \<inter> {1..unat n}" "parts_delivered_mask_num_parts m' = n"
    using record_delivered [OF m(1), of E ds] unfolding m(2) assms(3) assms(6,7) [symmetric] by auto
  have valid: "aws_s3_meta_request_validate_parts_delivered_synced m' = AWS_ERROR_SUCCESS \<longleftrightarrow> {1..unat n} \<subseteq> set ps"
    using validate_iff [OF rec(1)] unfolding rec(2,3) by blast
  have "set [1..<unat n + 1] = {1..unat n}" by auto
  then have "mset ps = mset [1..<unat n + 1] \<longleftrightarrow> distinct ps \<and> set ps = {1..unat n}"
    using mset_eq_imp_distinct_iff [of ps "[1..<unat n + 1]"] mset_eq_setD [of ps "[1..<unat n + 1]"]
      set_eq_iff_mset_eq_distinct [of ps "[1..<unat n + 1]"] distinct_upt by metis
  then show ?thesis using failed valid by blast
qed

theorem validation_iff_each_part_once_witness:
  "let m = example_meta_request\<lparr>parts_delivered_mask := Some (replicate 2 0), parts_delivered_mask_length := 2,
             parts_delivered_mask_num_parts := 9\<rparr>;
       ds = map (\<lambda>p. \<lparr>dt_part_number = p, dt_range_start = 0, dt_range_end = 0, dt_bytes = 1\<rparr>) [2, 1, 9, 3, 8, 5, 4, 7, 6]
   in \<not> finish_result_set (record_deliveries example_env False m ds) \<and>
      aws_s3_meta_request_validate_parts_delivered_synced (record_deliveries example_env False m ds) = AWS_ERROR_SUCCESS"
proof -
  let ?m = "example_meta_request\<lparr>parts_delivered_mask := Some (replicate 2 0), parts_delivered_mask_length := 2,
             parts_delivered_mask_num_parts := 9\<rparr>"
  let ?ds = "map (\<lambda>p. \<lparr>dt_part_number = p, dt_range_start = 0, dt_range_end = 0, dt_bytes = 1\<rparr>) [2, 1, 9, 3, 8, 5, 4, 7, 6]"
  have "[1..<10] = [1, 2, 3, 4, 5, 6, 7, 8, 9 :: nat]" by code_simp
  then have "mset (map (\<lambda>d. unat (dt_part_number d)) ?ds) = mset [1..<unat (9 :: u32) + 1]"
    by (simp add: add_mset_commute)
  moreover have "unat ((9 + 7) div 8 :: u32) = 2" "(9 + 7) div 8 = (2 :: u32)" "\<not> finish_result_set ?m"
    by (simp_all add: example_meta_request_def)
  ultimately show ?thesis
    using validation_iff_each_part_once [of 9 ?m _ ?ds, OF _ _ _ _ _ refl refl, of example_env] unfolding Let_def by simp
qed

subsection \<open>The contiguous prefix\<close>

text \<open>
  The records \<open>ds\<close> have been delivered, in any order; \<open>start p\<close> is where part \<open>p\<close> begins in the
  object. The queue \<open>q\<close> holds the records at or after the next part of the prefix.
\<close>

abbreviation next_part :: "meta_request \<Rightarrow> u32" where
  "next_part \<equiv> next_contiguous_delivered_part"

definition layout :: "(nat \<Rightarrow> u64) \<Rightarrow> delivery_tracking_record list \<Rightarrow> bool" where
  "layout start ds \<longleftrightarrow>
     distinct (map dt_part_number ds) \<and>
     (\<forall>r \<in> set ds. 0 < dt_part_number r \<and> dt_part_number r < U32_MAX \<and>
        dt_range_start r = start (unat (dt_part_number r)) \<and> dt_range_end r + 1 = start (unat (dt_part_number r) + 1))"

definition prefix_of :: "(nat \<Rightarrow> u64) \<Rightarrow> delivery_tracking_record list \<Rightarrow> delivery_tracking_record list \<Rightarrow> meta_request \<Rightarrow> bool" where
  "prefix_of start ds q m \<longleftrightarrow>
     mset q = mset (filter (\<lambda>r. next_part m \<le> dt_part_number r) ds) \<and> sorted (map dt_part_number q) \<and>
     (\<forall>p. 0 < p \<longrightarrow> p < next_part m \<longrightarrow> p \<in> dt_part_number ` set ds) \<and>
     num_bytes_delivered m = sum_list (map dt_bytes (filter (\<lambda>r. dt_part_number r < next_part m) ds)) \<and>
     num_bytes_delivered_total m = sum_list (map dt_bytes ds) \<and> 0 < next_part m \<and>
     (next_part m = 1 \<or> next_contiguous_delivered_range_start m = start (unat (next_part m)))"

lemma part_cases:
  fixes k p :: u32
  assumes "k < U32_MAX"
  shows "(p < k + 1) = (p < k \<or> p = k)" "(k + 1 \<le> p) = (k \<le> p \<and> p \<noteq> k)"
  using unat_inc_nowrap [OF assms] by (auto simp: word_less_nat_alt word_le_nat_alt word_unat_eq_iff)

lemma sum_filter_insert:
  assumes "distinct (map dt_part_number ds)" "r \<in> set ds" "\<not> P (dt_part_number r)"
  shows "sum_list (map dt_bytes (filter (\<lambda>x. P (dt_part_number x) \<or> dt_part_number x = dt_part_number r) ds)) =
         sum_list (map dt_bytes (filter (\<lambda>x. P (dt_part_number x)) ds)) + dt_bytes r"
  using assms
proof (induction ds)
  case (Cons x ds)
  show ?case
  proof (cases "x = r")
    case True
    then have "filter (\<lambda>x. P (dt_part_number x) \<or> dt_part_number x = dt_part_number r) ds = filter (\<lambda>x. P (dt_part_number x)) ds"
      using Cons.prems(1) by (intro filter_cong) (auto simp: image_iff)
    then show ?thesis using True Cons.prems(3) by (simp add: add.commute)
  next
    case False
    then show ?thesis using Cons by (auto simp: add.assoc image_iff)
  qed
qed simp

text \<open>Extending the prefix by the record of its next part.\<close>

lemma extend_prefix:
  assumes "layout start ds" "prefix_of start ds (r # q) m" "dt_part_number r = next_part m"
  obtains m' where "s_s3_meta_request_extend_delivered_prefix_synced m r = (AWS_ERROR_SUCCESS, m')" "prefix_of start ds q m'"
proof -
  have r: "r \<in> set ds"
    using assms(2) unfolding prefix_of_def by (metis filter_is_subset list.set_intros(1) mset_eq_setD subsetD)
  then have k: "next_part m < U32_MAX" "dt_range_start r = start (unat (next_part m))"
    "dt_range_end r + 1 = start (unat (next_part m) + 1)" and dist: "distinct (map dt_part_number ds)"
    using assms(1,3) by (auto simp: layout_def)
  have inc: "unat (next_part m + 1) = unat (next_part m) + 1" using unat_inc_nowrap [OF k(1)] .
  define m' where "m' = m\<lparr>num_bytes_delivered := num_bytes_delivered m + dt_bytes r,
    next_contiguous_delivered_range_start := dt_range_end r + 1, next_contiguous_delivered_part := next_part m + 1\<rparr>"
  have ext: "s_s3_meta_request_extend_delivered_prefix_synced m r = (AWS_ERROR_SUCCESS, m')"
    using assms(2) k(2) by (auto simp: s_s3_meta_request_extend_delivered_prefix_synced_def prefix_of_def m'_def)
  let ?Q = "filter (\<lambda>x. next_part m \<le> dt_part_number x) ds"
  have rq: "mset (r # q) = mset ?Q" using assms(2) by (simp add: prefix_of_def)
  have "distinct (map dt_part_number (r # q))"
    using mset_eq_imp_distinct_iff [of "map dt_part_number (r # q)" "map dt_part_number ?Q"] rq distinct_map_filter [OF dist]
    by (metis mset_map)
  then have q: "filter (\<lambda>x. dt_part_number x \<noteq> next_part m) (r # q) = q"
    using assms(3) by (auto simp: image_iff intro!: filter_True)
  have "mset q = mset (filter (\<lambda>x. dt_part_number x \<noteq> next_part m) ?Q)"
    using arg_cong [OF rq, of "filter_mset (\<lambda>x. dt_part_number x \<noteq> next_part m)"] q by (metis mset_filter)
  also have "\<dots> = mset (filter (\<lambda>x. next_part m + 1 \<le> dt_part_number x) ds)"
    by (simp add: part_cases(2) [OF k(1)] conj_commute)
  finally have "mset q = mset (filter (\<lambda>x. next_part m + 1 \<le> dt_part_number x) ds)" .
  moreover have "num_bytes_delivered m + dt_bytes r =
      sum_list (map dt_bytes (filter (\<lambda>x. dt_part_number x < next_part m + 1) ds))"
    using assms(2) sum_filter_insert [OF dist r, of "\<lambda>p. p < next_part m"] assms(3)
    by (simp add: prefix_of_def part_cases(1) [OF k(1)])
  moreover have "\<forall>p. 0 < p \<longrightarrow> p < next_part m + 1 \<longrightarrow> p \<in> dt_part_number ` set ds"
    using assms(2,3) r unfolding prefix_of_def part_cases(1) [OF k(1)] by (metis image_eqI)
  moreover have "0 < next_part m + 1" using inc by (simp add: word_less_nat_alt)
  ultimately have "prefix_of start ds q m'"
    using assms(2) k(3) inc by (simp add: prefix_of_def m'_def)
  then show thesis using that ext by blast
qed

lemma drain_prefix:
  assumes "layout start ds" "prefix_of start ds q m"
  shows "\<exists>m'. drain_deliveries q m = (AWS_ERROR_SUCCESS, m') \<and>
           prefix_of start ds (completed_deliveries_tracker m') m' \<and> next_part m' \<notin> dt_part_number ` set ds"
  using assms(2)
proof (induction q arbitrary: m)
  case Nil
  then have "filter (\<lambda>r. next_part m \<le> dt_part_number r) ds = []" by (simp add: prefix_of_def)
  then have "next_part m \<notin> dt_part_number ` set ds" by (auto simp: filter_empty_conv)
  then show ?case using Nil by (simp add: prefix_of_def)
next
  case (Cons r q)
  show ?case
  proof (cases "dt_part_number r = next_part m")
    case True
    obtain m' where m': "s_s3_meta_request_extend_delivered_prefix_synced m r = (AWS_ERROR_SUCCESS, m')" "prefix_of start ds q m'"
      using extend_prefix [OF assms(1) Cons.prems True] .
    then show ?thesis using Cons.IH [OF m'(2)] True by simp
  next
    case False
    have "set (r # q) = set (filter (\<lambda>r. next_part m \<le> dt_part_number r) ds)"
      using Cons.prems unfolding prefix_of_def by (metis mset_eq_setD)
    moreover have "\<forall>x \<in> set q. dt_part_number r \<le> dt_part_number x" using Cons.prems by (simp add: prefix_of_def)
    ultimately have "next_part m \<notin> dt_part_number ` set ds"
      using False by (auto simp: set_eq_iff) (metis order.antisym order.refl)+
    then show ?thesis using False Cons.prems by (simp add: prefix_of_def)
  qed
qed

text \<open>Recording one more part.\<close>

lemma record_prefix:
  assumes "queue_ok dt_part_number (push_delivery E)" "layout start (r # ds)"
    and "prefix_of start ds (completed_deliveries_tracker m) m" "next_part m \<notin> dt_part_number ` set ds"
  shows "\<exists>m'. s_s3_meta_request_record_delivered_part_synced E m r = (AWS_ERROR_SUCCESS, m') \<and>
           prefix_of start (r # ds) (completed_deliveries_tracker m') m' \<and> next_part m' \<notin> dt_part_number ` set (r # ds)"
proof -
  let ?m = "m\<lparr>num_bytes_delivered_total := num_bytes_delivered_total m + dt_bytes r\<rparr>"
  have le: "next_part m \<le> dt_part_number r"
  proof (rule ccontr)
    assume "\<not> next_part m \<le> dt_part_number r"
    then have "dt_part_number r < next_part m" by simp
    moreover have "0 < dt_part_number r" "\<forall>p. 0 < p \<longrightarrow> p < next_part m \<longrightarrow> p \<in> dt_part_number ` set ds"
      using assms(2,3) by (simp_all add: prefix_of_def layout_def)
    ultimately have "dt_part_number r \<in> dt_part_number ` set ds" by blast
    then show False using assms(2) by (simp add: layout_def)
  qed
  obtain q where q: "push_delivery E r (completed_deliveries_tracker m) = Inr q"
    "mset q = add_mset r (mset (completed_deliveries_tracker m))" "sorted (map dt_part_number q)"
    using assms(1,3) unfolding queue_ok_def prefix_of_def by blast
  have nl: "\<not> dt_part_number r < next_part m" using le by simp
  show ?thesis
  proof (cases "dt_part_number r = next_part m")
    case False
    then have "prefix_of start (r # ds) q (?m\<lparr>completed_deliveries_tracker := q\<rparr>)"
      using assms(3) q(2,3) le nl by (simp add: prefix_of_def add.commute)
    then show ?thesis
      using False assms(4) q(1) by (auto simp: s_s3_meta_request_record_delivered_part_synced_def Let_def)
  next
    case True
    have "set (completed_deliveries_tracker m) = set (filter (\<lambda>r. next_part m \<le> dt_part_number r) ds)"
      using assms(3) unfolding prefix_of_def by (metis mset_eq_setD)
    then have "\<forall>x \<in> set (completed_deliveries_tracker m). dt_part_number r \<le> dt_part_number x"
      unfolding True by simp
    then have pre: "prefix_of start (r # ds) (r # completed_deliveries_tracker m) ?m"
      using assms(3) le nl True by (simp add: prefix_of_def add.commute)
    have "dt_part_number r = next_part ?m" using True by simp
    then obtain m1 where m1: "s_s3_meta_request_extend_delivered_prefix_synced ?m r = (AWS_ERROR_SUCCESS, m1)"
      "prefix_of start (r # ds) (completed_deliveries_tracker m) m1"
      using extend_prefix [OF assms(2) pre] by blast
    have "completed_deliveries_tracker m1 = completed_deliveries_tracker m"
      using m1(1) by (auto simp: s_s3_meta_request_extend_delivered_prefix_synced_def Let_def split: if_splits)
    then show ?thesis
      using drain_prefix [OF assms(2) m1(2)] True m1(1) by (simp add: s_s3_meta_request_record_delivered_part_synced_def Let_def)
  qed
qed

lemma prefix_of_perm:
  assumes "mset ds = mset ds'"
  shows "prefix_of start ds q m = prefix_of start ds' q m"
proof -
  have filt: "mset (filter P ds) = mset (filter P ds')" for P
    by (simp only: mset_filter assms)
  have sums: "sum_list (map dt_bytes xs) = sum_list (map dt_bytes ys)" if "mset xs = mset ys" for xs ys
    unfolding sum_mset_sum_list [symmetric] mset_map that by (rule refl)
  show ?thesis
    unfolding prefix_of_def filt sums [OF assms] sums [OF filt [of "\<lambda>r. dt_part_number r < next_part m"]] mset_eq_setD [OF assms]
    by (rule refl)
qed

text \<open>
  C19. The prefix a resume token reports is right. Let parts of an object be delivered out of order,
  each once, and let part \<open>p\<close> begin where part \<open>p - 1\<close> ends. Then every recording succeeds, and
  afterwards there is a first missing part \<open>k\<close> such that the prefix ends before it:
  \<open>next_contiguous_delivered_part\<close> is \<open>k\<close>, \<open>num_bytes_delivered\<close> is the sum of the bytes of the
  parts before \<open>k\<close>, and \<open>num_bytes_delivered_total\<close> the sum over all delivered parts.
\<close>

theorem prefix_counts_contiguous_parts:
  assumes "queue_ok dt_part_number (push_delivery E)" "layout start ds"
    and "next_contiguous_delivered_part m = 1" "completed_deliveries_tracker m = []"
    and "num_bytes_delivered m = 0" "num_bytes_delivered_total m = 0"
  shows "\<exists>m' k. fold (\<lambda>r s. case s of Inl e \<Rightarrow> Inl e | Inr m \<Rightarrow>
             (case s_s3_meta_request_record_delivered_part_synced E m r of
                (e, m') \<Rightarrow> if e = AWS_ERROR_SUCCESS then Inr m' else Inl e)) ds (Inr m) = Inr m' \<and>
           next_contiguous_delivered_part m' = k \<and> 0 < k \<and> k \<notin> dt_part_number ` set ds \<and>
           (\<forall>p. 0 < p \<and> p < k \<longrightarrow> p \<in> dt_part_number ` set ds) \<and>
           num_bytes_delivered m' = sum_list (map dt_bytes (filter (\<lambda>r. dt_part_number r < k) ds)) \<and>
           num_bytes_delivered_total m' = sum_list (map dt_bytes ds)"
proof -
  let ?step = "\<lambda>r s. case s of Inl e \<Rightarrow> Inl e | Inr m \<Rightarrow>
    (case s_s3_meta_request_record_delivered_part_synced E m r of
       (e, m') \<Rightarrow> if e = AWS_ERROR_SUCCESS then Inr m' else Inl e)"
  have "\<exists>m'. fold ?step ds (Inr m) = Inr m' \<and> prefix_of start ds (completed_deliveries_tracker m') m' \<and>
      next_part m' \<notin> dt_part_number ` set ds"
    using assms(2)
  proof (induction ds rule: rev_induct)
    case Nil
    then show ?case using assms(3-6) by (auto simp: prefix_of_def)
  next
    case (snoc r ds)
    have lay: "layout start ds" "layout start (r # ds)" using snoc.prems by (auto simp: layout_def)
    obtain m1 where m1: "fold ?step ds (Inr m) = Inr m1" "prefix_of start ds (completed_deliveries_tracker m1) m1"
      "next_part m1 \<notin> dt_part_number ` set ds"
      using snoc.IH [OF lay(1)] by blast
    obtain m' where m': "s_s3_meta_request_record_delivered_part_synced E m1 r = (AWS_ERROR_SUCCESS, m')"
      "prefix_of start (r # ds) (completed_deliveries_tracker m') m'" "next_part m' \<notin> dt_part_number ` set (r # ds)"
      using record_prefix [OF assms(1) lay(2) m1(2,3)] by blast
    have "prefix_of start (ds @ [r]) (completed_deliveries_tracker m') m'"
      using m'(2) by (subst prefix_of_perm [of _ "r # ds"]) simp_all
    then show ?case using m1(1) m'(1,3) by simp
  qed
  then show ?thesis unfolding prefix_of_def by auto
qed

theorem prefix_counts_contiguous_parts_witness:
  "\<exists>m' k. fold (\<lambda>r s. case s of Inl e \<Rightarrow> Inl e | Inr m \<Rightarrow>
       (case s_s3_meta_request_record_delivered_part_synced example_env m r of
          (e, m') \<Rightarrow> if e = AWS_ERROR_SUCCESS then Inr m' else Inl e)) example_deliveries (Inr example_meta_request) = Inr m' \<and>
     next_contiguous_delivered_part m' = k \<and> 0 < k \<and> k \<notin> dt_part_number ` set example_deliveries \<and>
     (\<forall>p. 0 < p \<and> p < k \<longrightarrow> p \<in> dt_part_number ` set example_deliveries) \<and>
     num_bytes_delivered m' = sum_list (map dt_bytes (filter (\<lambda>r. dt_part_number r < k) example_deliveries)) \<and>
     num_bytes_delivered_total m' = sum_list (map dt_bytes example_deliveries)"
proof -
  have "layout (\<lambda>p. of_nat ((p - 1) * 5)) example_deliveries"
    by (simp add: layout_def example_deliveries_def order.strict_iff_order)
  then show ?thesis
    by (rule prefix_counts_contiguous_parts [OF example_env_ok(3)]) (simp_all add: example_meta_request_def)
qed

end
