(* ===== verification/S3_Response.thy ===== *)
theory S3_Response
  imports S3_Meta_Request
begin

section \<open>Receiving the response to a request (\<^verbatim>\<open>source/s3_meta_request.c\<close>)\<close>

text \<open>
  What happens to one request while its response arrives: the response status, the headers with the
  check of the \<open>Content-Range\<close>, the checksum the response carries, the body, the completion of the
  stream, and the decision whether the request succeeded, failed or is sent again. Also the digests
  of the parts, which are recorded here and folded into the checksum of the whole object when the
  meta request finishes.

  The fields of \<open>struct aws_s3_request\<close> that live only while a response is received are in the
  record \<open>response\<close>. The buffer functions of aws-c-common and the claim of a ticket are parameters.
  A byte buffer is its contents and, where the code compares buffers, the address of its memory (0 is \<open>NULL\<close>).
  The callbacks of aws-c-http run on the thread of the connection, one after the other: the
  definitions take the meta request, which they read and whose slots they write.
\<close>

record response =
  rp_request :: aws_s3_request
  rp_response_header_checksum :: string
  rp_running_response_sum :: "aws_s3_checksum option"
  rp_combine_sum :: "aws_s3_checksum option"
  rp_request_id :: "string option"
  rp_amz_id_2 :: "string option"
  rp_body_dynamic :: bool
  rp_response_body_buffer :: nat
  rp_request_body_buffer :: nat

record response_env =
  re_str :: str_lib
  re_hash :: hash_lib
  re_xml_parse :: "string \<Rightarrow> xml_node option"
  re_buf_append :: "usize \<Rightarrow> u8 list \<Rightarrow> u8 list \<Rightarrow> u8 list result"
  re_buf_append_dynamic :: "nat \<Rightarrow> usize \<Rightarrow> u8 list \<Rightarrow> u8 list \<Rightarrow> (u8 list \<times> usize \<times> nat) result"
  re_buf_init :: "usize \<Rightarrow> nat"
  re_ticket_claim :: "nat \<Rightarrow> usize \<times> nat"

subsection \<open>Errors of a response\<close>

definition s_s3_meta_request_error_code_from_response_status :: "nat \<Rightarrow> aws_error" where
  "s_s3_meta_request_error_code_from_response_status response_status =
     (if response_status = 200 \<or> response_status = 206 \<or> response_status = 204 then AWS_ERROR_SUCCESS
      else if response_status = 500 \<or> response_status = 502 \<or> response_status = 504 then AWS_ERROR_S3_INTERNAL_ERROR
      else if response_status = 503 then AWS_ERROR_S3_SLOW_DOWN
      else AWS_ERROR_S3_INVALID_RESPONSE_STATUS)"

definition s_should_check_for_error_despite_200_OK :: "aws_s3_request \<Rightarrow> bool" where
  "s_should_check_for_error_despite_200_OK request = (rq_type request \<noteq> AWS_S3_REQUEST_TYPE_GET_OBJECT)"

text \<open>The body of a response as the text of a document.\<close>

definition body_text :: "u8 list \<Rightarrow> string" where
  "body_text body = map (\<lambda>b. char_of (unat b)) body"

definition s_s3_meta_request_error_code_from_response :: "response_env \<Rightarrow> aws_s3_request \<Rightarrow> aws_error" where
  "s_s3_meta_request_error_code_from_response E request =
     (let error_code_from_status = s_s3_meta_request_error_code_from_response_status (rq_response_status request);
          error_code_from_xml =
            (if (error_code_from_status \<noteq> AWS_ERROR_SUCCESS \<or> s_should_check_for_error_despite_200_OK request) \<and>
                rq_response_body request \<noteq> []
             then
               (case aws_xml_get_body_at_path (eq_ignore_case (re_str E)) (re_xml_parse E)
                       (body_text (rq_response_body request)) [''Error'', ''Code''] of
                  Inr error_code_string \<Rightarrow>
                    aws_s3_crt_error_code_from_recoverable_server_error_code_string (re_str E) error_code_string
                | Inl _ \<Rightarrow> AWS_ERROR_SUCCESS)
             else AWS_ERROR_SUCCESS)
      in if error_code_from_status = AWS_ERROR_SUCCESS
         then (if error_code_from_xml = AWS_ERROR_SUCCESS then AWS_ERROR_SUCCESS
               else if error_code_from_xml = AWS_ERROR_UNKNOWN then AWS_ERROR_S3_NON_RECOVERABLE_ASYNC_ERROR
               else error_code_from_xml)
         else (if error_code_from_xml = AWS_ERROR_SUCCESS \<or> error_code_from_xml = AWS_ERROR_UNKNOWN
               then error_code_from_status else error_code_from_xml))"

subsection \<open>Digests of the parts\<close>

text \<open>\<open>None\<close> is the failed assertion on the length of the digest.\<close>

definition s_s3_meta_request_record_part_digest ::
    "meta_request \<Rightarrow> u32 \<Rightarrow> u8 list \<Rightarrow> u64 \<Rightarrow> meta_request option" where
  "s_s3_meta_request_record_part_digest m part_number digest len =
     (if \<not> (length digest > 0 \<and> length digest \<le> unat AWS_S3_COMBINABLE_DIGEST_MAX_LEN) then None
      else if part_number > mr_combine_slot_count m then Some m
      else
        Some (m\<lparr>mr_combine_slots := map_option
                  (\<lambda>slots. slots[unat (part_number - 1) := \<lparr>slot_length = len, slot_digest = digest\<rparr>])
                  (mr_combine_slots m)\<rparr>))"

text \<open>The loop over the slots: the running sum so far, and whether every slot was folded in.\<close>

fun fold_slots :: "hash_lib \<Rightarrow> aws_s3_checksum \<Rightarrow> combine_slot list \<Rightarrow> bool \<times> aws_s3_checksum" where
  "fold_slots H running_sum [] = (True, running_sum)"
| "fold_slots H running_sum (slot # slots) =
     (if slot_digest slot = [] then (False, running_sum)
      else
        (case aws_checksum_combine_digest H (Some running_sum) (slot_digest slot) (slot_length slot) of
           Inl e \<Rightarrow> (False, running_sum)
         | Inr running_sum' \<Rightarrow> fold_slots H running_sum' slots))"

definition s_s3_meta_request_fold_combine_slots :: "hash_lib \<Rightarrow> meta_request \<Rightarrow> (bool \<times> meta_request) option" where
  "s_s3_meta_request_fold_combine_slots H m =
     (case mr_running_response_sum m of
        None \<Rightarrow> None
      | Some running_sum \<Rightarrow>
          (case mr_combine_slots m of
             None \<Rightarrow> Some (False, m)
           | Some slots \<Rightarrow>
               if mr_combine_slot_count m = 0 then Some (False, m)
               else
                 let (complete, running_sum') = fold_slots H running_sum (take (unat (mr_combine_slot_count m)) slots)
                 in Some (complete, m\<lparr>mr_running_response_sum := Some running_sum'\<rparr>)))"

text \<open>
  Setting the slots up when the number of parts is known. The outer \<open>None\<close> is the failed assertion
  that there are no slots yet; the error is beside the state.
\<close>

definition aws_s3_meta_request_setup_checksum_combine_synced ::
    "hash_lib \<Rightarrow> meta_request \<Rightarrow> aws_s3_request \<Rightarrow> u32 \<Rightarrow> (aws_error \<times> meta_request) option" where
  "aws_s3_meta_request_setup_checksum_combine_synced H m discovery_request total_num_parts =
     (let m = m\<lparr>mr_checksum_combinable := False\<rparr> in
      case mr_running_response_sum m of
        None \<Rightarrow> Some (AWS_ERROR_SUCCESS, m)
      | Some running_sum \<Rightarrow>
          if \<not> aws_checksum_algorithm_is_combinable (cs_algorithm running_sum) then Some (AWS_ERROR_SUCCESS, m)
          else if total_num_parts = 0 then Some (AWS_ERROR_SUCCESS, m)
          else if mr_combine_slots m \<noteq> None then None
          else
            let m = m\<lparr>mr_combine_slots := Some (replicate (unat total_num_parts) \<lparr>slot_length = 0, slot_digest = []\<rparr>),
                      mr_combine_slot_count := total_num_parts, mr_checksum_combinable := True\<rparr>;
                body = rq_response_body discovery_request
            in if rq_part_number discovery_request = 0 \<or> body = [] then Some (AWS_ERROR_SUCCESS, m)
               else
                 (case aws_checksum_new H (cs_algorithm running_sum) of
                    Inl e \<Rightarrow> Some (e, m)
                  | Inr part_sum \<Rightarrow>
                      (case aws_checksum_update H part_sum body of
                         Inl e \<Rightarrow> Some (e, m)
                       | Inr part_sum' \<Rightarrow>
                           (case fst (aws_checksum_finalize H part_sum' AWS_S3_COMBINABLE_DIGEST_MAX_LEN) of
                              Inl e \<Rightarrow> Some (e, m)
                            | Inr part_digest \<Rightarrow>
                                map_option (\<lambda>m. (AWS_ERROR_SUCCESS, m))
                                  (s_s3_meta_request_record_part_digest m (rq_part_number discovery_request) part_digest
                                     (of_nat (length body)))))))"

definition s_ensure_part_combine_sum :: "hash_lib \<Rightarrow> meta_request \<Rightarrow> response \<Rightarrow> response result" where
  "s_ensure_part_combine_sum H m r =
     (if rp_combine_sum r \<noteq> None then Inr r
      else if rq_part_number (rp_request r) = 0 then Inr r
      else
        (case mr_running_response_sum m of
           None \<Rightarrow> Inr r
         | Some running_sum \<Rightarrow>
             if \<not> mr_checksum_combinable m then Inr r
             else (case aws_checksum_new H (cs_algorithm running_sum) of
                     Inl e \<Rightarrow> Inl e
                   | Inr combine_sum \<Rightarrow> Inr (r\<lparr>rp_combine_sum := Some combine_sum\<rparr>))))"

subsection \<open>Incoming headers\<close>

definition s_header_value_from_list :: "(string \<times> string) list \<Rightarrow> string \<Rightarrow> string option" where
  "s_header_value_from_list hs name = map_option snd (List.find (\<lambda>(n, v). n = name) hs)"

fun part_checksum_loop ::
    "hash_lib \<Rightarrow> checksum_config_storage \<Rightarrow> (string \<times> string) list \<Rightarrow> checksum_algorithm list \<Rightarrow> response \<Rightarrow> response" where
  "part_checksum_loop H config hs [] r = r"
| "part_checksum_loop H config hs (algorithm # rest) r =
     (if \<not> aws_s3_meta_request_checksum_config_has_algorithm config algorithm then part_checksum_loop H config hs rest r
      else
        (case s_header_value_from_list hs (aws_get_http_header_name_from_checksum_algorithm algorithm) of
           None \<Rightarrow> part_checksum_loop H config hs rest r
         | Some header_sum \<Rightarrow>
             let encoded_len =
               (case aws_base64_compute_encoded_len H (aws_get_digest_size_from_checksum_algorithm H algorithm) of
                  Inr n \<Rightarrow> n | Inl _ \<Rightarrow> 0) in
             if of_nat (length header_sum) = encoded_len
             then r\<lparr>rp_response_header_checksum := header_sum,
                    rp_running_response_sum := (case aws_checksum_new H algorithm of Inr s \<Rightarrow> Some s | Inl _ \<Rightarrow> None)\<rparr>
             else r))"

definition s_get_part_response_headers_checksum_helper ::
    "hash_lib \<Rightarrow> checksum_config_storage \<Rightarrow> (string \<times> string) list \<Rightarrow> response \<Rightarrow> response" where
  "s_get_part_response_headers_checksum_helper H config hs r =
     part_checksum_loop H config hs s_checksum_algo_priority_list r"

text \<open>Whether a \<open>Content-Range\<close> value answers what the request asked for.\<close>

definition check_content_range :: "str_lib \<Rightarrow> aws_s3_request \<Rightarrow> string \<Rightarrow> aws_error" where
  "check_content_range S request value =
     (case aws_s3_parse_content_range_cursor S value of
        Inl e \<Rightarrow> e
      | Inr (object_range_start, object_range_end, object_size) \<Rightarrow>
          if rq_part_range_end request = 0 then AWS_ERROR_SUCCESS
          else if rq_part_range_start request \<noteq> object_range_start then AWS_ERROR_S3_INVALID_CONTENT_RANGE_HEADER
          else if rq_part_range_end request = object_range_end then AWS_ERROR_SUCCESS
          else
            let is_unknown_len_part_req =
              (rq_type request = AWS_S3_REQUEST_TYPE_GET_OBJECT \<and>
               rq_tag request = AWS_S3_AUTO_RANGE_GET_REQUEST_TYPE_GET_OBJECT_WITH_PART_NUMBER_1) in
            if \<not> is_unknown_len_part_req \<and>
               (object_size \<noteq> object_range_end + 1 \<or> rq_part_range_end request < object_range_end)
            then AWS_ERROR_S3_INVALID_CONTENT_RANGE_HEADER else AWS_ERROR_SUCCESS)"

text \<open>
  The loop over the headers; it stops at the first \<open>Content-Range\<close> that does not fit. Repeated
  headers: \<open>aws_http_headers_add\<close> keeps the first value for a lookup by name.
\<close>

fun record_headers ::
    "str_lib \<Rightarrow> bool \<Rightarrow> bool \<Rightarrow> (string \<times> string) list \<Rightarrow> response \<Rightarrow> aws_error \<times> response" where
  "record_headers S successful_response should_record_headers [] r = (AWS_ERROR_SUCCESS, r)"
| "record_headers S successful_response should_record_headers ((name, value) # hs) r =
     (let r = (if rp_request_id r = None \<and> name = g_request_id_header_name then r\<lparr>rp_request_id := Some value\<rparr> else r);
          r = (if rp_amz_id_2 r = None \<and> name = g_amz_id_2_header_name then r\<lparr>rp_amz_id_2 := Some value\<rparr> else r);
          request = rp_request r;
          e = (if name = g_content_range_header_name \<and> successful_response \<and>
                  rq_type request = AWS_S3_REQUEST_TYPE_GET_OBJECT
               then check_content_range S request value else AWS_ERROR_SUCCESS)
      in if e \<noteq> AWS_ERROR_SUCCESS then (e, r)
         else
           record_headers S successful_response should_record_headers hs
             (if should_record_headers
              then r\<lparr>rp_request := request\<lparr>rq_response_headers := map_option
                       (\<lambda>h. if h name = None then h(name \<mapsto> value) else h) (rq_response_headers request)\<rparr>\<rparr>
              else r))"

text \<open>The response status is \<open>None\<close> when the stream cannot tell it.\<close>

definition s_s3_meta_request_incoming_headers ::
    "response_env \<Rightarrow> meta_request \<Rightarrow> nat option \<Rightarrow> (string \<times> string) list \<Rightarrow> response \<Rightarrow> aws_error \<times> response" where
  "s_s3_meta_request_incoming_headers E m status hs r =
     (let request = (case status of None \<Rightarrow> rp_request r | Some s \<Rightarrow> (rp_request r)\<lparr>rq_response_status := s\<rparr>);
          r = r\<lparr>rp_request := request\<rparr>;
          successful_response =
            (s_s3_meta_request_error_code_from_response_status (rq_response_status request) = AWS_ERROR_SUCCESS);
          r = (if successful_response \<and> st_validate_response_checksum (mr_checksum_config m) \<and>
                  rq_type request = AWS_S3_REQUEST_TYPE_GET_OBJECT
               then s_get_part_response_headers_checksum_helper (re_hash E) (mr_checksum_config m) hs r else r);
          should_record_headers = (\<not> successful_response \<or> rq_record_response_headers request);
          r = (if should_record_headers \<and> rq_response_headers request = None
               then r\<lparr>rp_request := request\<lparr>rq_response_headers := Some Map.empty\<rparr>\<rparr> else r)
      in record_headers (re_str E) successful_response should_record_headers hs r)"

text \<open>\<open>main_block\<close>: whether the block that is done is the main block of headers.\<close>

definition s_s3_meta_request_headers_block_done ::
    "response_env \<Rightarrow> bool \<Rightarrow> meta_request \<Rightarrow> response \<Rightarrow> response result" where
  "s_s3_meta_request_headers_block_done E main_block m r =
     (if \<not> main_block then Inr r
      else
        (case (if st_validate_response_checksum (mr_checksum_config m) \<and>
                  rq_type (rp_request r) = AWS_S3_REQUEST_TYPE_GET_OBJECT \<and>
                  s_s3_meta_request_error_code_from_response_status (rq_response_status (rp_request r)) = AWS_ERROR_SUCCESS
               then s_ensure_part_combine_sum (re_hash E) m r else Inr r) of
           Inl e \<Rightarrow> Inl e
         | Inr r \<Rightarrow>
             let request = rp_request r in
             if rq_type request = AWS_S3_REQUEST_TYPE_GET_OBJECT \<and>
                rq_tag request = AWS_S3_AUTO_RANGE_GET_REQUEST_TYPE_GET_OBJECT_WITH_PART_NUMBER_1
             then
               let reserved_size = rq_part_range_end request - rq_part_range_start request + 1 in
               (case rq_response_headers request of
                  None \<Rightarrow> Inr r
                | Some hs \<Rightarrow>
                    (case aws_s3_parse_content_length_response_header hs of
                       Inl _ \<Rightarrow> Inr r
                     | Inr content_length \<Rightarrow>
                         if content_length > reserved_size
                         then Inl AWS_ERROR_S3_INTERNAL_BUFFER_SIZE_MISMATCH_RETRYING_WITH_RANGE else Inr r))
             else Inr r))"

subsection \<open>Incoming body\<close>

definition s_dynamic_body_initial_buf_size :: usize where
  "s_dynamic_body_initial_buf_size = KB_TO_BYTES 1"

text \<open>Appending to a buffer of the pool fails when it is full; any other buffer grows.\<close>

definition s_response_body_append :: "response_env \<Rightarrow> response \<Rightarrow> u8 list \<Rightarrow> response result" where
  "s_response_body_append E r data =
     (let request = rp_request r in
      if rp_body_dynamic r
      then (case re_buf_append_dynamic E (rp_response_body_buffer r) (rq_response_body_capacity request) (rq_response_body request) data of
              Inl e \<Rightarrow> Inl e
            | Inr (body, capacity, buffer) \<Rightarrow>
                Inr (r\<lparr>rp_request := request\<lparr>rq_response_body := body, rq_response_body_capacity := capacity\<rparr>,
                       rp_response_body_buffer := buffer\<rparr>))
      else (case re_buf_append E (rq_response_body_capacity request) (rq_response_body request) data of
              Inl e \<Rightarrow> Inl e
            | Inr body \<Rightarrow> Inr (r\<lparr>rp_request := request\<lparr>rq_response_body := body\<rparr>\<rparr>)))"

definition update_sum :: "hash_lib \<Rightarrow> aws_s3_checksum option \<Rightarrow> u8 list \<Rightarrow> aws_s3_checksum option result" where
  "update_sum H sum_opt data =
     (case sum_opt of
        None \<Rightarrow> Inr None
      | Some s \<Rightarrow> (case aws_checksum_update H s data of Inl e \<Rightarrow> Inl e | Inr s' \<Rightarrow> Inr (Some s')))"

text \<open>
  The buffer of a response: the ticket of a successful GetObject, or one that grows.
\<close>

definition init_response_body :: "response_env \<Rightarrow> bool \<Rightarrow> response \<Rightarrow> response" where
  "init_response_body E successful_response r =
     (let request = rp_request r;
          dynamic = r\<lparr>rp_request := request\<lparr>rq_response_body := [], rq_response_body_capacity := s_dynamic_body_initial_buf_size\<rparr>,
                      rp_body_dynamic := True, rp_response_body_buffer := re_buf_init E s_dynamic_body_initial_buf_size\<rparr>
      in if rq_response_body_capacity request = 0
         then (case rq_ticket request of
                 Some ticket \<Rightarrow>
                   if successful_response \<and> rq_type request = AWS_S3_REQUEST_TYPE_GET_OBJECT
                   then let (capacity, buffer) = re_ticket_claim E ticket in
                        r\<lparr>rp_request := request\<lparr>rq_response_body := [], rq_response_body_capacity := capacity\<rparr>,
                          rp_body_dynamic := False, rp_response_body_buffer := buffer\<rparr>
                   else dynamic
               | None \<Rightarrow> dynamic)
         else r)"

text \<open>
  A callback that fails ends the stream with the last error. \<open>None\<close> is the failed assertion that the response does not
  use the buffer of the request body.
\<close>

definition s_s3_meta_request_incoming_body ::
    "response_env \<Rightarrow> meta_request \<Rightarrow> u8 list \<Rightarrow> response \<Rightarrow> (aws_error \<times> response) option" where
  "s_s3_meta_request_incoming_body E m data r =
     (let successful_response =
            (s_s3_meta_request_error_code_from_response_status (rq_response_status (rp_request r)) = AWS_ERROR_SUCCESS);
          (e, r) =
            (if st_validate_response_checksum (mr_checksum_config m)
             then (case update_sum (re_hash E) (rp_running_response_sum r) data of
                     Inl e \<Rightarrow> (aws_last_error_or_unknown e, r)
                   | Inr validation_sum \<Rightarrow>
                       let r = r\<lparr>rp_running_response_sum := validation_sum\<rparr> in
                       (case update_sum (re_hash E) (rp_combine_sum r) data of
                          Inl e \<Rightarrow> (aws_last_error_or_unknown e, r)
                        | Inr combine_sum \<Rightarrow> (AWS_ERROR_SUCCESS, r\<lparr>rp_combine_sum := combine_sum\<rparr>)))
             else (AWS_ERROR_SUCCESS, r))
      in if e \<noteq> AWS_ERROR_SUCCESS then Some (e, r)
         else
           let r = init_response_body E successful_response r in
           if rp_response_body_buffer r = rp_request_body_buffer r then None
           else Some (case s_response_body_append E r data of
                        Inl e \<Rightarrow> (aws_last_error_or_unknown e, r) | Inr r' \<Rightarrow> (AWS_ERROR_SUCCESS, r')))"

subsection \<open>Completion\<close>

text \<open>
  The checks of the completed stream: the checksum of the part, and the digest recorded for the
  whole object. \<open>None\<close> is the failed assertion of the recording.
\<close>

definition validate_part :: "response_env \<Rightarrow> aws_error \<Rightarrow> response \<Rightarrow> aws_error \<times> response" where
  "validate_part E error_code r =
     (let request = rp_request r in
      if error_code = AWS_ERROR_SUCCESS \<and> rp_response_header_checksum r \<noteq> ''''
      then (case rp_running_response_sum r of
              None \<Rightarrow> (error_code, r\<lparr>rp_request := request\<lparr>rq_did_validate := False\<rparr>\<rparr>)
            | Some part_sum \<Rightarrow>
                let (matched, used) = s_validate_checksum (re_hash E) part_sum (rp_response_header_checksum r) in
                (if matched then error_code else AWS_ERROR_S3_RESPONSE_CHECKSUM_MISMATCH,
                 r\<lparr>rp_request := request\<lparr>rq_did_validate := True, rq_validation_algorithm := cs_algorithm part_sum,
                     rq_checksum_match := matched\<rparr>,
                   rp_running_response_sum := Some used\<rparr>))
      else (error_code, r\<lparr>rp_request := request\<lparr>rq_did_validate := False\<rparr>\<rparr>))"

definition complete_checksums ::
    "response_env \<Rightarrow> meta_request \<Rightarrow> aws_error \<Rightarrow> response \<Rightarrow> (aws_error \<times> meta_request \<times> response) option" where
  "complete_checksums E m error_code r =
     (if st_validate_response_checksum (mr_checksum_config m)
      then
        let (error_code, r) = validate_part E error_code r;
            finished = r\<lparr>rp_running_response_sum := None, rp_combine_sum := None, rp_response_header_checksum := ''''\<rparr>
        in (case rp_combine_sum r of
              None \<Rightarrow> Some (error_code, m, finished)
            | Some combine_sum \<Rightarrow>
                if error_code \<noteq> AWS_ERROR_SUCCESS then Some (error_code, m, finished)
                else
                  (case fst (aws_checksum_finalize (re_hash E) combine_sum AWS_S3_COMBINABLE_DIGEST_MAX_LEN) of
                     Inl e \<Rightarrow> Some (aws_last_error_or_unknown e, m, finished)
                   | Inr part_digest \<Rightarrow>
                       map_option (\<lambda>m. (error_code, m, finished))
                         (s_s3_meta_request_record_part_digest m (rq_part_number (rp_request r)) part_digest
                            (of_nat (length (rq_response_body (rp_request r)))))))
      else Some (error_code, m, r))"

text \<open>\<open>cancellable_http_stream\<close>: the stream of the request, if it is in the list of those that can be cancelled.\<close>

definition s_s3_meta_request_stream_complete ::
    "response_env \<Rightarrow> meta_request \<Rightarrow> nat option \<Rightarrow> aws_error \<Rightarrow> response \<Rightarrow> (aws_error \<times> meta_request \<times> response) option" where
  "s_s3_meta_request_stream_complete E m cancellable_http_stream error_code r =
     map_option (\<lambda>(error_code, m, r).
       (error_code,
        (case cancellable_http_stream of
           None \<Rightarrow> m
         | Some stream \<Rightarrow> m\<lparr>cancellable_http_streams := remove1 stream (cancellable_http_streams m)\<rparr>),
        r))
     (complete_checksums E m error_code r)"

datatype connection_finish_code =
    AWS_S3_CONNECTION_FINISH_CODE_SUCCESS | AWS_S3_CONNECTION_FINISH_CODE_FAILED | AWS_S3_CONNECTION_FINISH_CODE_RETRY

text \<open>What the client is told: the error code and whether to send the request again.\<close>

definition aws_s3_meta_request_send_request_finish_default ::
    "response_env \<Rightarrow> meta_request \<Rightarrow> aws_s3_request \<Rightarrow> aws_error \<Rightarrow> aws_error \<times> connection_finish_code" where
  "aws_s3_meta_request_send_request_finish_default E m request error_code =
     (let error_code =
        (if error_code = AWS_ERROR_SUCCESS then s_s3_meta_request_error_code_from_response E request else error_code)
      in (error_code,
          if error_code = AWS_ERROR_SUCCESS then AWS_S3_CONNECTION_FINISH_CODE_SUCCESS
          else if error_code = AWS_ERROR_S3_INVALID_RESPONSE_STATUS \<or>
                  error_code = AWS_ERROR_S3_INTERNAL_BUFFER_SIZE_MISMATCH_RETRYING_WITH_RANGE \<or>
                  error_code = AWS_ERROR_S3_NON_RECOVERABLE_ASYNC_ERROR \<or>
                  error_code = AWS_ERROR_S3_RESPONSE_CHECKSUM_MISMATCH \<or>
                  aws_s3_meta_request_has_finish_result_synced m
          then AWS_S3_CONNECTION_FINISH_CODE_FAILED
          else AWS_S3_CONNECTION_FINISH_CODE_RETRY))"

subsection \<open>Receiving the body of a part\<close>

text \<open>
  The callbacks of one exchange in the order in which aws-c-http makes them: the block of headers is
  done, the body arrives in chunks of any size, the stream completes. An error of a callback ends
  the exchange and is what the stream completes with.
\<close>

fun receive_body :: "response_env \<Rightarrow> meta_request \<Rightarrow> u8 list list \<Rightarrow> response \<Rightarrow> (aws_error \<times> response) option" where
  "receive_body E m [] r = Some (AWS_ERROR_SUCCESS, r)"
| "receive_body E m (data # chunks) r =
     (case s_s3_meta_request_incoming_body E m data r of
        None \<Rightarrow> None
      | Some (e, r') \<Rightarrow> if e \<noteq> AWS_ERROR_SUCCESS then Some (e, r') else receive_body E m chunks r')"

definition receive_part ::
    "response_env \<Rightarrow> meta_request \<Rightarrow> u8 list list \<Rightarrow> response \<Rightarrow> (aws_error \<times> meta_request \<times> response) option" where
  "receive_part E m chunks r =
     (case s_s3_meta_request_headers_block_done E True m r of
        Inl e \<Rightarrow> s_s3_meta_request_stream_complete E m None e r
      | Inr r1 \<Rightarrow>
          (case receive_body E m chunks r1 of
             None \<Rightarrow> None
           | Some (e, r2) \<Rightarrow> s_s3_meta_request_stream_complete E m None e r2))"

text \<open>What aws-c-common documents of appending to a buffer: it adds the bytes and they fit.\<close>

definition buf_ok :: "response_env \<Rightarrow> bool" where
  "buf_ok E \<longleftrightarrow>
     (\<forall>cap body data body'. re_buf_append E cap body data = Inr body' \<longrightarrow> body' = body @ data \<and> length body' \<le> unat cap) \<and>
     (\<forall>buf cap body data body' cap' buf'. re_buf_append_dynamic E buf cap body data = Inr (body', cap', buf') \<longrightarrow>
        body' = body @ data \<and> length body' \<le> unat cap')"

lemma buf_okD:
  assumes "buf_ok E"
  shows "re_buf_append E cap body data = Inr body' \<Longrightarrow> body' = body @ data \<and> length body' \<le> unat cap"
    "re_buf_append_dynamic E buf cap body data = Inr (body', cap', buf') \<Longrightarrow> body' = body @ data \<and> length body' \<le> unat cap'"
  using assms unfolding buf_ok_def by blast+

lemma last_error_not_success [simp]: "aws_last_error_or_unknown e \<noteq> AWS_ERROR_SUCCESS"
  by (simp add: aws_last_error_or_unknown_def)

text \<open>The running sums and the buffer agree on the bytes received so far.\<close>

definition received :: "response_env \<Rightarrow> checksum_algorithm \<Rightarrow> response \<Rightarrow> u8 list \<Rightarrow> bool" where
  "received E a r xs \<longleftrightarrow>
     rp_combine_sum r = Some (crc_sum (re_hash E) a xs) \<and> rq_response_body (rp_request r) = xs \<and>
     length xs \<le> unat (rq_response_body_capacity (rp_request r))"

lemma body_append_received:
  assumes "buf_ok E" "s_response_body_append E r data = Inr r'" "length (rq_response_body (rp_request r)) \<le> unat (rq_response_body_capacity (rp_request r))"
  shows "rq_response_body (rp_request r') = rq_response_body (rp_request r) @ data"
    "length (rq_response_body (rp_request r')) \<le> unat (rq_response_body_capacity (rp_request r'))"
    "rp_combine_sum r' = rp_combine_sum r" "rq_part_number (rp_request r') = rq_part_number (rp_request r)"
    "rp_response_header_checksum r' = rp_response_header_checksum r"
  using assms(2,3) by (auto simp: s_response_body_append_def Let_def dest: buf_okD [OF assms(1)] split: if_splits sum.splits)

lemma incoming_body_received:
  assumes H: "crc_ok (re_hash E)" "be_ok (re_hash E)" "buf_ok E" "aws_checksum_algorithm_is_combinable a"
    and v: "st_validate_response_checksum (mr_checksum_config m)"
    and r: "received E a r xs"
    and step: "s_s3_meta_request_incoming_body E m data r = Some (AWS_ERROR_SUCCESS, r')"
  shows "received E a r' (xs @ data) \<and> rq_part_number (rp_request r') = rq_part_number (rp_request r)"
proof -
  obtain vs where vs: "update_sum (re_hash E) (rp_running_response_sum r) data = Inr vs"
    using step v by (auto simp: s_s3_meta_request_incoming_body_def Let_def split: sum.splits if_splits)
  have cs: "update_sum (re_hash E) (rp_combine_sum r) data = Inr (Some (crc_sum (re_hash E) a (xs @ data)))"
    using r checksum_update_crc [OF H(1,4)] by (simp add: received_def update_sum_def)
  define r1 where "r1 = r\<lparr>rp_running_response_sum := vs, rp_combine_sum := Some (crc_sum (re_hash E) a (xs @ data))\<rparr>"
  define q where "q = rp_request r1"
  have q: "rq_response_body q = xs" "length xs \<le> unat (rq_response_body_capacity q)"
    "rq_part_number q = rq_part_number (rp_request r)" "rp_combine_sum r1 = Some (crc_sum (re_hash E) a (xs @ data))"
    using r by (simp_all add: q_def r1_def received_def)
  obtain r2 where r2: "s_response_body_append E r2 data = Inr r'"
    "rp_combine_sum r2 = rp_combine_sum r1" "rq_response_body (rp_request r2) = xs"
    "length xs \<le> unat (rq_response_body_capacity (rp_request r2))"
    "rq_part_number (rp_request r2) = rq_part_number (rp_request r)"
  proof -
    have *: "rq_response_body_capacity q = 0 \<Longrightarrow> xs = []" using q(2) by simp
    show thesis
      using step v that q *
      by (auto simp: s_s3_meta_request_incoming_body_def init_response_body_def vs cs Let_def r1_def [symmetric] q_def [symmetric]
          split: if_splits sum.splits option.splits prod.splits)
  qed
  show ?thesis
    using body_append_received [OF H(3) r2(1)] r2 q(4) by (simp add: received_def)
qed

lemma receive_body_received:
  assumes "crc_ok (re_hash E)" "be_ok (re_hash E)" "buf_ok E" "aws_checksum_algorithm_is_combinable a"
    "st_validate_response_checksum (mr_checksum_config m)" "received E a r xs"
    "receive_body E m chunks r = Some (AWS_ERROR_SUCCESS, r')"
  shows "received E a r' (xs @ concat chunks) \<and> rq_part_number (rp_request r') = rq_part_number (rp_request r)"
  using assms(6,7)
proof (induction chunks arbitrary: r xs)
  case (Cons data chunks)
  obtain e r1 where s: "s_s3_meta_request_incoming_body E m data r = Some (e, r1)"
    using Cons.prems(2) by (auto split: option.splits)
  with Cons.prems(2) have "e = AWS_ERROR_SUCCESS" and rest: "receive_body E m chunks r1 = Some (AWS_ERROR_SUCCESS, r')"
    by (auto split: if_splits)
  with incoming_body_received [OF assms(1-5) Cons.prems(1)] s
  have "received E a r1 (xs @ data)" "rq_part_number (rp_request r1) = rq_part_number (rp_request r)" by auto
  with Cons.IH [OF this(1) rest] show ?case by simp
qed simp

text \<open>A part that completes with success has its digest and its length in its slot.\<close>

definition fresh_part :: "response \<Rightarrow> bool" where
  "fresh_part r \<longleftrightarrow>
     rp_combine_sum r = None \<and> rq_response_body (rp_request r) = [] \<and> rq_part_number (rp_request r) \<noteq> 0 \<and>
     rq_type (rp_request r) = AWS_S3_REQUEST_TYPE_GET_OBJECT \<and>
     s_s3_meta_request_error_code_from_response_status (rq_response_status (rp_request r)) = AWS_ERROR_SUCCESS"

definition part_slot :: "hash_lib \<Rightarrow> checksum_algorithm \<Rightarrow> u8 list \<Rightarrow> combine_slot" where
  "part_slot H a body = \<lparr>slot_length = of_nat (length body), slot_digest = crc_digest H a body\<rparr>"

lemma validate_part_keeps:
  assumes "validate_part E e r = (e', r')"
  shows "rp_combine_sum r' = rp_combine_sum r" "rq_response_body (rp_request r') = rq_response_body (rp_request r)"
    "rq_part_number (rp_request r') = rq_part_number (rp_request r)" "e' = AWS_ERROR_SUCCESS \<Longrightarrow> e = AWS_ERROR_SUCCESS"
  using assms by (auto simp: validate_part_def Let_def split: if_splits option.splits prod.splits)

lemma complete_records:
  assumes "be_ok (re_hash E)" "aws_checksum_algorithm_is_combinable a"
    and "st_validate_response_checksum (mr_checksum_config m)" "received E a r xs"
    and "s_s3_meta_request_stream_complete E m None e r = Some (AWS_ERROR_SUCCESS, m', r')"
    and "rq_part_number (rp_request r) \<le> mr_combine_slot_count m"
  shows "m' = m\<lparr>mr_combine_slots := map_option (\<lambda>slots. slots[unat (rq_part_number (rp_request r) - 1) := part_slot (re_hash E) a xs])
      (mr_combine_slots m)\<rparr> \<and> rq_response_body (rp_request r') = xs"
proof -
  obtain e1 r1 where v: "validate_part E e r = (e1, r1)" by fastforce
  note k = validate_part_keeps [OF v]
  have r1: "rp_combine_sum r1 = Some (crc_sum (re_hash E) a xs)" "rq_response_body (rp_request r1) = xs"
    using assms(4) k by (simp_all add: received_def)
  have d: "fst (aws_checksum_finalize (re_hash E) (crc_sum (re_hash E) a xs) AWS_S3_COMBINABLE_DIGEST_MAX_LEN) =
      Inr (crc_digest (re_hash E) a xs)"
    using crc_digest_length(4) [OF assms(1,2)] by (intro checksum_finalize_crc assms) (simp add: digest_len_defs)
  show ?thesis
    using assms(3,5,6) v r1 k(3) crc_digest_length(1,2) [OF assms(1,2)] d
    by (auto simp: s_s3_meta_request_stream_complete_def complete_checksums_def Let_def part_slot_def
        s_s3_meta_request_record_part_digest_def digest_len_defs not_less split: if_splits)
qed

lemma stream_complete_error:
  assumes "s_s3_meta_request_stream_complete E m None e r = Some (AWS_ERROR_SUCCESS, m', r')"
  shows "e = AWS_ERROR_SUCCESS"
  using assms
  by (auto simp: s_s3_meta_request_stream_complete_def complete_checksums_def Let_def dest: validate_part_keeps(4)
      split: if_splits option.splits prod.splits sum.splits)

lemma headers_block_done_combines:
  assumes "crc_ok (re_hash E)" "aws_checksum_algorithm_is_combinable a"
    and m: "st_validate_response_checksum (mr_checksum_config m)" "mr_running_response_sum m = Some s" "cs_algorithm s = a"
      "mr_checksum_combinable m"
    and r: "fresh_part r"
    and "s_s3_meta_request_headers_block_done E True m r = Inr r'"
  shows "received E a r' [] \<and> rq_part_number (rp_request r') = rq_part_number (rp_request r)"
  using assms checksum_new_crc [OF assms(1,2)]
  by (auto simp: s_s3_meta_request_headers_block_done_def s_ensure_part_combine_sum_def fresh_part_def received_def Let_def
      split: if_splits option.splits sum.splits)

lemma receive_part_records:
  assumes H: "crc_ok (re_hash E)" "be_ok (re_hash E)" "buf_ok E" "aws_checksum_algorithm_is_combinable a"
    and m: "st_validate_response_checksum (mr_checksum_config m)" "mr_running_response_sum m = Some s" "cs_algorithm s = a"
      "mr_checksum_combinable m"
    and r: "fresh_part r" "rq_part_number (rp_request r) \<le> mr_combine_slot_count m"
    and rec: "receive_part E m chunks r = Some (AWS_ERROR_SUCCESS, m', r')"
  shows "m' = m\<lparr>mr_combine_slots := map_option (\<lambda>slots. slots[unat (rq_part_number (rp_request r) - 1) :=
      part_slot (re_hash E) a (concat chunks)]) (mr_combine_slots m)\<rparr> \<and> rq_response_body (rp_request r') = concat chunks"
proof (cases "s_s3_meta_request_headers_block_done E True m r")
  case (Inl e)
  then have "e \<noteq> AWS_ERROR_SUCCESS"
    using checksum_new_crc [OF H(1,4)] m
    by (auto simp: s_s3_meta_request_headers_block_done_def s_ensure_part_combine_sum_def Let_def
        split: if_splits option.splits sum.splits)
  with Inl rec stream_complete_error show ?thesis by (auto simp: receive_part_def)
next
  case (Inr r1)
  note h = headers_block_done_combines [OF H(1,4) m r(1) Inr]
  obtain e r2 where b: "receive_body E m chunks r1 = Some (e, r2)"
    using Inr rec by (auto simp: receive_part_def split: option.splits)
  with Inr rec have c: "s_s3_meta_request_stream_complete E m None e r2 = Some (AWS_ERROR_SUCCESS, m', r')"
    by (simp add: receive_part_def)
  then have "e = AWS_ERROR_SUCCESS" by (rule stream_complete_error)
  with b h have "received E a r2 (concat chunks)" "rq_part_number (rp_request r2) = rq_part_number (rp_request r)"
    using receive_body_received [OF H m(1), of r1 "[]" chunks r2] by auto
  with complete_records [OF H(2,4) m(1) this(1) c] r(2) show ?thesis by simp
qed

end
