(* ===== verification/S3_Finish.thy ===== *)
theory S3_Finish
  imports S3_Response S3_Delivery
begin

section \<open>Finishing a meta request (\<^verbatim>\<open>source/s3_meta_request.c\<close>)\<close>

text \<open>
  The last step of every meta request: the checksum of the whole object is validated, a resume token
  is built where one is due, what is still queued is released, and the callbacks fire. The type of
  the token and the function that builds it belong to the type of meta request, so they are
  parameters; the calls the step makes to the user's code and to the file system are collected in
  the record \<open>finish_effects\<close>.
\<close>

subsection \<open>The checksum the caller expects\<close>

definition s_meta_request_init_expected_checksum ::
    "str_lib \<Rightarrow> hash_lib \<Rightarrow> checksum_config option \<Rightarrow> meta_request_type \<Rightarrow> string \<Rightarrow> meta_request \<Rightarrow> meta_request result" where
  "s_meta_request_init_expected_checksum S H config_opt type operation_name m =
     (case config_opt of
        None \<Rightarrow> Inr m
      | Some config \<Rightarrow>
          let expected_checksum = cc_expected_checksum config; algorithm = cc_expected_checksum_algorithm config in
          if expected_checksum = '''' \<and> algorithm = AWS_SCA_NONE then Inr m
          else if expected_checksum = '''' \<or> algorithm = AWS_SCA_NONE \<or> algorithm = AWS_SCA_UNKNOWN
          then Inl AWS_ERROR_INVALID_ARGUMENT
          else if \<not> (type = AWS_S3_META_REQUEST_TYPE_GET_OBJECT \<or>
                     type = AWS_S3_META_REQUEST_TYPE_DEFAULT \<and>
                     eq_ignore_case S operation_name (aws_s3_request_type_operation_name AWS_S3_REQUEST_TYPE_GET_OBJECT))
          then Inl AWS_ERROR_INVALID_ARGUMENT
          else if cc_response_checksum_validation_mode config = Some AWS_SCVM_REQUEST_ONLY
          then Inl AWS_ERROR_INVALID_ARGUMENT
          else if aws_base64_compute_encoded_len H (aws_get_digest_size_from_checksum_algorithm H algorithm) \<noteq>
                  Inr (of_nat (length expected_checksum))
          then Inl AWS_ERROR_INVALID_ARGUMENT
          else
            (case aws_checksum_new H algorithm of
               Inl e \<Rightarrow> Inl e
             | Inr running_sum \<Rightarrow>
                 Inr (m\<lparr>mr_running_response_sum := Some running_sum, mr_response_header_checksum := expected_checksum,
                        mr_checksum_config := (mr_checksum_config m)\<lparr>st_validate_response_checksum := True\<rparr>\<rparr>)))"

subsection \<open>The checksum of the whole object\<close>

text \<open>\<open>None\<close> is the failed assertion of the fold, which is only called with a running sum.\<close>

definition s_validate_meta_request_checksum_on_finish :: "hash_lib \<Rightarrow> meta_request \<Rightarrow> (bool \<times> meta_request) option" where
  "s_validate_meta_request_checksum_on_finish H m =
     map_option
       (\<lambda>(mismatch, m). (mismatch, m\<lparr>mr_running_response_sum := None, mr_response_header_checksum := ''''\<rparr>))
       (if st_validate_response_checksum (mr_checksum_config m) \<and>
           res_error_code (finish_result m) = AWS_ERROR_SUCCESS \<and> mr_running_response_sum m \<noteq> None
        then
          (case (if \<not> mr_checksum_combinable m then Some (True, m) else s_s3_meta_request_fold_combine_slots H m) of
             None \<Rightarrow> None
           | Some (complete, m) \<Rightarrow>
               (case mr_running_response_sum m of
                  None \<Rightarrow> None
                | Some running_sum \<Rightarrow>
                    if complete
                    then
                      let result = (finish_result m)\<lparr>res_did_validate := True, res_validation_algorithm := cs_algorithm running_sum\<rparr>
                      in if fst (s_validate_checksum H running_sum (mr_response_header_checksum m))
                         then Some (False, m\<lparr>finish_result := result\<rparr>)
                         else Some (True, m\<lparr>finish_result := result\<lparr>res_error_code := AWS_ERROR_S3_RESPONSE_CHECKSUM_MISMATCH\<rparr>\<rparr>)
                    else Some (False, m)))
        else Some (False, m))"

subsection \<open>The finish\<close>

definition zero_result :: meta_request_result where
  "zero_result = \<lparr>res_error_response_headers = None, res_error_response_body = None,
     res_error_response_operation_name = None, res_response_status = 0, res_error_code = AWS_ERROR_SUCCESS,
     res_did_validate = False, res_validation_algorithm = AWS_SCA_NONE\<rparr>"

record 'tok finish_effects =
  fe_cancelled_future :: "nat option"
  fe_waker :: "nat option"
  fe_file_deleted :: bool
  fe_token_mtime :: bool
  fe_on_error_resume_token :: "('tok option \<times> aws_error) option"
  fe_pause_complete :: "'tok option option"
  fe_released :: "aws_s3_request list"
  fe_headers :: "(headers \<times> nat) option"
  fe_finish :: "meta_request_result option"

text \<open>
  The critical section: the result taken out of the meta request, whether it was paused or failed,
  the token, and what is released or cancelled. \<open>None\<close> outside is a failed assertion; \<open>None\<close>
  inside says that the meta request had finished before.
\<close>

definition finish_synced ::
    "hash_lib \<Rightarrow> (meta_request \<Rightarrow> 'tok option) option \<Rightarrow> meta_request \<Rightarrow>
     (meta_request \<times> meta_request_result \<times> bool \<times> bool \<times> 'tok option \<times> aws_s3_request list \<times> nat option \<times> nat option) option option" where
  "finish_synced H build_resume_token_synced m =
     (if mr_state m = AWS_S3_META_REQUEST_STATE_FINISHED then Some None
      else
        (case s_validate_meta_request_checksum_on_finish H (m\<lparr>mr_state := AWS_S3_META_REQUEST_STATE_FINISHED\<rparr>) of
           None \<Rightarrow> None
         | Some (whole_object_mismatch, m) \<Rightarrow>
             let e = res_error_code (finish_result m);
                 is_async_paused = async_pause_requested m;
                 is_error = (\<not> is_async_paused \<and> e \<noteq> AWS_ERROR_SUCCESS \<and> e \<noteq> AWS_ERROR_S3_PAUSED);
                 skip_error_token = (mr_recv_filepath m \<and> mr_recv_file_delete_on_failure m \<or> whole_object_mismatch);
                 token = (case build_resume_token_synced of
                            Some build \<Rightarrow>
                              if is_async_paused \<or> is_error \<and> mr_on_error_resume_token m \<and> \<not> skip_error_token
                              then build m else None
                          | None \<Rightarrow> None);
                 released = pending_body_streaming_requests m;
                 aw = async_write m;
                 (aw, cancelled, waker) =
                   (case aw_buffered_data_ticket_future aw of
                      Some future \<Rightarrow> (aw, Some future, None)
                    | None \<Rightarrow> (aw\<lparr>aw_waker := None\<rparr>, None, aw_waker aw))
             in Some (Some
                  (m\<lparr>pending_body_streaming_requests := [], async_write := aw, finish_result := zero_result\<rparr>,
                   finish_result m, is_async_paused, is_error, token, released, cancelled, waker))))"

text \<open>\<open>headers_callback\<close> is the user's callback for headers; \<open>AWS_ERROR_SUCCESS\<close> when it accepts them.\<close>

definition aws_s3_meta_request_finish_default ::
    "hash_lib \<Rightarrow> (meta_request \<Rightarrow> 'tok option) option \<Rightarrow> (headers \<Rightarrow> nat \<Rightarrow> aws_error) \<Rightarrow> meta_request \<Rightarrow>
     (meta_request \<times> 'tok finish_effects option) option" where
  "aws_s3_meta_request_finish_default H build_resume_token_synced headers_callback m =
     (case finish_synced H build_resume_token_synced m of
        None \<Rightarrow> None
      | Some None \<Rightarrow> Some (m, None)
      | Some (Some (m, result, is_async_paused, is_error, token, released, cancelled, waker)) \<Rightarrow>
          let failed = (res_error_code result \<noteq> AWS_ERROR_SUCCESS \<and> res_error_code result \<noteq> AWS_ERROR_S3_PAUSED);
              delete_on_failure = (mr_recv_filepath m \<and> failed \<and> mr_recv_file_delete_on_failure m);
              m = m\<lparr>mr_recv_file_write_fd_slots := False,
                    mr_recv_file_finalized := (mr_recv_filepath m \<or> mr_recv_file_finalized m)\<rparr>;
              headers = (if mr_has_headers_callback m then res_error_response_headers result else None);
              final_result = (case headers of
                  None \<Rightarrow> result
                | Some hs \<Rightarrow>
                    let e = headers_callback hs (res_response_status result) in
                    if e = AWS_ERROR_SUCCESS then result else result\<lparr>res_error_code := e\<rparr>);
              m = (if headers \<noteq> None then m\<lparr>mr_has_headers_callback := False\<rparr> else m);
              m = (if mr_recv_buffer_capacity m \<noteq> None \<and> res_error_code final_result = AWS_ERROR_SUCCESS
                   then m\<lparr>mr_recv_buffer_len := mr_recv_buffer_expected_len m\<rparr> else m)
          in Some (m, Some
               \<lparr>fe_cancelled_future = cancelled, fe_waker = waker, fe_file_deleted = delete_on_failure,
                fe_token_mtime = (mr_recv_filepath m \<and> token \<noteq> None \<and> \<not> delete_on_failure),
                fe_on_error_resume_token = (if is_error \<and> mr_on_error_resume_token m
                                            then Some (token, res_error_code result) else None),
                fe_pause_complete = (if is_async_paused \<and> mr_pause_complete_callback m then Some token else None),
                fe_released = released,
                fe_headers = map_option (\<lambda>hs. (hs, res_response_status result)) headers,
                fe_finish = (if mr_has_finish_callback m then Some final_result else None)\<rparr>))"

subsection \<open>Validating the object from the digests of its parts\<close>

text \<open>
  Parts complete one after the other, in any order, each with success. The callbacks of different
  parts touch different requests and slots, so that how their chunks interleave does not matter.
\<close>

fun receive_parts :: "response_env \<Rightarrow> meta_request \<Rightarrow> (u8 list list \<times> response) list \<Rightarrow> meta_request option" where
  "receive_parts E m [] = Some m"
| "receive_parts E m ((chunks, r) # ps) =
     (case receive_part E m chunks r of
        Some (e, m', r') \<Rightarrow> if e = AWS_ERROR_SUCCESS then receive_parts E m' ps else None
      | None \<Rightarrow> None)"

abbreviation part_of :: "u8 list list \<times> response \<Rightarrow> nat" where
  "part_of p \<equiv> unat (rq_part_number (rp_request (snd p)))"

lemma receive_parts_slots:
  assumes "crc_ok (re_hash E)" "be_ok (re_hash E)" "buf_ok E" "aws_checksum_algorithm_is_combinable a"
    and "st_validate_response_checksum (mr_checksum_config m)" "mr_running_response_sum m = Some s" "cs_algorithm s = a"
      "mr_checksum_combinable m" "mr_combine_slots m = Some slots"
    and "\<And>p. p \<in> set ps \<Longrightarrow> fresh_part (snd p) \<and> rq_part_number (rp_request (snd p)) \<le> mr_combine_slot_count m"
    and "receive_parts E m ps = Some m'"
  shows "m' = m\<lparr>mr_combine_slots := Some (foldl (\<lambda>sl p. sl[part_of p - 1 := part_slot (re_hash E) a (concat (fst p))]) slots ps)\<rparr>"
  using assms(5-)
proof (induction ps arbitrary: m slots)
  case (Cons p ps)
  obtain chunks r where p: "p = (chunks, r)" by fastforce
  with Cons.prems(7) obtain m1 r' where s: "receive_part E m chunks r = Some (AWS_ERROR_SUCCESS, m1, r')"
      and rest: "receive_parts E m1 ps = Some m'"
    by (auto split: option.splits if_splits)
  have r: "fresh_part r" "rq_part_number (rp_request r) \<le> mr_combine_slot_count m" using Cons.prems(6) [of p] p by simp_all
  have "unat (rq_part_number (rp_request r) - 1) = part_of p - 1"
    using r(1) p unat_sub_nowrap [of 1 "rq_part_number (rp_request r)"]
    by (simp add: fresh_part_def) (metis One_nat_def Suc_leI unat_1 unat_gt_0)
  with receive_part_records [OF assms(1-4) Cons.prems(1-4) r s] Cons.prems(5) p
  have m1: "m1 = m\<lparr>mr_combine_slots := Some (slots[part_of p - 1 := part_slot (re_hash E) a (concat (fst p))])\<rparr>" by simp
  show ?case
    using Cons.IH [OF _ _ _ _ _ _ rest, of "slots[part_of p - 1 := part_slot (re_hash E) a (concat (fst p))]"] Cons.prems
    by (simp add: m1)
qed simp

lemma foldl_update_nth:
  "i < length xs \<Longrightarrow> (\<And>p. p \<in> set ps \<Longrightarrow> g p = h (f p)) \<Longrightarrow>
   foldl (\<lambda>sl p. sl[f p := g p]) xs ps ! i = (if i \<in> f ` set ps then h i else xs ! i)"
  by (induction ps arbitrary: xs) (auto simp: nth_list_update)

lemma foldl_update_length [simp]: "length (foldl (\<lambda>sl p. sl[f p := g p]) xs ps) = length xs"
  by (induction ps arbitrary: xs) simp_all

lemma fold_slots_concat:
  assumes "crc_ok H" "be_ok H" "aws_checksum_algorithm_is_combinable a" "\<And>b. b \<in> set bodies \<Longrightarrow> length b < 2 ^ 64"
  shows "fold_slots H (crc_sum H a xs) (map (part_slot H a) bodies) = (True, crc_sum H a (xs @ concat bodies))"
  using assms(4)
proof (induction bodies arbitrary: xs)
  case (Cons b bodies)
  have "crc_digest H a b \<noteq> []" using crc_digest_length(1) [OF assms(2,3)] .
  moreover have "aws_checksum_combine_digest H (Some (crc_sum H a xs)) (crc_digest H a b) (of_nat (length b)) = Inr (crc_sum H a (xs @ b))"
    using Cons.prems by (intro combine_digest_crc assms(1-3)) simp
  ultimately show ?case using Cons.IH [of "xs @ b"] Cons.prems by (simp add: part_slot_def)
qed simp

lemma slots_of_all_parts:
  assumes "\<And>p. p \<in> set ps \<Longrightarrow> concat (fst p) = body (part_of p) \<and> part_of p \<noteq> 0" "part_of ` set ps = {1..n}"
  shows "foldl (\<lambda>sl p. sl[part_of p - 1 := part_slot H a (concat (fst p))]) (replicate n z) ps =
    map (part_slot H a) (map body [1..<Suc n])"
proof (rule nth_equalityI)
  fix i assume "i < length (foldl (\<lambda>sl p. sl[part_of p - 1 := part_slot H a (concat (fst p))]) (replicate n z) ps)"
  then have i: "i < n" by simp
  then have "Suc i \<in> part_of ` set ps" unfolding assms(2) by simp
  then obtain p where p: "p \<in> set ps" "Suc i = part_of p" by blast
  then have "i \<in> (\<lambda>p. part_of p - 1) ` set ps" by (intro rev_image_eqI [OF p(1)]) simp
  then show "foldl (\<lambda>sl p. sl[part_of p - 1 := part_slot H a (concat (fst p))]) (replicate n z) ps ! i =
      map (part_slot H a) (map body [1..<Suc n]) ! i"
    using foldl_update_nth [of i "replicate n z" ps _ "\<lambda>i. part_slot H a (body (Suc i))" "\<lambda>p. part_of p - 1"] assms(1) i
    by (simp add: nth_append del: upt_Suc)
qed (simp del: upt_Suc)

text \<open>
  C25. Let the response checksum of a download be a CRC and the slots of its \<open>n\<close> parts be set up, and
  let all parts be received with success, in any order and in chunks of any size, part \<open>i\<close> with
  the bytes \<open>body i\<close>. Then the validation at the finish, which folds the digests of the parts,
  validates, and it reports a mismatch exactly when the checksum that is fed the whole object in
  order, \<open>s\<close>, does not match the expected value.
\<close>

theorem whole_object_validated_from_parts:
  assumes "crc_ok (re_hash E)" "be_ok (re_hash E)" "buf_ok E" "aws_checksum_algorithm_is_combinable a"
    and "aws_checksum_new (re_hash E) a = Inr s0"
    and "st_validate_response_checksum (mr_checksum_config m)" "mr_running_response_sum m = Some s0"
      "mr_checksum_combinable m" "mr_combine_slot_count m = n" "n \<noteq> 0"
      "mr_combine_slots m = Some (replicate (unat n) \<lparr>slot_length = 0, slot_digest = []\<rparr>)"
      "res_error_code (finish_result m) = AWS_ERROR_SUCCESS"
    and "\<And>p. p \<in> set ps \<Longrightarrow> fresh_part (snd p) \<and> concat (fst p) = body (part_of p) \<and> length (body (part_of p)) < 2 ^ 64"
    and "part_of ` set ps = {1..unat n}"
    and "receive_parts E m ps = Some m'"
    and "aws_checksum_update (re_hash E) s0 (concat (map body [1..<Suc (unat n)])) = Inr s"
  shows "\<exists>m''. s_validate_meta_request_checksum_on_finish (re_hash E) m' =
      Some (\<not> fst (s_validate_checksum (re_hash E) s (mr_response_header_checksum m)), m'') \<and>
    res_did_validate (finish_result m'') \<and> res_validation_algorithm (finish_result m'') = a \<and>
    (res_error_code (finish_result m'') = AWS_ERROR_SUCCESS \<longleftrightarrow>
       fst (s_validate_checksum (re_hash E) s (mr_response_header_checksum m)))"
proof -
  let ?H = "re_hash E" and ?bodies = "map body [1..<Suc (unat n)]"
  have s0: "s0 = crc_sum ?H a []" using assms(5) checksum_new_crc [OF assms(1,4)] by simp
  have s: "s = crc_sum ?H a (concat ?bodies)"
    using assms(16) checksum_update_crc [OF assms(1,4), of "[]"] s0 by simp
  have parts: "fresh_part (snd p) \<and> rq_part_number (rp_request (snd p)) \<le> mr_combine_slot_count m"
      "concat (fst p) = body (part_of p) \<and> part_of p \<noteq> 0" if "p \<in> set ps" for p
  proof -
    have "part_of p \<in> {1..unat n}" using that assms(14) by blast
    then show "fresh_part (snd p) \<and> rq_part_number (rp_request (snd p)) \<le> mr_combine_slot_count m"
      "concat (fst p) = body (part_of p) \<and> part_of p \<noteq> 0"
      using assms(13) [OF that] assms(9) by (auto simp: word_le_nat_alt)
  qed
  have m': "m' = m\<lparr>mr_combine_slots := Some (map (part_slot ?H a) ?bodies)\<rparr>"
    using receive_parts_slots [OF assms(1-4,6,7) _ assms(8,11) parts(1) assms(15)] s0
      slots_of_all_parts [OF parts(2) assms(14)] by simp
  have "length b < 2 ^ 64" if "b \<in> set ?bodies" for b
  proof -
    have "b \<in> body ` {1..unat n}"
      using that by (simp only: set_map set_upt atLeastLessThanSuc_atLeastAtMost)
    then obtain i where "i \<in> part_of ` set ps" "b = body i" unfolding assms(14) by blast
    then obtain p where "p \<in> set ps" "b = body (part_of p)" by blast
    then show ?thesis using assms(13) by blast
  qed
  then have "fold_slots ?H s0 (map (part_slot ?H a) ?bodies) = (True, s)"
    using fold_slots_concat [OF assms(1,2,4), of ?bodies "[]"] s s0 by (simp del: upt_Suc)
  then have "s_s3_meta_request_fold_combine_slots ?H m' = Some (True, m'\<lparr>mr_running_response_sum := Some s\<rparr>)"
    using assms(7,9,10) by (simp add: m' s_s3_meta_request_fold_combine_slots_def del: upt_Suc)
  then show ?thesis
    using assms(6-8,12) s by (simp add: s_validate_meta_request_checksum_on_finish_def m' Let_def del: upt_Suc)
qed

text \<open>A download of two parts, of which the second completes first, in two chunks.\<close>

definition example_response_env :: response_env where
  "example_response_env =
     \<lparr>re_str = example_str, re_hash = example_hash, re_xml_parse = (\<lambda>doc. None),
      re_buf_append = (\<lambda>cap body data. if length (body @ data) \<le> unat cap then Inr (body @ data) else Inl AWS_ERROR_SHORT_BUFFER),
      re_buf_append_dynamic = (\<lambda>buf cap body data. if length (body @ data) < 2 ^ 64
        then Inr (body @ data, max cap (of_nat (length (body @ data))), buf) else Inl AWS_ERROR_SHORT_BUFFER),
      re_buf_init = (\<lambda>sz. 4096), re_ticket_claim = (\<lambda>t. (2, 8192 + 2 * t))\<rparr>"

definition example_response :: "u32 \<Rightarrow> u64 \<Rightarrow> response" where
  "example_response part start =
     \<lparr>rp_request = (example_request part start [])\<lparr>rq_response_status := 206, rq_ticket := Some 0\<rparr>,
      rp_response_header_checksum = '''', rp_running_response_sum = None, rp_combine_sum = None, rp_request_id = None,
      rp_amz_id_2 = None, rp_body_dynamic = False, rp_response_body_buffer = 0, rp_request_body_buffer = 0\<rparr>"

definition example_crc_download :: meta_request where
  "example_crc_download = example_meta_request
     \<lparr>mr_checksum_config := zero_checksum_config_storage\<lparr>st_validate_response_checksum := True\<rparr>,
      mr_response_header_checksum := [CHR 0x00, CHR 0x00, CHR 0x00, CHR 0x2E],
      mr_running_response_sum := Some (s_crc32_checksum_new\<lparr>cs_algorithm := AWS_SCA_CRC32\<rparr>),
      mr_checksum_combinable := True, mr_combine_slot_count := 2,
      mr_combine_slots := Some (replicate 2 \<lparr>slot_length = 0, slot_digest = []\<rparr>)\<rparr>"

definition example_parts :: "(u8 list list \<times> response) list" where
  "example_parts = [([[12], [13]], example_response 2 2), ([[10, 11]], example_response 1 0)]"

definition example_body :: "nat \<Rightarrow> u8 list" where
  "example_body i = (if i = 1 then [10, 11] else [12, 13])"

lemma example_response_env_ok: "buf_ok example_response_env"
  by (auto simp: buf_ok_def example_response_env_def max_def word_le_nat_alt unat_of_nat simp flip: of_nat_add)

lemma example_crc_download_fields:
  "st_validate_response_checksum (mr_checksum_config example_crc_download)"
  "mr_running_response_sum example_crc_download = Some (s_crc32_checksum_new\<lparr>cs_algorithm := AWS_SCA_CRC32\<rparr>)"
  "mr_checksum_combinable example_crc_download" "mr_combine_slot_count example_crc_download = 2"
  "mr_combine_slots example_crc_download = Some (replicate (unat (2 :: u32)) \<lparr>slot_length = 0, slot_digest = []\<rparr>)"
  "res_error_code (finish_result example_crc_download) = AWS_ERROR_SUCCESS"
  by (simp_all add: example_crc_download_def example_defs)

lemmas receive_defs = receive_part_def s_s3_meta_request_headers_block_done_def s_ensure_part_combine_sum_def
  s_s3_meta_request_incoming_body_def init_response_body_def s_response_body_append_def update_sum_def
  s_s3_meta_request_stream_complete_def complete_checksums_def validate_part_def
  s_s3_meta_request_record_part_digest_def s_s3_meta_request_error_code_from_response_status_def

lemmas crc32_defs = aws_checksum_new_def aws_checksum_update_def aws_checksum_finalize_def s_crc_finalize_helper_def
  s_crc32_checksum_update_def crc_new_defs digest_len_defs example_hash_def

lemma example_parts_received: "receive_parts example_response_env example_crc_download example_parts \<noteq> None"
  by (simp add: example_parts_def example_response_def example_response_env_def example_crc_download_fields
      example_request_def aws_s3_request_new_def receive_defs crc32_defs Let_def)

theorem whole_object_validated_from_parts_witness:
  "\<exists>m' m''. receive_parts example_response_env example_crc_download example_parts = Some m' \<and>
    s_validate_meta_request_checksum_on_finish example_hash m' = Some (False, m'') \<and> res_did_validate (finish_result m'')"
proof -
  let ?E = example_response_env and ?s0 = "s_crc32_checksum_new\<lparr>cs_algorithm := AWS_SCA_CRC32\<rparr>"
  have E: "re_hash ?E = example_hash" by (simp add: example_response_env_def)
  obtain m' where m': "receive_parts ?E example_crc_download example_parts = Some m'"
    using example_parts_received by blast
  define s where "s = crc_sum example_hash AWS_SCA_CRC32 [10, 11, 12, 13]"
  have comb: "aws_checksum_algorithm_is_combinable AWS_SCA_CRC32" by (simp add: aws_checksum_algorithm_is_combinable_def)
  have s0: "aws_checksum_new (re_hash ?E) AWS_SCA_CRC32 = Inr ?s0" by (simp add: aws_checksum_new_def)
  have s: "aws_checksum_update (re_hash ?E) ?s0 (concat (map example_body [1..<Suc (unat (2 :: u32))])) = Inr s"
    using checksum_update_crc [OF example_hash_ok(1) comb, of "[]" "[10, 11, 12, 13]"]
      checksum_new_crc [OF example_hash_ok(1) comb] s0 by (simp add: E s_def example_body_def upt_rec)
  have "fresh_part (snd p) \<and> concat (fst p) = example_body (part_of p) \<and> length (example_body (part_of p)) < 2 ^ 64"
    if "p \<in> set example_parts" for p
    using that by (auto simp: example_parts_def example_response_def fresh_part_def example_body_def example_request_def
        aws_s3_request_new_def s_s3_meta_request_error_code_from_response_status_def)
  moreover have "part_of ` set example_parts = {1..unat (2 :: u32)}"
  proof -
    have "{1..unat (2 :: u32)} = {1, 2}" by auto
    then show ?thesis
      by (simp add: example_parts_def example_response_def example_request_def aws_s3_request_new_def insert_commute)
  qed
  moreover have "fst (s_validate_checksum (re_hash ?E) s (mr_response_header_checksum example_crc_download))"
  proof -
    have "crc_digest example_hash AWS_SCA_CRC32 [10, 11, 12, 13] = [0, 0, 0, 46]" by code_simp
    then have "fst (aws_checksum_finalize example_hash s (cs_digest_size s)) = Inr [0, 0, 0, 46]"
      using checksum_finalize_crc [OF example_hash_ok(2) comb order_refl, of "[10, 11, 12, 13]"] by (simp add: s_def)
    then obtain used where "aws_checksum_finalize example_hash s (cs_digest_size s) = (Inr [0, 0, 0, 46], used)"
      by (metis prod.collapse)
    moreover have "map (\<lambda>b. char_of (unat b)) [0 :: u8, 0, 0, 46] = [CHR 0x00, CHR 0x00, CHR 0x00, CHR 0x2E]"
      by code_simp
    ultimately show ?thesis by (simp add: E s_validate_checksum_def example_hash_def example_crc_download_def)
  qed
  ultimately show ?thesis
    using whole_object_validated_from_parts [of ?E AWS_SCA_CRC32 ?s0 example_crc_download 2 example_parts example_body m' s]
      example_hash_ok example_response_env_ok comb s0 s m' example_crc_download_fields by (simp add: E) blast
qed

end
