(* ===== verification/S3_Memory_Limits.thy ===== *)
theory S3_Memory_Limits
  imports Complex_Main S3_Util
begin

section \<open>Memory limits of a client (\<^verbatim>\<open>source/s3_client.c\<close>)\<close>

text \<open>
  The memory limit and the largest part size a client derives from its configuration. A throughput is
  a floating-point number in the code; it is only compared here, and a rational number. Environment
  variables are arguments: \<open>None\<close> for one that is unset or empty.
\<close>

definition aws_s3_default_part_size :: u64 where
  "aws_s3_default_part_size = g_default_part_size_fallback"

definition aws_s3_default_max_part_size_for_memory_limit :: "u64 \<Rightarrow> u64" where
  "aws_s3_default_max_part_size_for_memory_limit memory_limit = min (memory_limit div 2) g_default_max_part_size"

text \<open>The tiers of a platform with 64-bit sizes.\<close>

definition s_get_default_mem_limit_from_throughput :: "rat \<Rightarrow> usize" where
  "s_get_default_mem_limit_from_throughput throughput_gbps =
     (if throughput_gbps \<ge> 200 then GB_TO_BYTES 24
      else if throughput_gbps \<ge> 100 then GB_TO_BYTES 16
      else if throughput_gbps \<ge> 75 then GB_TO_BYTES 8
      else if throughput_gbps \<ge> 25 then GB_TO_BYTES 4
      else if throughput_gbps \<ge> 10 then GB_TO_BYTES 2
      else if throughput_gbps \<ge> 5 then MB_TO_BYTES 512
      else if throughput_gbps > 0 then MB_TO_BYTES 256
      else GB_TO_BYTES 2)"

text \<open>The throughput of the detected platform is \<open>None\<close> where none was detected.\<close>

definition aws_s3_default_memory_limit_for_throughput :: "rat option \<Rightarrow> rat \<Rightarrow> usize" where
  "aws_s3_default_memory_limit_for_throughput detected throughput_target_gbps =
     (let effective_throughput_gbps =
        (if throughput_target_gbps = 0
         then (case detected of
                 Some t \<Rightarrow> if t > 0 \<and> t < 10 then t else throughput_target_gbps
               | None \<Rightarrow> throughput_target_gbps)
         else throughput_target_gbps)
      in s_get_default_mem_limit_from_throughput effective_throughput_gbps)"

definition mul_checked_twice :: "aws_math \<Rightarrow> u64 \<Rightarrow> u64 option" where
  "mul_checked_twice M n = (case aws_mul_u64_checked M n 1024 of None \<Rightarrow> None | Some k \<Rightarrow> aws_mul_u64_checked M k 1024)"

definition aws_s3_resolve_configured_memory_limit ::
    "aws_math \<Rightarrow> str_lib \<Rightarrow> string option \<Rightarrow> string option \<Rightarrow> u64 \<Rightarrow> u64 result" where
  "aws_s3_resolve_configured_memory_limit M S mb_env gib_env configured_limit =
     (if configured_limit \<noteq> 0 then Inr configured_limit
      else
        (case (case mb_env of
                 None \<Rightarrow> Inr 0
               | Some mem_limit_mb_str \<Rightarrow>
                   (case utf8_parse_u64 S mem_limit_mb_str of
                      None \<Rightarrow> Inl AWS_ERROR_INVALID_ARGUMENT
                    | Some mem_limit_in_mb \<Rightarrow>
                        (case mul_checked_twice M mem_limit_in_mb of
                           None \<Rightarrow> Inl AWS_ERROR_OVERFLOW_DETECTED
                         | Some n \<Rightarrow> Inr n))) of
           Inl e \<Rightarrow> Inl e
         | Inr memory_limit \<Rightarrow>
             if memory_limit \<noteq> 0 then Inr memory_limit
             else
               (case gib_env of
                  None \<Rightarrow> Inr 0
                | Some gib_str \<Rightarrow>
                    (case utf8_parse_u64 S gib_str of
                       None \<Rightarrow> Inl AWS_ERROR_INVALID_ARGUMENT
                     | Some mem_limit_in_gib \<Rightarrow>
                         (case mul_checked_twice M mem_limit_in_gib of
                            None \<Rightarrow> Inl AWS_ERROR_INVALID_ARGUMENT
                          | Some n \<Rightarrow>
                              (case aws_mul_u64_checked M n 1024 of
                                 None \<Rightarrow> Inl AWS_ERROR_INVALID_ARGUMENT
                               | Some bytes \<Rightarrow> Inr bytes))))))"

end
