(* ===== verification/S3_Config.thy ===== *)
theory S3_Config
  imports S3_Meta_Request S3_Ranges
begin

section \<open>Connection limits of a client (\<^verbatim>\<open>source/s3_client.c\<close>)\<close>

text \<open>
  How many connections and requests a client may have. The number of connections a disk throughput
  allows, a floating-point computation, is given (fields \<open>cl_disk_connections\<close> and
  \<open>mr_disk_connections\<close>; \<open>None\<close> when the file options set no limit).
\<close>

subsection \<open>Connections\<close>

definition s_max_requests_multiplier :: u32 where
  "s_max_requests_multiplier = 4"

definition aws_s3_client_get_max_active_connections :: "aws_s3_client \<Rightarrow> meta_request option \<Rightarrow> u32" where
  "aws_s3_client_get_max_active_connections client meta_request_opt =
     (let max_active_connections =
            (if cl_max_active_connections_override client > 0 \<and>
                cl_max_active_connections_override client < cl_ideal_connection_count client
             then cl_max_active_connections_override client else cl_ideal_connection_count client);
          client_limit = (\<lambda>n. case cl_disk_connections client of None \<Rightarrow> n | Some d \<Rightarrow> min d n)
      in case meta_request_opt of
           None \<Rightarrow> client_limit max_active_connections
         | Some m \<Rightarrow>
             let max_active_connections =
               (if mr_max_active_connections_override m \<noteq> 0
                then min (mr_max_active_connections_override m) max_active_connections else max_active_connections)
             in (case mr_disk_connections m of
                   Some d \<Rightarrow> min d max_active_connections
                 | None \<Rightarrow> client_limit max_active_connections))"

definition aws_s3_client_get_max_requests_in_flight :: "aws_s3_client \<Rightarrow> u32" where
  "aws_s3_client_get_max_requests_in_flight client =
     aws_s3_client_get_max_active_connections client None * s_max_requests_multiplier"

definition aws_s3_client_get_max_requests_prepare :: "aws_s3_client \<Rightarrow> u32" where
  "aws_s3_client_get_max_requests_prepare client = aws_s3_client_get_max_active_connections client None"

lemma max_active_connections_le:
  "aws_s3_client_get_max_active_connections c m \<le> cl_ideal_connection_count c"
  by (auto simp: aws_s3_client_get_max_active_connections_def Let_def min_le_iff_disj split: option.split)

end
