(* ===== verification/S3_Auto_Ranged_Get.thy ===== *)
theory S3_Auto_Ranged_Get
  imports S3_Config S3_Finish S3_Delivered_Parts
begin

section \<open>Auto-ranged gets (\<^verbatim>\<open>source/s3_auto_ranged_get.c\<close>)\<close>

text \<open>
  A download split into ranged gets: the request that discovers the size of the object, the handing
  out of one request per part, in object order or spread over several regions of the object, the
  completion of requests, and the end of the download.

  The structure \<open>aws_s3_auto_ranged_get\<close> is the record \<open>auto_ranged_get\<close>, the meta request it is
  based on its field \<open>ag_base\<close>. The update of the download is one critical section and one
  definition; so is the completion of a request, after the computations before it. The operations
  return \<open>None\<close> where the code fails a fatal assertion or reads headers that are not there.
  The buffer pool's alignment of sizes, the page size, the XML parser and the callback for headers
  are functions of the environment.
\<close>

subsection \<open>Data\<close>

record auto_ranged_get =
  ag_base :: meta_request
  ag_validation_algorithm :: checksum_algorithm
  ag_etag :: "string option"
  ag_s3_object_last_modified :: "string option"
  ag_estimated_object_stored_part_size :: u64
  ag_num_stored_parts :: u64
  ag_part_size_set :: bool
  ag_force_dynamic_part_size :: bool
  ag_initial_message_has_start_range :: bool
  ag_initial_message_has_end_range :: bool
  ag_initial_range_start :: u64
  ag_initial_range_end :: u64
  ag_object_size_hint :: u64
  ag_object_size_hint_available :: bool
  ag_object_range_start :: u64
  ag_object_range_end :: u64
  ag_object_size :: u64
  ag_first_part_size :: u64
  ag_total_num_parts :: u32
  ag_num_parts_requested :: u32
  ag_num_parts_completed :: u32
  ag_num_parts_successful :: u32
  ag_num_parts_failed :: u32
  ag_num_parts_checksum_validated :: u32
  ag_spread_num_regions :: u32
  ag_spread_region_size :: u32
  ag_spread_num_large_regions :: u32
  ag_spread_first_part :: u32
  ag_spread_parts_handed_out :: u32
  ag_object_range_known :: bool
  ag_object_range_empty :: bool
  ag_head_object_sent :: bool
  ag_head_object_completed :: bool
  ag_read_window_warning_issued :: bool
  ag_initial_message_has_range_header :: bool
  ag_initial_message_has_if_match_header :: bool

record get_env =
  ge_sink :: sink_env
  ge_str :: str_lib
  ge_xml_parse :: "string \<Rightarrow> xml_node option"
  ge_headers_callback :: "headers \<Rightarrow> nat \<Rightarrow> aws_error"
  ge_derive_aligned_buffer_size :: "u64 \<Rightarrow> u64"
  ge_page_size :: usize

abbreviation ge_hash :: "get_env \<Rightarrow> hash_lib" where
  "ge_hash E \<equiv> env_hash (ge_sink E)"

text \<open>The fields of a resume token; a type keeps its token in the fields that apply to it.\<close>

record resume_token =
  tk_type :: meta_request_type
  tk_part_size :: usize
  tk_total_num_parts :: usize
  tk_multipart_upload_id :: "string option"
  tk_num_parts_completed :: usize
  tk_etag :: "string option"
  tk_s3_object_last_modified :: "string option"
  tk_continuous_downloaded_bytes :: u64
  tk_total_downloaded_bytes :: u64
  tk_object_range_start :: u64
  tk_object_range_end :: u64
  tk_object_size :: u64

definition s_min_size_response_for_pooling :: u64 where
  "s_min_size_response_for_pooling = 1 * 1024 * 1024"

definition s_conservative_max_requests_in_flight :: u32 where
  "s_conservative_max_requests_in_flight = 8"

definition g_application_xml_value :: string where
  "g_application_xml_value = ''application/xml''"

definition AWS_S3_META_REQUEST_UPDATE_FLAG_CONSERVATIVE :: u32 where
  "AWS_S3_META_REQUEST_UPDATE_FLAG_CONSERVATIVE = 2"

subsection \<open>Creation\<close>

definition s_s3_auto_ranged_get_success_status :: "auto_ranged_get \<Rightarrow> nat" where
  "s_s3_auto_ranged_get_success_status g = (if ag_initial_message_has_range_header g then 206 else 200)"

text \<open>
  The base meta request, which \<open>aws_s3_meta_request_init_base\<close> made, is an argument; so are the
  headers of the initial message and the size hint of the options.
\<close>

definition aws_s3_meta_request_auto_ranged_get_new ::
    "str_lib \<Rightarrow> meta_request \<Rightarrow> bool \<Rightarrow> bool \<Rightarrow> headers \<Rightarrow> u64 option \<Rightarrow> auto_ranged_get result" where
  "aws_s3_meta_request_auto_ranged_get_new S base part_size_set force_dynamic_part_size hs object_size_hint =
     (let has_range = (hs g_range_header_name \<noteq> None) in
      case (if has_range then aws_s3_parse_request_range_header S hs else Inr (False, False, 0, 0)) of
        Inl e \<Rightarrow> Inl e
      | Inr (has_start, has_end, range_start, range_end) \<Rightarrow>
          let base = (if \<not> has_range
                      then base\<lparr>mr_requested_range_start := 0, mr_requested_range_start_resolved := True\<rparr>
                      else if has_start
                      then base\<lparr>mr_requested_range_start := range_start, mr_requested_range_start_resolved := True\<rparr>
                      else base);
              (hint_available, hint) = (case object_size_hint of None \<Rightarrow> (False, 0) | Some h \<Rightarrow> (True, h));
              (hint_available, hint) =
                (case mr_recv_buffer_capacity base of
                   Some capacity \<Rightarrow> if \<not> hint_available \<and> capacity < mr_part_size base then (True, capacity)
                                   else (hint_available, hint)
                 | None \<Rightarrow> (hint_available, hint))
          in Inr \<lparr>ag_base = base, ag_validation_algorithm = AWS_SCA_NONE, ag_etag = None,
                  ag_s3_object_last_modified = None, ag_estimated_object_stored_part_size = 0, ag_num_stored_parts = 0,
                  ag_part_size_set = part_size_set, ag_force_dynamic_part_size = force_dynamic_part_size,
                  ag_initial_message_has_start_range = has_start, ag_initial_message_has_end_range = has_end,
                  ag_initial_range_start = range_start, ag_initial_range_end = range_end,
                  ag_object_size_hint = hint, ag_object_size_hint_available = hint_available,
                  ag_object_range_start = 0, ag_object_range_end = 0, ag_object_size = 0,
                  ag_first_part_size = mr_part_size base, ag_total_num_parts = 0, ag_num_parts_requested = 0,
                  ag_num_parts_completed = 0, ag_num_parts_successful = 0, ag_num_parts_failed = 0,
                  ag_num_parts_checksum_validated = 0, ag_spread_num_regions = 0, ag_spread_region_size = 0,
                  ag_spread_num_large_regions = 0, ag_spread_first_part = 0, ag_spread_parts_handed_out = 0,
                  ag_object_range_known = False, ag_object_range_empty = False, ag_head_object_sent = False,
                  ag_head_object_completed = False, ag_read_window_warning_issued = False,
                  ag_initial_message_has_range_header = has_range,
                  ag_initial_message_has_if_match_header = (hs g_if_match_header_name \<noteq> None)\<rparr>)"

definition s_should_validate_whole_download :: "meta_request \<Rightarrow> bool" where
  "s_should_validate_whole_download m =
     (st_validate_response_checksum (mr_checksum_config m) \<and>
      (st_response_checksum_validation_mode (mr_checksum_config m) = AWS_SCVM_DEFAULT \<or>
       st_response_checksum_validation_mode (mr_checksum_config m) = AWS_SCVM_FULL_OBJECT))"

subsection \<open>The next part\<close>

text \<open>The part number, and the state with the handout counted when the parts are spread.\<close>

definition s_next_part_number_synced :: "auto_ranged_get \<Rightarrow> u32 \<times> auto_ranged_get" where
  "s_next_part_number_synced g =
     (let num_regions = ag_spread_num_regions g in
      if num_regions < 2 then (ag_num_parts_requested g + 1, g)
      else
        let i = ag_spread_parts_handed_out g;
            g = g\<lparr>ag_spread_parts_handed_out := i + 1\<rparr>;
            region = i mod num_regions;
            step = i div num_regions;
            region_size = ag_spread_region_size g;
            num_large_regions = ag_spread_num_large_regions g;
            first = ag_spread_first_part g;
            region_start =
              (if region < num_large_regions then first + region * (region_size + 1)
               else first + num_large_regions * (region_size + 1) + (region - num_large_regions) * region_size)
        in (region_start + step, g))"

definition s_init_spread_synced :: "auto_ranged_get \<Rightarrow> auto_ranged_get" where
  "s_init_spread_synced g =
     (let g = g\<lparr>ag_spread_num_regions := 0\<rparr>; m = ag_base g in
      if cl_force_sequential_requests (mr_client m) then g
      else if \<not> mr_out_of_order_delivery m then g
      else
        let first_part = ag_num_parts_requested g + 1; total_num_parts = ag_total_num_parts g in
        if first_part > total_num_parts then g
        else
          let parts_remaining = total_num_parts - first_part + 1;
              num_regions = aws_s3_client_get_max_active_connections (mr_client m) (Some m) in
          if num_regions \<le> 1 then g
          else if parts_remaining \<le> num_regions then g
          else g\<lparr>ag_spread_num_regions := num_regions, ag_spread_region_size := parts_remaining div num_regions,
                 ag_spread_num_large_regions := parts_remaining mod num_regions, ag_spread_first_part := first_part,
                 ag_spread_parts_handed_out := 0\<rparr>)"

subsection \<open>Update\<close>

text \<open>
  The type of the first request. The code clears \<open>object_range_empty\<close> on the way, so the state is
  part of the result.
\<close>

definition s_s3_get_request_type_for_discovering_object_size :: "auto_ranged_get \<Rightarrow> request_tag \<times> auto_ranged_get" where
  "s_s3_get_request_type_for_discovering_object_size g =
     (let m = ag_base g in
      if ag_object_range_empty g
      then (AWS_S3_AUTO_RANGE_GET_REQUEST_TYPE_GET_OBJECT_WITH_PART_NUMBER_1, g\<lparr>ag_object_range_empty := False\<rparr>)
      else if ag_initial_message_has_range_header g
      then (if ag_initial_message_has_start_range g then AWS_S3_AUTO_RANGE_GET_REQUEST_TYPE_GET_OBJECT_WITH_RANGE
            else AWS_S3_AUTO_RANGE_GET_REQUEST_TYPE_HEAD_OBJECT, g)
      else if ag_object_size_hint_available g \<and> ag_object_size_hint g > 0 \<and> ag_object_size_hint g \<le> mr_part_size m
      then (AWS_S3_AUTO_RANGE_GET_REQUEST_TYPE_GET_OBJECT_WITH_PART_NUMBER_1, g)
      else if \<not> s_should_validate_whole_download m \<or> mr_running_response_sum m \<noteq> None
      then (AWS_S3_AUTO_RANGE_GET_REQUEST_TYPE_GET_OBJECT_WITH_RANGE, g)
      else (AWS_S3_AUTO_RANGE_GET_REQUEST_TYPE_HEAD_OBJECT, g))"

definition get_request_new :: "auto_ranged_get \<Rightarrow> request_tag \<Rightarrow> aws_s3_request_type \<Rightarrow> u32 \<Rightarrow> u32 \<Rightarrow> aws_s3_request" where
  "get_request_new g = aws_s3_request_new (mr_part_size (ag_base g)) (mr_fio_streaming (ag_base g))"

text \<open>The switch over the type of the discovery request, one definition for each case.\<close>

definition send_head :: "auto_ranged_get \<Rightarrow> aws_s3_request \<times> auto_ranged_get" where
  "send_head g =
     (get_request_new g AWS_S3_AUTO_RANGE_GET_REQUEST_TYPE_HEAD_OBJECT AWS_S3_REQUEST_TYPE_HEAD_OBJECT 0
        AWS_S3_REQUEST_FLAG_RECORD_RESPONSE_HEADERS,
      g\<lparr>ag_head_object_sent := True\<rparr>)"

definition send_part_number_1 :: "auto_ranged_get \<Rightarrow> aws_s3_request \<times> auto_ranged_get" where
  "send_part_number_1 g =
     ((get_request_new g AWS_S3_AUTO_RANGE_GET_REQUEST_TYPE_GET_OBJECT_WITH_PART_NUMBER_1 AWS_S3_REQUEST_TYPE_GET_OBJECT 1
         (AWS_S3_REQUEST_FLAG_RECORD_RESPONSE_HEADERS OR AWS_S3_REQUEST_FLAG_ALLOCATE_BUFFER_FROM_POOL))
        \<lparr>rq_part_range_start := 0,
         rq_part_range_end :=
           (if ag_object_size_hint_available g \<and> ag_object_size_hint g > 0
            then min (ag_object_size_hint g) (mr_part_size (ag_base g)) - 1 else mr_part_size (ag_base g) - 1)\<rparr>,
      g\<lparr>ag_num_parts_requested := ag_num_parts_requested g + 1\<rparr>)"

text \<open>The start and the size of the first range.\<close>

definition first_range :: "auto_ranged_get \<Rightarrow> u64 \<times> u64" where
  "first_range g =
     (let part_size = mr_part_size (ag_base g) in
      if ag_initial_message_has_range_header g
      then
        let first_part_size =
              (if ag_initial_message_has_end_range g
               then min part_size (ag_initial_range_end g - ag_initial_range_start g + 1) else part_size)
        in (ag_initial_range_start g,
            case mr_recv_buffer_capacity (ag_base g) of
              Some capacity \<Rightarrow> min first_part_size capacity | None \<Rightarrow> first_part_size)
      else (0, part_size))"

definition send_first_range :: "auto_ranged_get \<Rightarrow> aws_s3_request \<times> auto_ranged_get" where
  "send_first_range g =
     (let (part_range_start, first_part_size) = first_range g in
      ((get_request_new g AWS_S3_AUTO_RANGE_GET_REQUEST_TYPE_GET_OBJECT_WITH_RANGE AWS_S3_REQUEST_TYPE_GET_OBJECT 1
          (AWS_S3_REQUEST_FLAG_RECORD_RESPONSE_HEADERS OR AWS_S3_REQUEST_FLAG_ALLOCATE_BUFFER_FROM_POOL))
         \<lparr>rq_part_range_start := part_range_start, rq_part_range_end := part_range_start + first_part_size - 1\<rparr>,
       g\<lparr>ag_first_part_size := (if ag_initial_message_has_range_header g then first_part_size else ag_first_part_size g),
         ag_num_parts_requested := ag_num_parts_requested g + 1\<rparr>))"

definition send_discovery :: "auto_ranged_get \<Rightarrow> aws_s3_request \<times> auto_ranged_get" where
  "send_discovery g =
     (let (tag, g) = s_s3_get_request_type_for_discovering_object_size g;
          (request, g) =
            (if tag = AWS_S3_AUTO_RANGE_GET_REQUEST_TYPE_HEAD_OBJECT then send_head g
             else if tag = AWS_S3_AUTO_RANGE_GET_REQUEST_TYPE_GET_OBJECT_WITH_PART_NUMBER_1 then send_part_number_1 g
             else send_first_range g)
      in (request\<lparr>rq_discovers_object_size := True\<rparr>, g))"

text \<open>The request for the next part.\<close>

definition send_part :: "auto_ranged_get \<Rightarrow> aws_s3_request \<times> auto_ranged_get" where
  "send_part g =
     (let (part_number, g) = s_next_part_number_synced g;
          request = get_request_new g AWS_S3_AUTO_RANGE_GET_REQUEST_TYPE_GET_OBJECT_WITH_RANGE
            AWS_S3_REQUEST_TYPE_GET_OBJECT part_number AWS_S3_REQUEST_FLAG_ALLOCATE_BUFFER_FROM_POOL;
          (part_range_start, part_range_end) =
            aws_s3_calculate_auto_ranged_get_part_range (ag_object_range_start g) (ag_object_range_end g)
              (mr_part_size (ag_base g)) (ag_first_part_size g) part_number
      in (request\<lparr>rq_part_range_start := part_range_start, rq_part_range_end := part_range_end\<rparr>,
          g\<lparr>ag_num_parts_requested := ag_num_parts_requested g + 1\<rparr>))"

definition read_data_requested :: "auto_ranged_get \<Rightarrow> u64" where
  "read_data_requested g =
     (if ag_num_parts_requested g > 0
      then ucast (ag_num_parts_requested g - 1) * mr_part_size (ag_base g) + ag_first_part_size g else 0)"

text \<open>Up to the label \<open>no_work_remaining\<close>: whether there is work, and the request to send.\<close>

definition get_next_work :: "auto_ranged_get \<Rightarrow> u32 \<Rightarrow> bool \<times> aws_s3_request option \<times> auto_ranged_get" where
  "get_next_work g flags =
     (let m = ag_base g in
      if \<not> aws_s3_meta_request_has_finish_result_synced m
      then
        if flags AND AWS_S3_META_REQUEST_UPDATE_FLAG_CONSERVATIVE \<noteq> 0 \<and>
           ag_num_parts_requested g - ag_num_parts_completed g +
             of_nat (length (pending_body_streaming_requests m)) > s_conservative_max_requests_in_flight
        then (True, None, g)
        else if \<not> ag_object_range_known g
        then (if ag_head_object_sent g \<or> ag_num_parts_requested g > 0 then (True, None, g)
              else let (request, g) = send_discovery g in (True, Some request, g))
        else if ag_num_parts_requested g < ag_total_num_parts g
        then (if cl_enable_read_backpressure (mr_client m) \<and> read_data_requested g \<ge> read_window_running_total m
              then (True, None, g\<lparr>ag_read_window_warning_issued := True\<rparr>)
              else
                let g = (if cl_enable_read_backpressure (mr_client m) then g\<lparr>ag_read_window_warning_issued := False\<rparr> else g);
                    (request, g) = send_part g
                in (True, Some request, g))
        else (num_parts_delivery_completed m < ag_total_num_parts g \<or>
              num_parts_delivery_completed m < num_parts_delivery_sent m, None, g)
      else (ag_head_object_sent g \<and> \<not> ag_head_object_completed g \<or>
            ag_num_parts_completed g < ag_num_parts_requested g \<or>
            num_parts_delivery_completed m < num_parts_delivery_sent m, None, g))"

text \<open>The result of a download with no work left, the last lines of the critical section.\<close>

definition get_set_result :: "auto_ranged_get \<Rightarrow> auto_ranged_get" where
  "get_set_result g =
     (let m = ag_base g;
          m = (if \<not> aws_s3_meta_request_has_finish_result_synced m
               then
                 let e = aws_s3_meta_request_validate_parts_delivered_synced m;
                     m = (if e \<noteq> AWS_ERROR_SUCCESS then aws_s3_meta_request_set_fail_synced m None e else m)
                 in m\<lparr>parts_delivered_mask := None, parts_delivered_mask_length := 0\<rparr>
               else m);
          m = aws_s3_meta_request_set_success_synced m (s_s3_auto_ranged_get_success_status g);
          m = (if ag_num_parts_checksum_validated g = ag_num_parts_requested g
               then m\<lparr>finish_result := (finish_result m)
                        \<lparr>res_did_validate := True, res_validation_algorithm := ag_validation_algorithm g\<rparr>\<rparr>
               else m)
      in g\<lparr>ag_base := m\<rparr>)"

definition get_update_synced :: "auto_ranged_get \<Rightarrow> u32 \<Rightarrow> bool \<times> aws_s3_request option \<times> auto_ranged_get" where
  "get_update_synced g flags =
     (let (work_remaining, request, g) = get_next_work g flags;
          work_remaining = (work_remaining \<or> aws_s3_meta_request_are_events_out_for_delivery_synced (ag_base g))
      in (work_remaining, request, if work_remaining then g else get_set_result g))"

definition no_resume_token :: resume_token where
  "no_resume_token = \<lparr>tk_type = AWS_S3_META_REQUEST_TYPE_DEFAULT, tk_part_size = 0, tk_total_num_parts = 0,
     tk_multipart_upload_id = None, tk_num_parts_completed = 0, tk_etag = None, tk_s3_object_last_modified = None,
     tk_continuous_downloaded_bytes = 0, tk_total_downloaded_bytes = 0, tk_object_range_start = 0,
     tk_object_range_end = 0, tk_object_size = 0\<rparr>"

definition s_build_download_resume_token_synced :: "auto_ranged_get \<Rightarrow> resume_token" where
  "s_build_download_resume_token_synced g =
     (let m = ag_base g;
          token = no_resume_token\<lparr>tk_type := AWS_S3_META_REQUEST_TYPE_GET_OBJECT, tk_part_size := mr_part_size m,
            tk_total_num_parts := ucast (ag_total_num_parts g)\<rparr>;
          token = (if ag_object_range_known g \<and> \<not> ag_object_range_empty g
                   then token\<lparr>tk_object_range_start := ag_object_range_start g,
                              tk_object_range_end := ag_object_range_end g, tk_object_size := ag_object_size g\<rparr>
                   else token)
      in token\<lparr>tk_num_parts_completed := ucast (ag_num_parts_successful g), tk_etag := ag_etag g,
               tk_s3_object_last_modified := ag_s3_object_last_modified g,
               tk_continuous_downloaded_bytes := num_bytes_delivered m,
               tk_total_downloaded_bytes := num_bytes_delivered_total m\<rparr>)"

text \<open>The update: the critical section, and the finish when no work remains.\<close>

definition s_s3_auto_ranged_get_update ::
    "get_env \<Rightarrow> auto_ranged_get \<Rightarrow> u32 \<Rightarrow>
     (bool \<times> aws_s3_request option \<times> auto_ranged_get \<times> resume_token finish_effects option) option" where
  "s_s3_auto_ranged_get_update E g flags =
     (let (work_remaining, request, g) = get_update_synced g flags in
      if work_remaining then Some (True, request, g, None)
      else
        (case aws_s3_meta_request_finish_default (ge_hash E)
                (Some (\<lambda>m. Some (s_build_download_resume_token_synced (g\<lparr>ag_base := m\<rparr>))))
                (ge_headers_callback E) (ag_base g) of
           None \<Rightarrow> None
         | Some (m, effects) \<Rightarrow> Some (False, None, g\<lparr>ag_base := m\<rparr>, effects)))"

subsection \<open>Discovery\<close>

definition s_check_empty_file_download_error :: "get_env \<Rightarrow> aws_s3_request \<Rightarrow> bool" where
  "s_check_empty_file_download_error E failed_request =
     (case rq_response_headers failed_request of
        None \<Rightarrow> False
      | Some failed_headers \<Rightarrow>
          if \<not> rq_response_body_capacity failed_request > 0 then False
          else
            (case failed_headers g_content_type_header_name of
               None \<Rightarrow> False
             | Some content_type \<Rightarrow>
                 eq_ignore_case (ge_str E) content_type g_application_xml_value \<and>
                 (case aws_xml_get_body_at_path (eq_ignore_case (ge_str E)) (ge_xml_parse E)
                         (body_text (rq_response_body failed_request)) [''Error'', ''ActualObjectSize''] of
                    Inr actual \<Rightarrow> actual = ''0''
                  | Inl _ \<Rightarrow> False)))"

record discovery =
  dc_object_range_start :: u64
  dc_object_range_end :: u64
  dc_object_size :: u64
  dc_first_part_size :: u64
  dc_empty_file_error :: bool

text \<open>\<open>None\<close> is a read of headers that are not there.\<close>

definition s_discover_object_range_and_size ::
    "get_env \<Rightarrow> auto_ranged_get \<Rightarrow> aws_s3_request \<Rightarrow> aws_error \<Rightarrow> discovery result option" where
  "s_discover_object_range_and_size E g request error_code =
     (let found = (\<lambda>start range_end total first. Some (Inr
            \<lparr>dc_object_range_start = start, dc_object_range_end = range_end, dc_object_size = total,
             dc_first_part_size = first, dc_empty_file_error = False\<rparr>));
          S = ge_str E
      in
      if rq_tag request = AWS_S3_AUTO_RANGE_GET_REQUEST_TYPE_HEAD_OBJECT
      then
        if error_code \<noteq> AWS_ERROR_SUCCESS then Some (Inl error_code)
        else
          (case rq_response_headers request of
             None \<Rightarrow> None
           | Some hs \<Rightarrow>
               (case aws_s3_parse_content_length_response_header hs of
                  Inl e \<Rightarrow> Some (Inl e)
                | Inr content_length \<Rightarrow>
                    if \<not> ag_initial_message_has_range_header g
                    then found 0 (if content_length > 0 then content_length - 1 else 0) content_length 0
                    else
                      (case aws_s3_parse_content_range_response_header S hs of
                         Inl e \<Rightarrow> Some (Inl e)
                       | Inr (start, range_end, object_size) \<Rightarrow> found start range_end object_size 0)))
      else if rq_tag request = AWS_S3_AUTO_RANGE_GET_REQUEST_TYPE_GET_OBJECT_WITH_PART_NUMBER_1
      then
        if error_code \<noteq> AWS_ERROR_SUCCESS \<and> error_code \<noteq> AWS_ERROR_S3_INTERNAL_BUFFER_SIZE_MISMATCH_RETRYING_WITH_RANGE
        then Some (Inl error_code)
        else
          (case rq_response_headers request of
             None \<Rightarrow> None
           | Some hs \<Rightarrow>
               (case aws_s3_parse_content_length_response_header hs of
                  Inl e \<Rightarrow> Some (Inl e)
                | Inr first_part_size \<Rightarrow>
                    if first_part_size > 0
                    then
                      (case aws_s3_parse_content_range_response_header S hs of
                         Inl e \<Rightarrow> Some (Inl e)
                       | Inr (_, _, object_size) \<Rightarrow> found 0 (object_size - 1) object_size first_part_size)
                    else found 0 0 0 first_part_size))
      else if rq_tag request = AWS_S3_AUTO_RANGE_GET_REQUEST_TYPE_GET_OBJECT_WITH_RANGE
      then
        if error_code \<noteq> AWS_ERROR_SUCCESS
        then
          if \<not> ag_initial_message_has_range_header g \<and> s_check_empty_file_download_error E request
          then Some (Inr \<lparr>dc_object_range_start = 0, dc_object_range_end = 0, dc_object_size = 0,
                          dc_first_part_size = 0, dc_empty_file_error = True\<rparr>)
          else Some (Inl error_code)
        else
          (case rq_response_headers request of
             None \<Rightarrow> None
           | Some hs \<Rightarrow>
               (case aws_s3_parse_content_range_response_header S hs of
                  Inl e \<Rightarrow> Some (Inl e)
                | Inr (start, _, object_size) \<Rightarrow>
                    if ag_initial_message_has_range_header g
                    then found start
                           (if ag_initial_message_has_end_range g
                            then min (object_size - 1) (ag_initial_range_end g) else object_size - 1) object_size 0
                    else found 0 (object_size - 1) object_size 0))
      else Some (Inl AWS_ERROR_UNKNOWN))"

definition s_discovery_checksum_covers_download :: "aws_s3_request \<Rightarrow> u64 \<Rightarrow> u64 \<Rightarrow> u64 \<Rightarrow> u64 \<Rightarrow> bool" where
  "s_discovery_checksum_covers_download request object_range_start object_range_end object_size first_part_size =
     (if object_size = 0 then True
      else if object_range_start \<noteq> 0 \<or> object_range_end \<noteq> object_size - 1 then False
      else if rq_tag request = AWS_S3_AUTO_RANGE_GET_REQUEST_TYPE_HEAD_OBJECT then True
      else if rq_tag request = AWS_S3_AUTO_RANGE_GET_REQUEST_TYPE_GET_OBJECT_WITH_PART_NUMBER_1
      then first_part_size = object_size
      else if rq_tag request = AWS_S3_AUTO_RANGE_GET_REQUEST_TYPE_GET_OBJECT_WITH_RANGE
      then rq_part_range_start request = 0 \<and> rq_part_range_end request \<ge> object_size - 1
      else False)"

definition s_request_body_is_entire_download :: "aws_s3_request \<Rightarrow> u64 \<Rightarrow> u64 \<Rightarrow> u64 \<Rightarrow> bool" where
  "s_request_body_is_entire_download request object_range_start object_range_end first_part_size =
     (if rq_tag request = AWS_S3_AUTO_RANGE_GET_REQUEST_TYPE_GET_OBJECT_WITH_PART_NUMBER_1
      then object_range_start = 0 \<and> first_part_size > object_range_end
      else if rq_tag request = AWS_S3_AUTO_RANGE_GET_REQUEST_TYPE_GET_OBJECT_WITH_RANGE
      then rq_part_range_start request \<le> object_range_start \<and> rq_part_range_end request \<ge> object_range_end
      else False)"

definition s_response_needs_ordered_body :: "meta_request \<Rightarrow> bool" where
  "s_response_needs_ordered_body m = (mr_running_response_sum m \<noteq> None \<and> \<not> mr_checksum_combinable m)"

definition s_resolve_out_of_order_delivery :: "meta_request \<Rightarrow> meta_request" where
  "s_resolve_out_of_order_delivery m =
     (let out_of_order = aws_s3_allow_out_of_order_delivery
            (mr_recv_filepath m \<and> mr_recv_file_write_fd_slots m) (\<not> mr_recv_filepath m)
            (mr_out_of_order_delivery_override m) (cl_out_of_order_delivery (mr_client m))
            (cl_out_of_order_delivery_env (mr_client m));
          out_of_order = (if out_of_order \<and> s_response_needs_ordered_body m then False else out_of_order)
      in m\<lparr>mr_out_of_order_delivery := out_of_order\<rparr>)"

subsection \<open>Completion of a request\<close>

text \<open>
  The ETag, the time of modification and the part size of the object, captured from the headers of
  the discovery response. The first component is the error.
\<close>

definition capture_etag :: "get_env \<Rightarrow> auto_ranged_get \<Rightarrow> headers \<Rightarrow> u64 \<Rightarrow> aws_error \<times> auto_ranged_get" where
  "capture_etag E g hs object_size =
     (case hs g_etag_header_name of
        None \<Rightarrow> (AWS_ERROR_S3_MISSING_ETAG, g)
      | Some etag_header_value \<Rightarrow>
          let g = g\<lparr>ag_etag := Some etag_header_value\<rparr>;
              g = (case hs ''Last-Modified'' of
                     None \<Rightarrow> g | Some last_modified \<Rightarrow> g\<lparr>ag_s3_object_last_modified := Some last_modified\<rparr>);
              (num_parts, estimate) =
                (case aws_s3_extract_parts_from_etag (ge_str E) etag_header_value of
                   Inr n \<Rightarrow> if n > 0 then (n, object_size div ucast n) else (1, g_default_part_size_fallback)
                 | Inl _ \<Rightarrow> (1, g_default_part_size_fallback))
          in (AWS_ERROR_SUCCESS,
              g\<lparr>ag_estimated_object_stored_part_size := estimate, ag_num_stored_parts := ucast num_parts\<rparr>))"

text \<open>
  The part size chosen after discovery, when none was configured: the state, the size of the first
  part, and the size the buffer pool is told to keep a block for.
\<close>

definition override_part_size ::
    "get_env \<Rightarrow> auto_ranged_get \<Rightarrow> aws_s3_request \<Rightarrow> u32 \<Rightarrow> u64 \<Rightarrow> auto_ranged_get \<times> u64 \<times> usize option" where
  "override_part_size E g request max_connections first_part_size =
     (let m = ag_base g in
      if \<not> (ag_force_dynamic_part_size g \<or> \<not> ag_part_size_set g \<and> \<not> cl_part_size_set (mr_client m))
      then (g, first_part_size, None)
      else
        (case aws_s3_calculate_request_optimal_range_size (cl_optimal_range_size (mr_client m))
                (ag_estimated_object_stored_part_size g) (mr_is_express m) of
           Inl _ \<Rightarrow> (g, first_part_size, None)
         | Inr optimal \<Rightarrow>
             let optimal = ge_derive_aligned_buffer_size E optimal;
                 page_size = ge_page_size E;
                 optimal = (if mr_recv_file_direct_io m \<and> optimal mod page_size \<noteq> 0
                            then (optimal div page_size + 1) * page_size else optimal);
                 m = m\<lparr>mr_part_size := optimal\<rparr>;
                 optimize = (ag_num_stored_parts g > aws_mul_u64_saturating (env_math (ge_sink E)) (ucast max_connections) 2);
                 m = (if optimize then m\<lparr>mr_buffer_pool_optimized := True\<rparr> else m)
             in (g\<lparr>ag_base := m\<rparr>,
                 if rq_tag request = AWS_S3_AUTO_RANGE_GET_REQUEST_TYPE_HEAD_OBJECT then mr_part_size m else first_part_size,
                 if optimize then Some (mr_part_size m) else None)))"

text \<open>The checksum of the whole object, when the discovery response has one that applies.\<close>

definition discover_checksum :: "get_env \<Rightarrow> meta_request \<Rightarrow> aws_s3_request \<Rightarrow> discovery \<Rightarrow> u64 \<Rightarrow> aws_error \<times> meta_request" where
  "discover_checksum E m request dc first_part_size =
     (if s_should_validate_whole_download m \<and> mr_running_response_sum m = None \<and>
         s_discovery_checksum_covers_download request (dc_object_range_start dc) (dc_object_range_end dc)
           (dc_object_size dc) first_part_size \<and>
         \<not> (rq_did_validate request \<and>
            s_request_body_is_entire_download request (dc_object_range_start dc) (dc_object_range_end dc) first_part_size)
      then
        (case aws_s3_check_headers_for_checksum (ge_hash E) (mr_checksum_config m) (rq_response_headers request) of
           Inl e \<Rightarrow> (aws_last_error_or_unknown e, m)
         | Inr None \<Rightarrow> (AWS_ERROR_SUCCESS, m)
         | Inr (Some (running_sum, expected)) \<Rightarrow>
             (AWS_ERROR_SUCCESS, m\<lparr>mr_running_response_sum := Some running_sum, mr_response_header_checksum := expected\<rparr>))
      else (AWS_ERROR_SUCCESS, m))"

definition limit_express_connections :: "meta_request \<Rightarrow> u64 \<Rightarrow> u32 \<Rightarrow> meta_request" where
  "limit_express_connections m object_size max_connections =
     (if mr_is_express m \<and> mr_part_size m < g_s3express_connection_limitation_part_size_threshold \<and>
         object_size > g_s3express_connection_limitation_object_size_threshold
      then
        let max_active_connections_override = min g_s3express_connection_limitation max_connections in
        if max_active_connections_override < max_connections
        then m\<lparr>mr_max_active_connections_override := max_active_connections_override\<rparr> else m
      else m)"

text \<open>
  The headers reported to the user for the whole download: the state with the callback used up, the
  request with the headers changed, the error and what the callback was called with. \<open>snprintf\<close>
  prints numbers in decimal and cuts what does not fit in the 63 characters of a buffer of 64 bytes; a length has at
  most 20 digits.
\<close>

definition report_headers ::
    "get_env \<Rightarrow> auto_ranged_get \<Rightarrow> aws_s3_request \<Rightarrow> discovery \<Rightarrow> u64 \<Rightarrow>
     (aws_error \<times> auto_ranged_get \<times> aws_s3_request \<times> (headers \<times> nat) option) option" where
  "report_headers E g request dc object_range_length =
     (if \<not> dc_empty_file_error dc \<and> mr_has_headers_callback (ag_base g)
      then
        (case rq_response_headers request of
           None \<Rightarrow> None
         | Some hs \<Rightarrow>
             let hs = (if rq_tag request = AWS_S3_AUTO_RANGE_GET_REQUEST_TYPE_GET_OBJECT_WITH_RANGE \<or>
                          rq_tag request = AWS_S3_AUTO_RANGE_GET_REQUEST_TYPE_GET_OBJECT_WITH_PART_NUMBER_1
                       then
                         (if ag_initial_message_has_range_header g
                          then hs(g_content_range_header_name \<mapsto>
                                 take 63 (''bytes '' @ show_u64 (dc_object_range_start dc) @ ''-'' @
                                   show_u64 (dc_object_range_end dc) @ ''/'' @ show_u64 (dc_object_size dc)))
                          else hs(g_content_range_header_name := None))
                       else hs);
                 hs = hs(g_content_length_header_name \<mapsto> show_u64 object_range_length);
                 status = s_s3_auto_ranged_get_success_status g;
                 e = ge_headers_callback E hs status
             in Some (if e \<noteq> AWS_ERROR_SUCCESS then aws_last_error_or_unknown e else AWS_ERROR_SUCCESS,
                      g\<lparr>ag_base := (ag_base g)\<lparr>mr_has_headers_callback := False\<rparr>\<rparr>,
                      request\<lparr>rq_response_headers := Some hs\<rparr>, Some (hs, status)))
      else Some (AWS_ERROR_SUCCESS, g, request, None))"

text \<open>
  What a completed discovery request gives before the critical section. \<open>found_object_size\<close> is
  \<open>fd_found\<close>; the size of the first part may have been replaced by the part size.
\<close>

record found =
  fd_error_code :: aws_error
  fd_found :: bool
  fd_discovery :: discovery
  fd_first_part_size :: u64
  fd_object_range_length :: u64
  fd_special_size :: "usize option"
  fd_headers :: "(headers \<times> nat) option"

definition no_discovery :: discovery where
  "no_discovery = \<lparr>dc_object_range_start = 0, dc_object_range_end = 0, dc_object_size = 0, dc_first_part_size = 0,
     dc_empty_file_error = False\<rparr>"

definition not_found :: "aws_error \<Rightarrow> found" where
  "not_found e = \<lparr>fd_error_code = e, fd_found = False, fd_discovery = no_discovery, fd_first_part_size = 0,
     fd_object_range_length = 0, fd_special_size = None, fd_headers = None\<rparr>"

definition discovery_finished ::
    "get_env \<Rightarrow> auto_ranged_get \<Rightarrow> aws_s3_request \<Rightarrow> aws_error \<Rightarrow> (found \<times> auto_ranged_get \<times> aws_s3_request) option" where
  "discovery_finished E g request error_code =
     (case s_discover_object_range_and_size E g request error_code of
        None \<Rightarrow> None
      | Some (Inl e) \<Rightarrow> Some (not_found (aws_last_error_or_unknown e), g, request)
      | Some (Inr dc) \<Rightarrow>
          (case (if error_code = AWS_ERROR_SUCCESS \<or>
                    error_code = AWS_ERROR_S3_INTERNAL_BUFFER_SIZE_MISMATCH_RETRYING_WITH_RANGE
                 then map_option (\<lambda>hs. capture_etag E g hs (dc_object_size dc)) (rq_response_headers request)
                 else Some (AWS_ERROR_SUCCESS, g)) of
             None \<Rightarrow> None
           | Some (e, g) \<Rightarrow>
               if e \<noteq> AWS_ERROR_SUCCESS
               then Some ((not_found e)\<lparr>fd_discovery := dc, fd_first_part_size := dc_first_part_size dc\<rparr>, g, request)
               else
                 let object_range_length = (if dc_object_size dc \<noteq> 0
                       then dc_object_range_end dc - dc_object_range_start dc + 1 else 0);
                     max_connections = aws_s3_client_get_max_active_connections (mr_client (ag_base g)) (Some (ag_base g));
                     (g, first_part_size, special) = override_part_size E g request max_connections (dc_first_part_size dc);
                     (e, m) = discover_checksum E (ag_base g) request dc first_part_size;
                     g = g\<lparr>ag_base := m\<rparr>;
                     fd = \<lparr>fd_error_code = e, fd_found = True, fd_discovery = dc, fd_first_part_size = first_part_size,
                           fd_object_range_length = object_range_length, fd_special_size = special, fd_headers = None\<rparr>
                 in if e \<noteq> AWS_ERROR_SUCCESS then Some (fd, g, request)
                    else
                      let g = g\<lparr>ag_base := limit_express_connections (ag_base g) (dc_object_size dc) max_connections\<rparr>
                      in map_option (\<lambda>(e, g, request, headers).
                           (fd\<lparr>fd_error_code := e, fd_headers := headers\<rparr>, g, request))
                           (report_headers E g request dc object_range_length)))"

text \<open>
  The first part of the critical section: the object range is recorded, the caller's buffer must hold
  it, and the number of parts, the mask of delivered parts, the checksum of the whole object and the
  order of delivery are settled.
\<close>

definition check_recv_buffer :: "found \<Rightarrow> meta_request \<Rightarrow> aws_error \<times> meta_request" where
  "check_recv_buffer fd m =
     (case mr_recv_buffer_capacity m of
        Some capacity \<Rightarrow>
          if fd_error_code fd = AWS_ERROR_SUCCESS
          then (if fd_object_range_length fd > capacity then (AWS_ERROR_SHORT_BUFFER, m)
                else (fd_error_code fd, m\<lparr>mr_recv_buffer_expected_len := fd_object_range_length fd\<rparr>))
          else (fd_error_code fd, m)
      | None \<Rightarrow> (fd_error_code fd, m))"

definition set_object_range :: "found \<Rightarrow> bool \<Rightarrow> auto_ranged_get \<Rightarrow> auto_ranged_get" where
  "set_object_range fd first_part_buffer_size_mismatch g =
     (let dc = fd_discovery fd in
      g\<lparr>ag_object_range_known := True, ag_object_range_empty := (dc_object_size dc = 0),
        ag_object_range_start := dc_object_range_start dc, ag_object_range_end := dc_object_range_end dc,
        ag_object_size := dc_object_size dc,
        ag_base := (ag_base g)\<lparr>mr_requested_range_start_resolved := True,
                               mr_requested_range_start := dc_object_range_start dc\<rparr>,
        ag_first_part_size := (if \<not> first_part_buffer_size_mismatch \<and> fd_first_part_size fd \<noteq> 0
                               then fd_first_part_size fd else ag_first_part_size g)\<rparr>)"

definition set_num_parts :: "auto_ranged_get \<Rightarrow> auto_ranged_get" where
  "set_num_parts g =
     (if \<not> ag_object_range_empty g
      then
        let total_num_parts = aws_s3_calculate_auto_ranged_get_num_parts (mr_part_size (ag_base g)) (ag_first_part_size g)
              (ag_object_range_start g) (ag_object_range_end g);
            mask_length = ucast ((ucast total_num_parts + 7 :: usize) div 8)
        in g\<lparr>ag_total_num_parts := total_num_parts,
             ag_base := (ag_base g)\<lparr>parts_delivered_mask := Some (replicate (unat mask_length) 0),
               parts_delivered_mask_length := mask_length, parts_delivered_mask_num_parts := total_num_parts\<rparr>\<rparr>
      else g)"

definition setup_validation ::
    "get_env \<Rightarrow> aws_s3_request \<Rightarrow> u32 \<Rightarrow> aws_error \<times> meta_request \<Rightarrow> (aws_error \<times> meta_request) option" where
  "setup_validation E request total_num_parts = (\<lambda>(e, m).
     (if s_should_validate_whole_download m \<and> e = AWS_ERROR_SUCCESS
      then map_option (\<lambda>(e, m). (if e \<noteq> AWS_ERROR_SUCCESS then aws_last_error_or_unknown e else e, m))
             (aws_s3_meta_request_setup_checksum_combine_synced (ge_hash E) m request total_num_parts)
      else Some (e, m)))"

definition record_discovery ::
    "get_env \<Rightarrow> auto_ranged_get \<Rightarrow> aws_s3_request \<Rightarrow> found \<Rightarrow> bool \<Rightarrow> (aws_error \<times> auto_ranged_get) option" where
  "record_discovery E g request fd first_part_buffer_size_mismatch =
     (let (e, m) = check_recv_buffer fd (ag_base g);
          g = set_num_parts (set_object_range fd first_part_buffer_size_mismatch (g\<lparr>ag_base := m\<rparr>))
      in map_option (\<lambda>(e, m). (e, g\<lparr>ag_base := s_resolve_out_of_order_delivery m\<rparr>))
           (setup_validation E request (ag_total_num_parts g) (e, ag_base g)))"

text \<open>
  A part that succeeded: it is counted, its progress is reported and its body is queued. The last
  component is a body handed to a write worker.
\<close>

definition part_succeeded ::
    "get_env \<Rightarrow> auto_ranged_get \<Rightarrow> aws_s3_request \<Rightarrow> auto_ranged_get \<times> aws_s3_request option" where
  "part_succeeded E g request =
     (let g = (if rq_did_validate request
               then g\<lparr>ag_validation_algorithm := (if ag_validation_algorithm g = AWS_SCA_NONE
                        then rq_validation_algorithm request else ag_validation_algorithm g),
                      ag_num_parts_checksum_validated := ag_num_parts_checksum_validated g + 1\<rparr>
               else g);
          g = g\<lparr>ag_num_parts_successful := ag_num_parts_successful g + 1\<rparr>;
          m = ag_base g;
          m = (if mr_has_progress_callback m
               then aws_s3_meta_request_add_event_for_delivery_synced m
                      (Some (EVENT_PROGRESS (body_len (rq_response_body request))
                         (if ag_object_range_empty g then 0
                          else ag_object_range_end g + 1 - ag_object_range_start g)))
               else m);
          (m, write_job) = aws_s3_meta_request_stream_response_body_synced (ge_sink E) m request
      in (g\<lparr>ag_base := m\<rparr>, write_job))"

text \<open>The switch over the tag; the second component says whether the metrics are finished now.\<close>

definition count_request ::
    "get_env \<Rightarrow> auto_ranged_get \<Rightarrow> aws_s3_request \<Rightarrow> aws_error \<Rightarrow> bool \<Rightarrow> bool \<Rightarrow>
     auto_ranged_get \<times> bool \<times> aws_s3_request option" where
  "count_request E g request error_code found_object_size empty_file_error =
     (if rq_tag request = AWS_S3_AUTO_RANGE_GET_REQUEST_TYPE_HEAD_OBJECT
      then (g\<lparr>ag_head_object_completed := True\<rparr>, True, None)
      else if rq_tag request = AWS_S3_AUTO_RANGE_GET_REQUEST_TYPE_GET_OBJECT_WITH_PART_NUMBER_1 \<and>
              error_code = AWS_ERROR_S3_INTERNAL_BUFFER_SIZE_MISMATCH_RETRYING_WITH_RANGE \<and> found_object_size
      then (g\<lparr>ag_num_parts_requested := 0\<rparr>, True, None)
      else if rq_tag request = AWS_S3_AUTO_RANGE_GET_REQUEST_TYPE_GET_OBJECT_WITH_PART_NUMBER_1 \<or>
              rq_tag request = AWS_S3_AUTO_RANGE_GET_REQUEST_TYPE_GET_OBJECT_WITH_RANGE
      then
        if empty_file_error then (g\<lparr>ag_num_parts_requested := 0, ag_object_range_known := False\<rparr>, True, None)
        else
          let g = g\<lparr>ag_num_parts_completed := ag_num_parts_completed g + 1\<rparr> in
          if error_code = AWS_ERROR_SUCCESS
          then let (g, write_job) = part_succeeded E g request in (g, False, write_job)
          else (g\<lparr>ag_num_parts_failed := ag_num_parts_failed g + 1\<rparr>, True, None)
      else (g, True, None))"

definition fail_request :: "auto_ranged_get \<Rightarrow> aws_s3_request \<Rightarrow> aws_error \<Rightarrow> auto_ranged_get" where
  "fail_request g request error_code =
     (if error_code \<noteq> AWS_ERROR_SUCCESS
      then
        let error_code =
              (if error_code = AWS_ERROR_S3_INVALID_RESPONSE_STATUS \<and> rq_response_status request = 412 \<and>
                  \<not> ag_initial_message_has_if_match_header g
               then AWS_ERROR_S3_OBJECT_MODIFIED else error_code);
            m = aws_s3_meta_request_set_fail_synced (ag_base g) (Some request) error_code
        in g\<lparr>ag_base :=
             (if error_code = AWS_ERROR_S3_RESPONSE_CHECKSUM_MISMATCH
              then m\<lparr>finish_result := (finish_result m)
                       \<lparr>res_did_validate := True, res_validation_algorithm := rq_validation_algorithm request\<rparr>\<rparr>
              else m)\<rparr>
      else g)"

text \<open>
  The completion of a request with the code \<open>error_code\<close>. The result has the state, the request and
  what happened outside the download: a body handed to a write worker, the size the buffer pool is
  told of, the headers the user was called with.
\<close>

record get_finished =
  gf_get :: auto_ranged_get
  gf_request :: aws_s3_request
  gf_write_job :: "aws_s3_request option"
  gf_special_size :: "usize option"
  gf_headers :: "(headers \<times> nat) option"

definition s_s3_auto_ranged_get_request_finished ::
    "get_env \<Rightarrow> auto_ranged_get \<Rightarrow> aws_s3_request \<Rightarrow> aws_error \<Rightarrow> get_finished option" where
  "s_s3_auto_ranged_get_request_finished E g request error_code =
     (case (if rq_discovers_object_size request then discovery_finished E g request error_code
            else Some (not_found error_code, g, request)) of
        None \<Rightarrow> None
      | Some (fd, g, request) \<Rightarrow>
          (case (if fd_found fd
                 then record_discovery E g request fd
                        (error_code = AWS_ERROR_S3_INTERNAL_BUFFER_SIZE_MISMATCH_RETRYING_WITH_RANGE)
                 else Some (fd_error_code fd, g)) of
             None \<Rightarrow> None
           | Some (e, g) \<Rightarrow>
               let (g, finishing_metrics, write_job) =
                     count_request E g request error_code (fd_found fd) (dc_empty_file_error (fd_discovery fd));
                   g = fail_request g request e;
                   (request, g) =
                     (if finishing_metrics
                      then let (request, m) = aws_s3_request_finish_up_metrics_synced request (ag_base g)
                           in (request, g\<lparr>ag_base := m\<rparr>)
                      else (request, g));
                   g = (if rq_discovers_object_size request \<and> ag_object_range_known g then s_init_spread_synced g else g)
               in Some \<lparr>gf_get = g, gf_request = request, gf_write_job = write_job,
                        gf_special_size = fd_special_size fd, gf_headers = fd_headers fd\<rparr>))"

end
