(* ===== verification/S3_Spread.thy ===== *)
theory S3_Spread
  imports S3_Auto_Ranged_Get
begin

section \<open>The order in which a download asks for its parts\<close>

text \<open>
  The block-cyclic spread of \<^verbatim>\<open>source/s3_auto_ranged_get.c\<close>: \<open>P\<close> parts are cut into \<open>K\<close> regions of
  \<open>q = P div K\<close> parts, the first \<open>l = P mod K\<close> of them with one part more, and the handout rotates over
  the regions. The reference is \<open>spread_offset\<close>, the position of the part handed out as number \<open>i\<close>.
\<close>

subsection \<open>Regions\<close>

definition region_start :: "nat \<Rightarrow> nat \<Rightarrow> nat \<Rightarrow> nat" where
  "region_start q l r = r * q + min r l"

definition spread_offset :: "nat \<Rightarrow> nat \<Rightarrow> nat \<Rightarrow> nat" where
  "spread_offset P K i = region_start (P div K) (P mod K) (i mod K) + i div K"

lemma region_start_mono: "r \<le> r' \<Longrightarrow> region_start q l r \<le> region_start q l r'"
  unfolding region_start_def by (intro add_mono mult_le_mono1 min.mono) simp_all

lemma region_end: "0 < K \<Longrightarrow> region_start (P div K) (P mod K) K = P"
  by (simp add: region_start_def min_absorb2 less_imp_le)

lemma step_in_region:
  assumes "0 < K" "i < P"
  shows "spread_offset P K i < region_start (P div K) (P mod K) (Suc (i mod K))"
proof -
  let ?q = "P div K" and ?l = "P mod K" and ?r = "i mod K" and ?s = "i div K"
  have "?s \<le> ?q" using assms by (simp add: div_le_mono)
  moreover have "?r < ?l" if "?s = ?q"
    using assms(2) that div_mult_mod_eq [of i K] div_mult_mod_eq [of P K] by (metis add_less_cancel_left)
  ultimately have "?s < ?q + (if ?r < ?l then 1 else 0)" by (cases "?s = ?q") auto
  then show ?thesis by (auto simp: spread_offset_def region_start_def split: if_splits)
qed

lemma spread_offset_less:
  assumes "0 < K" "i < P"
  shows "spread_offset P K i < P"
proof -
  have "Suc (i mod K) \<le> K" using assms(1) by (simp add: Suc_leI)
  then have "region_start (P div K) (P mod K) (Suc (i mod K)) \<le> P"
    using region_start_mono region_end [OF assms(1)] by metis
  then show ?thesis using step_in_region [OF assms] by linarith
qed

lemma spread_offset_less_region:
  assumes "0 < K" "i < P" "i mod K < j mod K"
  shows "spread_offset P K i < spread_offset P K j"
proof -
  have "region_start (P div K) (P mod K) (Suc (i mod K)) \<le> region_start (P div K) (P mod K) (j mod K)"
    by (rule region_start_mono) (use assms(3) in simp)
  then show ?thesis using step_in_region [OF assms(1,2)] by (simp add: spread_offset_def [of P K j])
qed

lemma spread_offset_inj:
  assumes "0 < K"
  shows "inj_on (spread_offset P K) {..<P}"
proof (rule inj_onI)
  fix i j assume ij: "i \<in> {..<P}" "j \<in> {..<P}" "spread_offset P K i = spread_offset P K j"
  have r: "i mod K = j mod K"
    using spread_offset_less_region [OF assms, of i P j] spread_offset_less_region [OF assms, of j P i] ij
    by (cases "i mod K" "j mod K" rule: linorder_cases) auto
  then have "i div K = j div K" using ij(3) by (simp add: spread_offset_def)
  then show "i = j" using r by (metis div_mult_mod_eq)
qed

lemma spread_offset_perm: "0 < K \<Longrightarrow> spread_offset P K ` {..<P} = {..<P}"
  by (rule endo_inj_surj) (auto simp: spread_offset_inj spread_offset_less)

subsection \<open>The part numbers handed out\<close>

text \<open>
  What the fields of the spread mean: the parts \<open>first..total\<close> are spread, those before \<open>first\<close> were
  asked for before.
\<close>

definition spread_parts :: "auto_ranged_get \<Rightarrow> nat" where
  "spread_parts g = Suc (unat (ag_total_num_parts g)) - unat (ag_spread_first_part g)"

definition spread_ok :: "auto_ranged_get \<Rightarrow> bool" where
  "spread_ok g \<longleftrightarrow> ag_spread_num_regions g < 2 \<or>
     0 < ag_spread_first_part g \<and> ag_spread_first_part g \<le> ag_total_num_parts g \<and>
     unat (ag_spread_first_part g) + unat (ag_spread_parts_handed_out g) = Suc (unat (ag_num_parts_requested g)) \<and>
     unat (ag_spread_region_size g) = spread_parts g div unat (ag_spread_num_regions g) \<and>
     unat (ag_spread_num_large_regions g) = spread_parts g mod unat (ag_spread_num_regions g)"

definition handed_out :: "auto_ranged_get \<Rightarrow> nat set" where
  "handed_out g =
     (if ag_spread_num_regions g < 2 then {1..unat (ag_num_parts_requested g)}
      else {1..<unat (ag_spread_first_part g)} \<union>
        (\<lambda>i. unat (ag_spread_first_part g) + spread_offset (spread_parts g) (unat (ag_spread_num_regions g)) i)
          ` {..<unat (ag_spread_parts_handed_out g)})"

lemma next_part_value:
  assumes "spread_ok g" "ag_num_parts_requested g < ag_total_num_parts g" "\<not> ag_spread_num_regions g < 2"
  shows "unat (fst (s_next_part_number_synced g)) =
    unat (ag_spread_first_part g) +
      spread_offset (spread_parts g) (unat (ag_spread_num_regions g)) (unat (ag_spread_parts_handed_out g))"
proof -
  let ?K = "ag_spread_num_regions g" and ?i = "ag_spread_parts_handed_out g" and ?f = "ag_spread_first_part g"
    and ?q = "ag_spread_region_size g" and ?l = "ag_spread_num_large_regions g"
  let ?o = "spread_offset (spread_parts g) (unat ?K) (unat ?i)"
  have K: "2 \<le> unat ?K" using assms(3) by (simp add: word_less_nat_alt)
  have ok: "?f \<le> ag_total_num_parts g" "unat ?f + unat ?i = Suc (unat (ag_num_parts_requested g))"
    "unat ?q = spread_parts g div unat ?K" "unat ?l = spread_parts g mod unat ?K"
    using assms by (auto simp: spread_ok_def)
  have "unat ?i < spread_parts g"
    using ok(1,2) assms(2) by (simp add: spread_parts_def word_le_nat_alt word_less_nat_alt)
  then have "?o < spread_parts g" using K by (intro spread_offset_less) auto
  then have bound: "unat ?f + ?o < 2 ^ 32"
    using ok(1) unat_lt2p32 [of "ag_total_num_parts g"] by (simp add: spread_parts_def word_le_nat_alt)
  have r: "unat (?i mod ?K) = unat ?i mod unat ?K" "unat (?i div ?K) = unat ?i div unat ?K"
    by (simp_all add: unat_mod unat_div)
  have o: "?o = unat (?i mod ?K) * unat ?q + min (unat (?i mod ?K)) (unat ?l) + unat (?i div ?K)"
    by (simp add: spread_offset_def region_start_def ok(3,4) r)
  have "fst (s_next_part_number_synced g) = of_nat (unat ?f + ?o)"
  proof (cases "?i mod ?K < ?l")
    case True
    then have m: "min (unat (?i mod ?K)) (unat ?l) = unat (?i mod ?K)" by (simp add: word_less_nat_alt)
    show ?thesis using assms(3) True unfolding o m
      by (simp add: s_next_part_number_synced_def Let_def algebra_simps)
  next
    case False
    then have m: "min (unat (?i mod ?K)) (unat ?l) = unat ?l" by (simp add: word_less_nat_alt)
    show ?thesis using assms(3) False unfolding o m
      by (simp add: s_next_part_number_synced_def Let_def algebra_simps)
  qed
  then show ?thesis using bound by (simp only: unat_of_nat) simp
qed

lemma send_part_fields:
  "rq_part_number (fst (send_part g)) = fst (s_next_part_number_synced g)"
  "rq_tag (fst (send_part g)) = AWS_S3_AUTO_RANGE_GET_REQUEST_TYPE_GET_OBJECT_WITH_RANGE"
  "\<not> rq_discovers_object_size (fst (send_part g))"
  "snd (send_part g) = g\<lparr>ag_num_parts_requested := ag_num_parts_requested g + 1,
     ag_spread_parts_handed_out := (if ag_spread_num_regions g < 2 then ag_spread_parts_handed_out g
                                    else ag_spread_parts_handed_out g + 1)\<rparr>"
  by (simp_all add: send_part_def s_next_part_number_synced_def get_request_new_def aws_s3_request_new_def Let_def
      case_prod_beta)

lemma send_part_range:
  "(rq_part_range_start (fst (send_part g)), rq_part_range_end (fst (send_part g))) =
     aws_s3_calculate_auto_ranged_get_part_range (ag_object_range_start g) (ag_object_range_end g)
       (mr_part_size (ag_base g)) (ag_first_part_size g) (rq_part_number (fst (send_part g)))"
  by (simp add: send_part_def s_next_part_number_synced_def get_request_new_def aws_s3_request_new_def Let_def
      case_prod_beta)

text \<open>Asking for one more part hands out a part that was not handed out before.\<close>

lemma send_part_step:
  assumes "spread_ok g" "ag_num_parts_requested g < ag_total_num_parts g"
    and "g' = snd (send_part g)" and "n = unat (rq_part_number (fst (send_part g)))"
  shows "spread_ok g'" "handed_out g' = insert n (handed_out g)" "n \<notin> handed_out g"
    "1 \<le> n" "n \<le> unat (ag_total_num_parts g)"
proof -
  have inc: "unat (ag_num_parts_requested g + 1) = Suc (unat (ag_num_parts_requested g))"
    using unat_inc_nowrap [OF assms(2)] by simp
  note sp = send_part_fields [of g]
  have "spread_ok g' \<and> handed_out g' = insert n (handed_out g) \<and> n \<notin> handed_out g \<and> 1 \<le> n \<and> n \<le> unat (ag_total_num_parts g)"
  proof (cases "ag_spread_num_regions g < 2")
    case True
    then have n: "n = Suc (unat (ag_num_parts_requested g))"
      using inc by (simp add: assms(4) sp(1) s_next_part_number_synced_def)
    then show ?thesis using True assms(2) inc
      by (auto simp: assms(3) sp(4) spread_ok_def handed_out_def word_less_nat_alt)
  next
    case False
    let ?K = "unat (ag_spread_num_regions g)" and ?i = "unat (ag_spread_parts_handed_out g)"
      and ?f = "unat (ag_spread_first_part g)"
    have K: "0 < ?K" using False by (simp add: word_less_nat_alt)
    have ok: "0 < ?f" "?f \<le> unat (ag_total_num_parts g)" "?f + ?i = Suc (unat (ag_num_parts_requested g))"
      using assms(1) False by (auto simp: spread_ok_def word_le_nat_alt word_less_nat_alt)
    have i: "?i < spread_parts g"
      using ok assms(2) by (simp add: spread_parts_def word_less_nat_alt)
    have i1: "unat (ag_spread_parts_handed_out g + 1) = Suc ?i"
      using ok assms(2) unat_lt2p32 [of "ag_total_num_parts g"] by (subst unat_add_nowrap) (auto simp: word_less_nat_alt)
    have n: "n = ?f + spread_offset (spread_parts g) ?K ?i"
      using next_part_value [OF assms(1,2) False] by (simp add: assms(4) sp(1))
    have less: "spread_offset (spread_parts g) ?K ?i < spread_parts g"
      by (rule spread_offset_less [OF K i])
    have new: "spread_offset (spread_parts g) ?K ?i \<noteq> spread_offset (spread_parts g) ?K j" if "j < ?i" for j
      using inj_onD [OF spread_offset_inj [OF K, of "spread_parts g"], of ?i j] that i by auto
    have P: "spread_parts g' = spread_parts g" by (simp add: assms(3) sp(4) spread_parts_def)
    have "spread_ok g'"
      using assms(1) False ok i1 inc P by (auto simp: assms(3) sp(4) spread_ok_def)
    moreover have "handed_out g' = insert n (handed_out g)"
      using False n i1 P by (auto simp: assms(3) sp(4) handed_out_def lessThan_Suc)
    moreover have "n \<notin> handed_out g"
      using False n new by (auto simp: handed_out_def)
    ultimately show ?thesis using n ok(1,2) less by (auto simp: spread_parts_def)
  qed
  then show "spread_ok g'" "handed_out g' = insert n (handed_out g)" "n \<notin> handed_out g"
    "1 \<le> n" "n \<le> unat (ag_total_num_parts g)" by blast+
qed

text \<open>When as many parts are asked for as there are, they are all the parts.\<close>

lemma handed_out_all:
  assumes "spread_ok g" "ag_num_parts_requested g = ag_total_num_parts g"
  shows "handed_out g = {1..unat (ag_total_num_parts g)}"
proof (cases "ag_spread_num_regions g < 2")
  case False
  let ?f = "unat (ag_spread_first_part g)"
  have K: "0 < unat (ag_spread_num_regions g)" using False by (simp add: word_less_nat_alt)
  have ok: "0 < ?f" "?f \<le> unat (ag_total_num_parts g)" "unat (ag_spread_parts_handed_out g) = spread_parts g"
    using assms False by (auto simp: spread_ok_def spread_parts_def word_le_nat_alt word_less_nat_alt)
  have "(\<lambda>i. ?f + spread_offset (spread_parts g) (unat (ag_spread_num_regions g)) i) ` {..<spread_parts g} =
      (+) ?f ` {..<spread_parts g}"
    by (subst (2) spread_offset_perm [OF K, symmetric]) (simp add: image_image)
  also have "\<dots> = {?f..<?f + spread_parts g}" by (simp add: lessThan_atLeast0 add.commute)
  finally show ?thesis using False ok by (auto simp: handed_out_def spread_parts_def)
qed (use assms in \<open>simp add: handed_out_def\<close>)

text \<open>Setting the spread up does not change what was handed out.\<close>

lemma init_spread:
  assumes "ag_num_parts_requested g \<le> 1" "g' = s_init_spread_synced g"
  shows "spread_ok g'" "handed_out g' = {1..unat (ag_num_parts_requested g)}"
proof -
  let ?m = "ag_base g" and ?r = "ag_num_parts_requested g" and ?N = "ag_total_num_parts g"
  let ?K = "aws_s3_client_get_max_active_connections (mr_client ?m) (Some ?m)"
  let ?P = "?N - (?r + 1) + 1"
  have "spread_ok g' \<and> handed_out g' = {1..unat ?r}"
  proof (cases "cl_force_sequential_requests (mr_client ?m) \<or> \<not> mr_out_of_order_delivery ?m \<or> ?r + 1 > ?N \<or> ?K \<le> 1 \<or> ?P \<le> ?K")
    case True
    then have "ag_spread_num_regions g' = 0" "ag_num_parts_requested g' = ?r"
      by (auto simp: assms(2) s_init_spread_synced_def Let_def)
    then show ?thesis by (simp add: spread_ok_def handed_out_def)
  next
    case False
    then have le: "?r + 1 \<le> ?N" and K: "1 < ?K" by auto
    have g': "g' = g\<lparr>ag_spread_num_regions := ?K, ag_spread_region_size := ?P div ?K,
        ag_spread_num_large_regions := ?P mod ?K, ag_spread_first_part := ?r + 1, ag_spread_parts_handed_out := 0\<rparr>"
      using False by (simp add: assms(2) s_init_spread_synced_def Let_def)
    have r: "unat (?r + 1) = Suc (unat ?r)"
      using assms(1) by (subst unat_add_nowrap) (auto simp: word_le_nat_alt)
    have "unat (?N - (?r + 1)) = unat ?N - unat (?r + 1)" using le by (simp add: unat_sub_nowrap word_le_nat_alt)
    then have P: "unat ?P = spread_parts g'"
      using r le unat_lt2p32 [of ?N]
      by (subst unat_add_nowrap) (auto simp: g' spread_parts_def word_le_nat_alt)
    show ?thesis using r P K le
      by (auto simp: g' spread_ok_def handed_out_def unat_div unat_mod word_less_nat_alt word_le_nat_alt)
  qed
  then show "spread_ok g'" "handed_out g' = {1..unat ?r}" by blast+
qed

end
