(* ===== verification/S3_Get_Download.thy ===== *)
theory S3_Get_Download
  imports S3_Spread
begin

section \<open>A download from its first request to its end\<close>

text \<open>
  The steps of a download: updates that hand out requests, requests that complete in any order and
  with any response, and what happens to the meta request meanwhile (bodies delivered by the event
  delivery task or by write workers, the user cancelling, pausing or opening the window). A step is
  one call; the run of the event delivery task is one step. The invariant of the reachable states
  carries the properties. The last part shows that the event delivery task never fails an assertion.
\<close>

subsection \<open>Counting bodies on their way to the user\<close>

definition bodies :: "meta_request_event list \<Rightarrow> nat" where
  "bodies es = length (filter is_EVENT_RESPONSE_BODY es)"

lemma bodies_simps [simp]:
  "bodies [] = 0" "bodies (e # es) = (if is_EVENT_RESPONSE_BODY e then Suc (bodies es) else bodies es)"
  "bodies (es @ es') = bodies es + bodies es'" "bodies (rev es) = bodies es"
  by (simp_all add: bodies_def rev_filter [symmetric])

lemma stages_keep_count [simp]:
  "d_num_parts_delivered (check_order d r pos n) = d_num_parts_delivered d"
  "d_num_parts_delivered (add_to_sum E d body) = d_num_parts_delivered d"
  "d_num_parts_delivered (to_sink E d r pos body) = d_num_parts_delivered d"
  "d_num_parts_delivered (count_chunk d n) = d_num_parts_delivered d"
  "d_num_parts_delivered (finish_part d r k) = d_num_parts_delivered d + 1"
  by (simp_all add: check_order_def add_to_sum_def to_sink_def count_chunk_def finish_part_def Let_def
      split: option.split sum.split prod.split)

lemma increment_keeps_completed:
  "num_parts_delivery_completed (aws_s3_meta_request_increment_read_window M m n) = num_parts_delivery_completed m"
  by (simp add: aws_s3_meta_request_increment_read_window_def aws_s3_meta_request_add_event_for_delivery_synced_def Let_def)

lemma sink_keeps_completed:
  "s_deliver_body_to_sink E m body pos r = (e, m') \<Longrightarrow> num_parts_delivery_completed m' = num_parts_delivery_completed m"
  unfolding s_deliver_body_to_sink_def by (auto simp: Let_def increment_keeps_completed split: if_splits sum.splits)

lemma stages_keep_completed [simp]:
  "num_parts_delivery_completed (d_meta (check_order d r pos n)) = num_parts_delivery_completed (d_meta d)"
  "num_parts_delivery_completed (d_meta (add_to_sum E d body)) = num_parts_delivery_completed (d_meta d)"
  "num_parts_delivery_completed (d_meta (to_sink E d r pos body)) = num_parts_delivery_completed (d_meta d)"
  "num_parts_delivery_completed (d_meta (count_chunk d n)) = num_parts_delivery_completed (d_meta d)"
  "num_parts_delivery_completed (d_meta (finish_part d r k)) = num_parts_delivery_completed (d_meta d)"
  by (simp_all add: check_order_def add_to_sum_def to_sink_def count_chunk_def finish_part_def sink_keeps_completed Let_def
      split: option.split sum.split prod.split)

text \<open>A body is counted as delivered, or it waits again.\<close>

definition counted :: "nat \<Rightarrow> delivery \<Rightarrow> delivery \<Rightarrow> bool" where
  "counted n d d' \<longleftrightarrow>
     (\<exists>k. d_num_parts_delivered d' = d_num_parts_delivered d + of_nat k \<and>
          bodies (d_incomplete d') + k = bodies (d_incomplete d) + n) \<and>
     same_config (d_meta d) (d_meta d') \<and>
     num_parts_delivery_completed (d_meta d') = num_parts_delivery_completed (d_meta d)"

lemma counted_refl: "counted 0 d d"
  by (auto simp: counted_def intro: exI [of _ 0])

lemma counted_trans:
  assumes "counted n d d'" "counted n' d' d''"
  shows "counted (n + n') d d''"
proof -
  obtain k k' where "d_num_parts_delivered d' = d_num_parts_delivered d + of_nat k"
    "bodies (d_incomplete d') + k = bodies (d_incomplete d) + n"
    "d_num_parts_delivered d'' = d_num_parts_delivered d' + of_nat k'"
    "bodies (d_incomplete d'') + k' = bodies (d_incomplete d') + n'"
    using assms by (auto simp: counted_def)
  then show ?thesis using assms unfolding counted_def
    by (intro conjI exI [of _ "k + k'"]) (auto intro: same_config_trans)
qed

lemma counted_finish_part: "counted 1 d (finish_part d r n)"
  using same_config_finish_part by (auto simp: counted_def intro!: exI [of _ 1])

lemma counted_wait: "counted 1 d (d\<lparr>d_incomplete := EVENT_RESPONSE_BODY r b # d_incomplete d\<rparr>)"
  by (auto simp: counted_def intro: exI [of _ 0])

lemma counted_window: "counted 0 d (d\<lparr>d_bytes_allowed := n\<rparr>)"
  by (auto simp: counted_def intro: exI [of _ 0])

lemma counted_stages:
  "counted 0 d (check_order d r pos n)" "counted 0 d (add_to_sum E d body)" "counted 0 d (to_sink E d r pos body)"
  "counted 0 d (count_chunk d n)"
  using same_config_stages by (auto simp: counted_def intro: exI [of _ 0])

lemma counted_chunk: "counted 1 d (deliver_chunk E d r b body inc)"
proof -
  define d1 where "d1 = count_chunk (to_sink E (add_to_sum E (check_order d r (rq_part_range_start r + b) (body_len body)) body)
    r (rq_part_range_start r + b) body) (body_len body)"
  have "counted 0 d d1"
    unfolding d1_def using counted_trans [OF counted_trans [OF counted_trans [OF counted_stages(1) counted_stages(2)]
      counted_stages(3)] counted_stages(4)] by simp
  then have "counted 1 d (finish_part d1 r n)" "counted 1 d (d1\<lparr>d_incomplete := EVENT_RESPONSE_BODY r n # d_incomplete d1\<rparr>)" for n
    using counted_trans [OF _ counted_finish_part] counted_trans [OF _ counted_wait] by fastforce+
  then show ?thesis by (simp add: deliver_chunk_def Let_def d1_def)
qed

lemma deliver_event_count:
  assumes "deliver_event E d e = Some d'"
  shows "counted (bodies [e]) d d'"
proof (cases e)
  case (EVENT_RESPONSE_BODY r b)
  have w: "counted 1 d ((d\<lparr>d_bytes_allowed := n\<rparr>)\<lparr>d_incomplete := EVENT_RESPONSE_BODY r b # d_incomplete d\<rparr>)"
    "counted 1 d (deliver_chunk E (d\<lparr>d_bytes_allowed := n\<rparr>) r b body inc)" for n body inc
    using counted_trans [OF counted_window [of d n] counted_wait [of _ r b]]
      counted_trans [OF counted_window [of d n] counted_chunk [of _ E r b body inc]] by simp_all
  show ?thesis using assms w counted_finish_part counted_wait counted_chunk
    unfolding EVENT_RESPONSE_BODY
    by (auto simp: deliver_response_body_def Let_def split: if_splits)
next
  case (EVENT_PROGRESS t l)
  then show ?thesis using assms counted_refl by (auto simp: counted_def split: if_splits intro: exI [of _ 0])
next
  case (EVENT_TELEMETRY x)
  then show ?thesis using assms counted_refl by (auto split: if_splits)
qed

lemma deliver_events_count: "deliver_events E d es = Some d' \<Longrightarrow> counted (bodies es) d d'"
proof (induction es arbitrary: d)
  case (Cons e es)
  then obtain d1 where 1: "deliver_event E d e = Some d1" "deliver_events E d1 es = Some d'" by (auto split: option.splits)
  have "counted (bodies [e] + bodies es) d d'"
    by (rule counted_trans [OF deliver_event_count [OF 1(1)] Cons.IH [OF 1(2)]])
  then show ?case by (cases "is_EVENT_RESPONSE_BODY e") simp_all
qed (simp add: counted_refl)


text \<open>The whole task: the bodies that are no longer queued are counted as completed.\<close>

lemma task_count:
  assumes "s_s3_meta_request_event_delivery_task E m = Some (m', sunk)"
  obtains k where "num_parts_delivery_completed m' = num_parts_delivery_completed m + of_nat k"
    "bodies (event_delivery_array m') + k = bodies (event_delivery_array m)"
    "same_config (m\<lparr>io_event_delivery_array := []\<rparr>) m'" "\<not> event_delivery_active m'"
proof -
  obtain d d' where d: "event_delivery_begin m = Some d" "deliver_events E d (io_event_delivery_array (d_meta d)) = Some d'"
    "event_delivery_end E d' = Some m'"
    using assms by (auto simp: s_s3_meta_request_event_delivery_task_def split: option.splits)
  have m: "d_meta d = m\<lparr>io_event_delivery_array := event_delivery_array m, event_delivery_array := [],
        event_delivery_active := True, event_delivery_task_scheduled := False\<rparr>"
      "d_num_parts_delivered d = 0" "d_incomplete d = []"
    using d(1) by (auto simp: event_delivery_begin_def Let_def split: if_splits)
  obtain k where k: "d_num_parts_delivered d' = of_nat k" "bodies (d_incomplete d') + k = bodies (event_delivery_array m)"
    and c: "same_config (d_meta d) (d_meta d')"
      "num_parts_delivery_completed (d_meta d') = num_parts_delivery_completed m"
    using deliver_events_count [OF d(2)] by (auto simp: counted_def m)
  have a: "event_delivery_array (d_meta d') = []" using deliver_events_keeps_array [OF d(2)] m(1) by simp
  have "d_incomplete d' \<noteq> [] \<longrightarrow> d_bytes_allowed d' = 0"
    using d(3) by (auto simp: event_delivery_end_def Let_def split: if_splits)
  then obtain m'' where "event_delivery_end E d' = Some m''"
    "same_config ((d_meta d')\<lparr>io_event_delivery_array := []\<rparr>) m''"
    "event_delivery_array m'' = rev (d_incomplete d') @ event_delivery_array (d_meta d')" "\<not> event_delivery_active m''"
    "num_parts_delivery_completed m'' = num_parts_delivery_completed (d_meta d') + d_num_parts_delivered d'"
    using event_delivery_end_ok [of d' E] by metis
  then show thesis using that [of k] d(3) k c a unfolding m by (simp add: same_config_def)
qed

subsection \<open>What happens to the meta request beside its requests\<close>

text \<open>\<open>ws\<close> are the bodies handed to write workers and not written yet.\<close>

inductive base_step ::
    "sink_env \<Rightarrow> meta_request \<times> aws_s3_request list \<Rightarrow> meta_request \<times> aws_s3_request list \<Rightarrow> bool" for E where
  base_cancel: "base_step E (m, ws) (fst (aws_s3_meta_request_cancel m), ws)"
| base_pause: "aws_s3_meta_request_pause_async True m = Inr (m', rest) \<Longrightarrow> base_step E (m, ws) (m', ws)"
| base_window: "base_step E (m, ws) (aws_s3_meta_request_increment_read_window (env_math E) m n, ws)"
| base_deliver: "s_s3_meta_request_event_delivery_task E m = Some (m', sunk) \<Longrightarrow> base_step E (m, ws) (m', ws)"
| base_write: "r \<in> set ws \<Longrightarrow> s_s3_body_write_task E run_ready m r = Some m' \<Longrightarrow>
    base_step E (m, ws) (m', remove1 r ws)"

text \<open>
  Every body sent for delivery is delivered, queued or with a worker; those sent and those waiting for
  an earlier part are at most the \<open>s\<close> parts that succeeded.
\<close>

definition flow_ok :: "nat \<Rightarrow> meta_request \<times> aws_s3_request list \<Rightarrow> bool" where
  "flow_ok s = (\<lambda>(m, ws).
     unat (num_parts_delivery_completed m) + bodies (event_delivery_array m) + length ws = unat (num_parts_delivery_sent m) \<and>
     unat (num_parts_delivery_sent m) + length (pending_body_streaming_requests m) \<le> s \<and>
     sorted (map rq_part_number (pending_body_streaming_requests m)))"

definition same_mask :: "meta_request \<Rightarrow> meta_request \<Rightarrow> bool" where
  "same_mask m m' \<longleftrightarrow>
     map_option length (parts_delivered_mask m') = map_option length (parts_delivered_mask m) \<and>
     parts_delivered_mask_length m' = parts_delivered_mask_length m \<and>
     parts_delivered_mask_num_parts m' = parts_delivered_mask_num_parts m"

definition same_parts :: "meta_request \<Rightarrow> meta_request \<Rightarrow> bool" where
  "same_parts m m' \<longleftrightarrow>
     mr_part_size m' = mr_part_size m \<and> pending_body_streaming_requests m' = pending_body_streaming_requests m \<and>
     num_parts_delivery_sent m' = num_parts_delivery_sent m \<and> mr_state m' = mr_state m \<and>
     mr_out_of_order_delivery m' = mr_out_of_order_delivery m \<and> same_mask m m' \<and>
     (finish_result_set m \<longrightarrow> finish_result_set m')"

lemma same_parts_config: "same_config m m' \<Longrightarrow> same_parts m m'"
  by (simp add: same_config_def same_parts_def same_mask_def)

lemma same_parts_trans: "same_parts m m' \<Longrightarrow> same_parts m' m'' \<Longrightarrow> same_parts m m''"
  by (simp add: same_parts_def same_mask_def)

lemma flow_ok_same:
  "flow_ok s (m, ws) \<Longrightarrow> same_parts m m' \<Longrightarrow> bodies (event_delivery_array m') = bodies (event_delivery_array m) \<Longrightarrow>
   num_parts_delivery_completed m' = num_parts_delivery_completed m \<Longrightarrow> flow_ok s (m', ws)"
  by (simp add: flow_ok_def same_parts_def)

lemma add_event_keeps:
  "same_parts m (aws_s3_meta_request_add_event_for_delivery_synced m e)"
  "num_parts_delivery_completed (aws_s3_meta_request_add_event_for_delivery_synced m e) = num_parts_delivery_completed m"
  "bodies (event_delivery_array (aws_s3_meta_request_add_event_for_delivery_synced m e)) =
     bodies (event_delivery_array m) + (case e of None \<Rightarrow> 0 | Some ev \<Rightarrow> bodies [ev])"
  by (cases e; simp add: aws_s3_meta_request_add_event_for_delivery_synced_def same_parts_def same_mask_def Let_def)+

lemma finish_up_metrics_keeps:
  assumes "aws_s3_request_finish_up_metrics_synced r m = (r', m')"
  shows "same_parts m m'" "num_parts_delivery_completed m' = num_parts_delivery_completed m"
    "bodies (event_delivery_array m') = bodies (event_delivery_array m)"
    "rq_discovers_object_size r' = rq_discovers_object_size r"
proof -
  have "m' = m \<or> m' = aws_s3_meta_request_add_event_for_delivery_synced m (Some (EVENT_TELEMETRY True))"
    "r' = r \<or> r' = r\<lparr>rq_metrics := False\<rparr>"
    using assms by (auto simp: aws_s3_request_finish_up_metrics_synced_def split: if_splits)
  then show "same_parts m m'" "num_parts_delivery_completed m' = num_parts_delivery_completed m"
    "bodies (event_delivery_array m') = bodies (event_delivery_array m)"
    "rq_discovers_object_size r' = rq_discovers_object_size r"
    using add_event_keeps [of m "Some (EVENT_TELEMETRY True)"] by (auto simp: same_parts_def same_mask_def)
qed

lemma cancel_keeps:
  assumes "m' = fst (aws_s3_meta_request_cancel m)"
  shows "same_parts m m'" "event_delivery_array m' = event_delivery_array m"
    "num_parts_delivery_completed m' = num_parts_delivery_completed m"
  using set_fail_keeps [of m None AWS_ERROR_S3_CANCELED]
  by (simp_all add: assms aws_s3_meta_request_cancel_def aws_s3_meta_request_cancel_cancellable_requests_synced_def
      same_parts_def same_mask_def same_config_def same_stream_def Let_def)

lemma pause_keeps:
  assumes "aws_s3_meta_request_pause_async True m = Inr (m', rest)"
  shows "same_parts m m'" "event_delivery_array m' = event_delivery_array m"
    "num_parts_delivery_completed m' = num_parts_delivery_completed m" "same_config m m'"
proof -
  let ?f = "aws_s3_meta_request_set_fail_synced (m\<lparr>async_pause_requested := True\<rparr>) None AWS_ERROR_S3_PAUSED"
  have m': "m' = (if async_pause_requested m then m else ?f\<lparr>cancellable_http_streams := []\<rparr>)"
    using assms unfolding aws_s3_meta_request_pause_async_def aws_s3_meta_request_cancel_cancellable_requests_synced_def
      Let_def by (cases "async_pause_requested m") (simp_all only: if_True if_False not_True_eq_False prod.case sum.inject prod.inject)
  show "same_parts m m'" "event_delivery_array m' = event_delivery_array m"
    "num_parts_delivery_completed m' = num_parts_delivery_completed m" "same_config m m'"
    using set_fail_keeps [of "m\<lparr>async_pause_requested := True\<rparr>" None AWS_ERROR_S3_PAUSED]
    by (simp_all add: m' same_parts_def same_mask_def same_config_def same_stream_def)
qed

lemma body_write_keeps:
  assumes "s_s3_body_write_task E run_ready m r = Some m'"
  shows "same_parts m m'" "num_parts_delivery_completed m' = num_parts_delivery_completed m + 1"
    "bodies (event_delivery_array m') = bodies (event_delivery_array m)" "same_config m m'"
    "event_delivery_array m' = event_delivery_array m @ (if rq_metrics r \<and> mr_has_telemetry_callback m then [EVENT_TELEMETRY True] else [])"
proof -
  define e where "e = (if run_ready
    then case s_s3_recv_file_offset (env_math E) m (rq_part_range_start r) of
        Inl e \<Rightarrow> e | Inr file_offset \<Rightarrow> file_write E file_offset (rq_response_body r)
    else AWS_ERROR_S3_CANCELED)"
  define m1 where "m1 = (if run_ready \<and> e = AWS_ERROR_SUCCESS \<and> cl_enable_read_backpressure (mr_client m)
    then aws_s3_meta_request_increment_read_window (env_math E) m (body_len (rq_response_body r)) else m)"
  define m2 where "m2 = m1\<lparr>num_parts_delivery_completed := num_parts_delivery_completed m1 + 1\<rparr>"
  obtain e3 m3 where 3: "s_mark_part_delivered m2 (rq_part_number r) = (e3, m3)" by fastforce
  define m4 where "m4 = (if e3 \<noteq> AWS_ERROR_SUCCESS then aws_s3_meta_request_set_fail_synced m3 None e3 else m3)"
  obtain e5 m5 where 5: "s_s3_meta_request_record_delivered_part_synced E m4
    \<lparr>dt_part_number = rq_part_number r, dt_range_start = rq_part_range_start r,
     dt_range_end = rq_part_range_end r, dt_bytes = body_len (rq_response_body r)\<rparr> = (e5, m5)" by fastforce
  define m6 where "m6 = (if e = AWS_ERROR_SUCCESS
    then if e5 \<noteq> AWS_ERROR_SUCCESS then aws_s3_meta_request_set_fail_synced m5 None e5 else m5
    else aws_s3_meta_request_set_fail_synced m2 None e)"
  define m7 where "m7 = (if rq_metrics r \<and> mr_has_telemetry_callback m6
    then aws_s3_meta_request_add_event_for_delivery_synced m6 (Some (EVENT_TELEMETRY (rq_metrics r))) else m6)"
  define keeps where "keeps = (\<lambda>a b. same_config a b \<and> same_stream a b)"
  have k1: "same_config m m1" "event_delivery_array m1 = event_delivery_array m"
    "num_parts_delivery_completed m1 = num_parts_delivery_completed m"
    by (simp_all add: m1_def same_config_increment increment_keeps_completed)
  have tr: "keeps a c" if "keeps a b" "keeps b c" for a b c
    using that same_config_trans same_stream_trans unfolding keeps_def by blast
  have sf: "keeps a (aws_s3_meta_request_set_fail_synced a x y)" "keeps a a" for a x y
    using set_fail_keeps by (simp_all add: keeps_def)
  have k3: "keeps m2 m3" using mark_keeps [of m2 "rq_part_number r"] 3 by (simp add: keeps_def)
  have k4: "keeps m3 m4" using sf by (simp add: m4_def)
  have k5: "keeps m4 m5" using record_keeps [of m4 E] 5 unfolding keeps_def by (metis snd_conv)
  have k6: "keeps m2 m6" using tr [OF tr [OF k3 k4] k5] tr sf by (auto simp: m6_def)
  have k7: "same_parts m6 m7 \<and> num_parts_delivery_completed m7 = num_parts_delivery_completed m6 \<and>
      bodies (event_delivery_array m7) = bodies (event_delivery_array m6)" "same_config m6 m7"
    "event_delivery_array m7 = event_delivery_array m6 @ (if rq_metrics r \<and> mr_has_telemetry_callback m6 then [EVENT_TELEMETRY True] else [])"
    using add_event_keeps [of m6 "Some (EVENT_TELEMETRY (rq_metrics r))"] by (simp_all add: m7_def same_parts_def same_mask_def same_config_def aws_s3_meta_request_add_event_for_delivery_synced_def Let_def)
  have "m' = m7\<lparr>mr_client := (mr_client m7)\<lparr>cl_num_pending_writes := cl_num_pending_writes (mr_client m7) - 1\<rparr>\<rparr>"
    using assms unfolding s_s3_body_write_task_def Let_def e_def [symmetric] m1_def [symmetric] m2_def [symmetric] 3
      prod.case m4_def [symmetric] 5 m6_def [symmetric] m7_def [symmetric]
    by (simp only: option.inject option.distinct split: if_splits)
  then show "same_parts m m'" "num_parts_delivery_completed m' = num_parts_delivery_completed m + 1"
    "bodies (event_delivery_array m') = bodies (event_delivery_array m)" "same_config m m'"
    "event_delivery_array m' = event_delivery_array m @ (if rq_metrics r \<and> mr_has_telemetry_callback m then [EVENT_TELEMETRY True] else [])"
    using k1 k6 k7 by (simp_all add: m2_def keeps_def same_config_def same_stream_def same_parts_def same_mask_def)
qed

lemma base_step_flow:
  assumes "base_step E (m, ws) (m', ws')" "flow_ok s (m, ws)"
  shows "flow_ok s (m', ws') \<and> same_parts m m'"
  using assms(1)
proof cases
  case base_cancel
  then show ?thesis using flow_ok_same [OF assms(2)] cancel_keeps [of m' m] by simp
next
  case (base_pause rest)
  then show ?thesis using flow_ok_same [OF assms(2)] pause_keeps [OF base_pause(2)] by simp
next
  case (base_window n)
  then show ?thesis
    using flow_ok_same [OF assms(2)] same_parts_config [OF same_config_increment] increment_keeps_completed by simp
next
  case (base_deliver sunk)
  obtain k where k: "num_parts_delivery_completed m' = num_parts_delivery_completed m + of_nat k"
    "bodies (event_delivery_array m') + k = bodies (event_delivery_array m)"
    "same_config (m\<lparr>io_event_delivery_array := []\<rparr>) m'"
    using task_count [OF base_deliver(2)] by metis
  have sp: "same_parts m m'" using k(3) by (simp add: same_config_def same_parts_def same_mask_def)
  have "unat (num_parts_delivery_completed m) + k < 2 ^ 32"
    using assms(2) k(2) unat_lt2p32 [of "num_parts_delivery_sent m"] by (auto simp: flow_ok_def)
  then have "unat (num_parts_delivery_completed m') = unat (num_parts_delivery_completed m) + k"
    unfolding k(1) by (subst unat_add_nowrap) (auto simp: unat_of_nat)
  then show ?thesis using assms(2) k(2) sp base_deliver(1) by (auto simp: flow_ok_def same_parts_def)
next
  case (base_write r run_ready)
  note w = body_write_keeps [OF base_write(3)]
  have "1 \<le> length ws" using base_write(2) by (cases ws) auto
  then have "unat (num_parts_delivery_completed m) + 1 < 2 ^ 32"
    using assms(2) unat_lt2p32 [of "num_parts_delivery_sent m"] unfolding flow_ok_def by simp
  then have "unat (num_parts_delivery_completed m') = unat (num_parts_delivery_completed m) + 1"
    unfolding w(2) by (subst unat_add_nowrap) auto
  moreover have "length ws' + 1 = length ws"
    using base_write(1,2) \<open>1 \<le> length ws\<close> by (simp add: length_remove1)
  ultimately show ?thesis using assms(2) w(1,3) unfolding flow_ok_def same_parts_def by simp
qed

text \<open>The same of everything but the queue of waiting bodies and the bodies sent.\<close>

definition same_but_queue :: "meta_request \<Rightarrow> meta_request \<Rightarrow> bool" where
  "same_but_queue m m' \<longleftrightarrow>
     mr_part_size m' = mr_part_size m \<and> mr_state m' = mr_state m \<and> finish_result_set m' = finish_result_set m \<and>
     mr_out_of_order_delivery m' = mr_out_of_order_delivery m \<and> same_mask m m' \<and>
     num_parts_delivery_completed m' = num_parts_delivery_completed m"

lemma stream_ready_count:
  "stream_ready_bodies m n = (m', n') \<Longrightarrow>
   \<exists>j. n' = n + of_nat j \<and> pending_body_streaming_requests m' = drop j (pending_body_streaming_requests m) \<and>
     j \<le> length (pending_body_streaming_requests m) \<and>
     bodies (event_delivery_array m') = bodies (event_delivery_array m) + j \<and>
     num_parts_delivery_sent m' = num_parts_delivery_sent m \<and> same_but_queue m m'"
proof (induction m n arbitrary: m' n' rule: stream_ready_bodies.induct)
  case (1 m n)
  show ?case
  proof (cases "s_s3_meta_request_body_streaming_pop_next_synced m")
    case None
    then have "m' = m" "n' = n" using 1(2) by (subst (asm) stream_ready_bodies.simps, simp)+
    then show ?thesis by (intro exI [of _ 0]) (simp add: same_but_queue_def same_mask_def)
  next
    case (Some p)
    obtain m1 r where p: "p = (m1, r)" by fastforce
    define m2 where "m2 = aws_s3_meta_request_add_event_for_delivery_synced m1 (Some (EVENT_RESPONSE_BODY r 0))"
    have rec: "stream_ready_bodies m2 (n + 1) = (m', n')"
      using 1(2) Some p by (subst (asm) stream_ready_bodies.simps) (simp add: m2_def)
    have pop: "pending_body_streaming_requests m = r # pending_body_streaming_requests m1"
      "num_parts_delivery_sent m1 = num_parts_delivery_sent m" "same_but_queue m m1"
      "event_delivery_array m1 = event_delivery_array m"
      using Some p by (auto simp: s_s3_meta_request_body_streaming_pop_next_synced_def same_but_queue_def same_mask_def
          split: list.splits if_splits)
    have m2: "pending_body_streaming_requests m2 = pending_body_streaming_requests m1"
      "num_parts_delivery_sent m2 = num_parts_delivery_sent m1" "same_but_queue m1 m2"
      "bodies (event_delivery_array m2) = bodies (event_delivery_array m1) + 1"
      by (simp_all add: m2_def aws_s3_meta_request_add_event_for_delivery_synced_def same_but_queue_def same_mask_def Let_def)
    obtain j where "n' = n + 1 + of_nat j" "j \<le> length (pending_body_streaming_requests m2)"
      "pending_body_streaming_requests m' = drop j (pending_body_streaming_requests m2)"
      "bodies (event_delivery_array m') = bodies (event_delivery_array m2) + j"
      "num_parts_delivery_sent m' = num_parts_delivery_sent m2" "same_but_queue m2 m'"
      using 1(1) [OF Some p [symmetric], folded m2_def, OF rec] by blast
    then show ?thesis using pop m2 by (intro exI [of _ "Suc j"]) (simp add: same_but_queue_def same_mask_def)
  qed
qed

lemma stream_body_flow:
  assumes "queue_ok rq_part_number (push_request E)" "flow_ok s (m, ws)" "Suc s < 2 ^ 32"
    and "aws_s3_meta_request_stream_response_body_synced E m r = (m', job)"
  shows "flow_ok (Suc s) (m', ws @ (case job of None \<Rightarrow> [] | Some b \<Rightarrow> [b])) \<and> same_but_queue m m'"
proof (cases "mr_out_of_order_delivery m")
  case True
  have "unat (num_parts_delivery_sent m) + 1 < 2 ^ 32" using assms(2,3) by (simp add: flow_ok_def)
  then have "unat (num_parts_delivery_sent m + 1) = Suc (unat (num_parts_delivery_sent m))"
    by (subst unat_add_nowrap) auto
  then show ?thesis using assms(2,4) True
    by (auto simp: aws_s3_meta_request_stream_response_body_synced_def aws_s3_meta_request_add_event_for_delivery_synced_def
        flow_ok_def same_but_queue_def same_mask_def Let_def split: if_splits)
next
  case False
  obtain q where q: "push_request E r (pending_body_streaming_requests m) = Inr q"
    "mset q = add_mset r (mset (pending_body_streaming_requests m))" "sorted (map rq_part_number q)"
    using assms(1,2) by (auto simp: queue_ok_def flow_ok_def)
  have len: "length q = Suc (length (pending_body_streaming_requests m))"
    using arg_cong [OF q(2), of "size :: _ multiset \<Rightarrow> nat"] by simp
  define c where "c = mr_client m"
  define m1 where "m1 = m\<lparr>pending_body_streaming_requests := q,
    mr_client := c\<lparr>cl_num_requests_stream_queued_waiting := cl_num_requests_stream_queued_waiting c + 1\<rparr>\<rparr>"
  obtain m2 n where 2: "stream_ready_bodies m1 0 = (m2, n)" by fastforce
  obtain j where j: "n = of_nat j" "pending_body_streaming_requests m2 = drop j q" "j \<le> length q"
    "bodies (event_delivery_array m2) = bodies (event_delivery_array m) + j"
    "num_parts_delivery_sent m2 = num_parts_delivery_sent m" "same_but_queue m m2"
    using stream_ready_count [OF 2] by (auto simp: m1_def same_but_queue_def same_mask_def)
  have bound: "unat (num_parts_delivery_sent m) + j < 2 ^ 32" "unat (num_parts_delivery_sent m) + length q \<le> Suc s"
    using assms(2,3) len j(3) by (auto simp: flow_ok_def)
  then have n: "unat n = j" by (simp add: j(1) unat_of_nat)
  then have sent: "unat (num_parts_delivery_sent m + n) = unat (num_parts_delivery_sent m) + j"
    using bound(1) by (subst unat_add_nowrap) auto
  have eq: "aws_s3_meta_request_stream_response_body_synced E m r =
    (if n = 0 then (m2, None) else
       (m2\<lparr>mr_client := (mr_client m2)\<lparr>cl_num_requests_streaming_response := cl_num_requests_streaming_response (mr_client m2) + ucast n,
                          cl_num_requests_stream_queued_waiting := cl_num_requests_stream_queued_waiting (mr_client m2) - ucast n\<rparr>,
           num_parts_delivery_sent := num_parts_delivery_sent m2 + n\<rparr>, None))"
    using False q(1) 2 by (simp add: aws_s3_meta_request_stream_response_body_synced_def
        s_s3_meta_request_body_streaming_push_synced_def Let_def m1_def c_def)
  have sd: "sorted (map rq_part_number (drop j q))" using q(3) by (simp add: drop_map [symmetric] sorted_wrt_drop)
  show ?thesis
  proof (cases "n = 0")
    case True
    then show ?thesis using assms(2,4) eq j bound n sd by (auto simp: flow_ok_def same_but_queue_def same_mask_def)
  next
    case nz: False
    have m': "pending_body_streaming_requests m' = drop j q" "event_delivery_array m' = event_delivery_array m2"
      "num_parts_delivery_sent m' = num_parts_delivery_sent m + n" "same_but_queue m m'" "job = None"
      using assms(4) eq nz j by (auto simp: same_but_queue_def same_mask_def)
    then show ?thesis using assms(2) j bound sent sd unfolding flow_ok_def same_but_queue_def by simp
  qed
qed

subsection \<open>The events of a meta request\<close>

text \<open>
  Everything that queues events or changes what their delivery reads, as a transition system: the steps above, a body
  to be streamed, the metrics of a request that is done, a progress event and a failure. The initial states are those of
  a new meta request, which has no events and no bodies. A response body is in memory, so it has fewer than \<open>2^63\<close> bytes.
\<close>

inductive event_step ::
    "sink_env \<Rightarrow> meta_request \<times> aws_s3_request list \<Rightarrow> meta_request \<times> aws_s3_request list \<Rightarrow> bool" for E where
  event_base: "base_step E s s' \<Longrightarrow> event_step E s s'"
| event_body: "length (rq_response_body r) < 2 ^ 63 \<Longrightarrow>
    aws_s3_meta_request_stream_response_body_synced E m r = (m', job) \<Longrightarrow>
    event_step E (m, ws) (m', ws @ (case job of None \<Rightarrow> [] | Some b \<Rightarrow> [b]))"
| event_metrics: "aws_s3_request_finish_up_metrics_synced r m = (r', m') \<Longrightarrow> event_step E (m, ws) (m', ws)"
| event_progress: "event_step E (m, ws)
    (aws_s3_meta_request_add_event_for_delivery_synced m (Some (EVENT_PROGRESS transferred content_length)), ws)"
| event_failure: "event_step E (m, ws) (aws_s3_meta_request_set_fail_synced m r e, ws)"

definition events_initial :: "meta_request \<times> aws_s3_request list \<Rightarrow> bool" where
  "events_initial = (\<lambda>(m, ws). event_delivery_array m = [] \<and> io_event_delivery_array m = [] \<and>
     pending_body_streaming_requests m = [] \<and> ws = [])"

definition events_inv :: "meta_request \<Rightarrow> bool" where
  "events_inv m \<longleftrightarrow>
     io_event_delivery_array m = [] \<and> list_all (event_ok m) (event_delivery_array m) \<and>
     sorted (map rq_part_number (pending_body_streaming_requests m)) \<and>
     (\<forall>r \<in> set (pending_body_streaming_requests m). length (rq_response_body r) < 2 ^ 63)"

lemma same_config_events: "same_config m m' \<Longrightarrow> event_ok m' = event_ok m"
  by (intro ext event_ok_cong) (simp_all add: same_config_def)

lemma events_inv_keeps:
  assumes "events_inv m" "same_config m m'" "event_delivery_array m' = event_delivery_array m @ es" "list_all (event_ok m) es"
  shows "events_inv m'"
  using assms same_config_events [OF assms(2)] by (simp add: events_inv_def same_config_def)

lemma add_event_array [simp]:
  "event_delivery_array (aws_s3_meta_request_add_event_for_delivery_synced m e) =
     event_delivery_array m @ (case e of None \<Rightarrow> [] | Some ev \<Rightarrow> [ev])"
  by (cases e) (simp_all add: aws_s3_meta_request_add_event_for_delivery_synced_def Let_def)

text \<open>A body enters the queue with nothing delivered of it, which suits both kinds of delivery.\<close>

lemma new_body_event_ok: "length (rq_response_body r) < 2 ^ 63 \<Longrightarrow> event_ok m (EVENT_RESPONSE_BODY r 0)"
  by auto

lemma stream_ready_events:
  "events_inv m \<Longrightarrow> stream_ready_bodies m n = (m', n') \<Longrightarrow> events_inv m'"
proof (induction m n arbitrary: m' n' rule: stream_ready_bodies.induct)
  case (1 m n)
  show ?case
  proof (cases "s_s3_meta_request_body_streaming_pop_next_synced m")
    case None
    then show ?thesis using 1(2,3) by (subst (asm) stream_ready_bodies.simps) simp
  next
    case (Some p)
    obtain m1 r where p: "p = (m1, r)" by fastforce
    define m2 where "m2 = aws_s3_meta_request_add_event_for_delivery_synced m1 (Some (EVENT_RESPONSE_BODY r 0))"
    have rec: "stream_ready_bodies m2 (n + 1) = (m', n')"
      using 1(3) Some p by (subst (asm) stream_ready_bodies.simps) (simp add: m2_def)
    have m1: "m1 = m\<lparr>pending_body_streaming_requests := pending_body_streaming_requests m1, next_streaming_part := next_streaming_part m1\<rparr>"
      "pending_body_streaming_requests m = r # pending_body_streaming_requests m1"
      using Some p by (auto simp: s_s3_meta_request_body_streaming_pop_next_synced_def split: list.splits if_splits)
    have "event_ok m1 = event_ok m" by (intro ext event_ok_cong) (subst m1(1), simp)+
    moreover have "io_event_delivery_array m1 = io_event_delivery_array m" "event_delivery_array m1 = event_delivery_array m"
      by (subst m1(1), simp)+
    ultimately have "events_inv m1" "length (rq_response_body r) < 2 ^ 63"
      using 1(2) m1(2) by (simp_all add: events_inv_def)
    then have "events_inv m2"
      using events_inv_keeps [OF _ same_config_add_event, of m1 "Some (EVENT_RESPONSE_BODY r 0)"] new_body_event_ok
      by (simp add: m2_def)
    then show ?thesis using 1(1) [OF Some p [symmetric], folded m2_def] rec by blast
  qed
qed

lemma stream_body_events:
  assumes "queue_ok rq_part_number (push_request E)" "events_inv m" "length (rq_response_body r) < 2 ^ 63"
    and "aws_s3_meta_request_stream_response_body_synced E m r = (m', job)"
  shows "events_inv m'"
proof (cases "mr_out_of_order_delivery m")
  case True
  define m1 where "m1 = m\<lparr>num_parts_delivery_sent := num_parts_delivery_sent m + 1, mr_client := mr_client m'\<rparr>"
  have bp: "cl_enable_read_backpressure (mr_client m') = cl_enable_read_backpressure (mr_client m)"
    using assms(4) True by (auto simp: aws_s3_meta_request_stream_response_body_synced_def
        aws_s3_meta_request_add_event_for_delivery_synced_def Let_def split: if_splits)
  have "event_ok m1 = event_ok m" by (intro ext event_ok_cong) (simp_all add: m1_def bp)
  then have "events_inv m1" using assms(2) unfolding events_inv_def by simp (simp add: m1_def)
  moreover have "m' = m1 \<or> m' = aws_s3_meta_request_add_event_for_delivery_synced m1 (Some (EVENT_RESPONSE_BODY r 0))"
    using assms(4) True by (auto simp: aws_s3_meta_request_stream_response_body_synced_def m1_def
        aws_s3_meta_request_add_event_for_delivery_synced_def Let_def split: if_splits)
  ultimately show ?thesis
    using events_inv_keeps [OF _ same_config_add_event, of m1 "Some (EVENT_RESPONSE_BODY r 0)"] new_body_event_ok [OF assms(3)] by auto
next
  case False
  obtain q where q: "push_request E r (pending_body_streaming_requests m) = Inr q"
    "mset q = add_mset r (mset (pending_body_streaming_requests m))" "sorted (map rq_part_number q)"
    using assms(1,2) unfolding queue_ok_def events_inv_def by blast
  have set_q: "set q = insert r (set (pending_body_streaming_requests m))"
    using arg_cong [OF q(2), of set_mset] by simp
  define m1 where "m1 = m\<lparr>pending_body_streaming_requests := q, mr_client := (mr_client m)
    \<lparr>cl_num_requests_stream_queued_waiting := cl_num_requests_stream_queued_waiting (mr_client m) + 1\<rparr>\<rparr>"
  obtain m2 n where 2: "stream_ready_bodies m1 0 = (m2, n)" by fastforce
  have "event_ok m1 = event_ok m" by (intro ext event_ok_cong) (simp_all add: m1_def)
  then have "events_inv m1" using assms(2,3) q(3) unfolding events_inv_def by simp (simp add: m1_def set_q)
  then have inv2: "events_inv m2" by (rule stream_ready_events [OF _ 2])
  define m3 where "m3 = m2\<lparr>num_parts_delivery_sent := num_parts_delivery_sent m', mr_client := mr_client m'\<rparr>"
  have m': "m' = m3" "cl_enable_read_backpressure (mr_client m') = cl_enable_read_backpressure (mr_client m2)"
    using assms(4) False q(1) 2
    by (auto simp: aws_s3_meta_request_stream_response_body_synced_def m3_def
        s_s3_meta_request_body_streaming_push_synced_def Let_def m1_def split: if_splits)
  have "event_ok m3 = event_ok m2" by (intro ext event_ok_cong) (simp_all add: m3_def m'(2))
  then show ?thesis using inv2 unfolding m'(1) events_inv_def by simp (simp add: m3_def)
qed

lemma base_step_events:
  assumes "cursor_ok (cursor_advance E)" "base_step E (m, ws) (m', ws')" "events_inv m"
  shows "events_inv m'"
  using assms(2)
proof cases
  case base_cancel
  have "same_config m m'" using set_fail_keeps(1) [of m None AWS_ERROR_S3_CANCELED] base_cancel(1)
    by (simp add: aws_s3_meta_request_cancel_def aws_s3_meta_request_cancel_cancellable_requests_synced_def same_config_def Let_def)
  then show ?thesis using events_inv_keeps [OF assms(3), of m' "[]"] cancel_keeps(2) [OF base_cancel(1)] by simp
next
  case (base_pause rest)
  then show ?thesis using events_inv_keeps [OF assms(3) pause_keeps(4), of m' rest "[]"] pause_keeps(2) by simp
next
  case (base_window n)
  then show ?thesis
    using events_inv_keeps [OF assms(3) same_config_increment, of "env_math E" n "[]"] increment_keeps_completed by simp
next
  case (base_deliver sunk)
  from task_events_ok [OF assms(1), of m] assms(3) base_deliver(2)
  have "io_event_delivery_array m' = []" "list_all (event_ok m') (event_delivery_array m')" by (auto simp: events_inv_def)
  moreover have "same_config (m\<lparr>io_event_delivery_array := []\<rparr>) m'" using task_count [OF base_deliver(2)] by metis
  ultimately show ?thesis using assms(3) by (simp add: events_inv_def same_config_def)
next
  case (base_write r run_ready)
  show ?thesis
    by (rule events_inv_keeps [OF assms(3) body_write_keeps(4,5) [OF base_write(3)]]) simp
qed

lemma event_step_inv:
  assumes "cursor_ok (cursor_advance E)" "queue_ok rq_part_number (push_request E)" "event_step E s s'" "events_inv (fst s)"
  shows "events_inv (fst s')"
  using assms(3)
proof cases
  case event_base
  then show ?thesis using base_step_events [OF assms(1), of "fst s" "snd s" "fst s'" "snd s'"] assms(4) by simp
next
  case (event_body r m m' job ws)
  then show ?thesis using stream_body_events [OF assms(2)] assms(4) by simp
next
  case (event_metrics r m r' m' ws)
  then have "m' = m \<or> mr_has_telemetry_callback m \<and>
      m' = aws_s3_meta_request_add_event_for_delivery_synced m (Some (EVENT_TELEMETRY True))"
    by (auto simp: aws_s3_request_finish_up_metrics_synced_def split: if_splits)
  then show ?thesis
    using assms(4) event_metrics(1,2) events_inv_keeps [OF _ same_config_add_event, of m "Some (EVENT_TELEMETRY True)"] by auto
next
  case (event_progress m ws a b)
  then show ?thesis
    using assms(4) events_inv_keeps [OF _ same_config_add_event, of m "Some (EVENT_PROGRESS a b)"] by simp
next
  case (event_failure m ws r e)
  then show ?thesis
    using assms(4) events_inv_keeps [OF _ set_fail_keeps(1), of m r e "[]"] set_fail_keeps(2) [of m r e] by (simp add: same_stream_def)
qed

lemma events_initial_inv: "events_initial s \<Longrightarrow> events_inv (fst s)"
  by (auto simp: events_initial_def events_inv_def)

interpretation events: invariant_of events_initial "event_step E"
    "\<lambda>s. cursor_ok (cursor_advance E) \<and> queue_ok rq_part_number (push_request E) \<longrightarrow> events_inv (fst s)" for E
  by unfold_locales (blast intro: events_initial_inv event_step_inv)+

text \<open>
  C13. The event delivery task never fails an assertion: after any sequence of bodies streamed in or out of order, metrics
  and progress queued, writes, failures, cancels, pauses, changes of the window and earlier runs of the task, it finds its
  array of events empty, every telemetry event has metrics and a callback, no body without backpressure was partly
  delivered, and events wait only when the window is used up; the task runs to its end, whatever the callbacks, the file
  and the checksum return, and then no event is out for delivery on its thread. Assumed are the documented behaviour of
  the byte cursor and the priority queue, and response bodies of fewer than \<open>2^63\<close> bytes; one run of the task is one step.
\<close>

theorem event_delivery_task_runs:
  assumes "cursor_ok (cursor_advance E)" "queue_ok rq_part_number (push_request E)"
    and "reach events_initial (event_step E) (m, ws)"
  shows "\<exists>m' sunk. s_s3_meta_request_event_delivery_task E m = Some (m', sunk) \<and>
           io_event_delivery_array m' = [] \<and> \<not> event_delivery_active m'"
proof -
  have "events_inv m" using events.invariant [OF assms(3)] assms(1,2) by simp
  then show ?thesis using task_events_ok [OF assms(1), of m] by (auto simp: events_inv_def)
qed

theorem event_delivery_task_runs_witness:
  "\<exists>m' sunk. s_s3_meta_request_event_delivery_task example_env
     (aws_s3_meta_request_add_event_for_delivery_synced
        (fst (aws_s3_meta_request_stream_response_body_synced example_env example_meta_request (example_request 1 0 [10, 11])))
        (Some (EVENT_PROGRESS 2 4))) = Some (m', sunk) \<and>
     io_event_delivery_array m' = [] \<and> \<not> event_delivery_active m'"
proof -
  define s where "s = aws_s3_meta_request_stream_response_body_synced example_env example_meta_request (example_request 1 0 [10, 11])"
  let ?R = "reach events_initial (event_step example_env)"
  have "length (rq_response_body (example_request 1 0 [10, 11])) < 2 ^ 63" by (simp add: example_request_def)
  from event_body [OF this prod.collapse [symmetric]]
  have 1: "event_step example_env (example_meta_request, []) (fst s, [] @ (case snd s of None \<Rightarrow> [] | Some b \<Rightarrow> [b]))"
    unfolding s_def by blast
  have "events_initial (example_meta_request, [])" by (simp add: events_initial_def example_meta_request_def)
  then have 0: "?R (example_meta_request, [])" by (rule reach_init)
  have 2: "?R (fst s, [] @ (case snd s of None \<Rightarrow> [] | Some b \<Rightarrow> [b]))" by (rule reach_step [of _ _ "(example_meta_request, [])"]) (rule 0, rule 1)
  have "?R (aws_s3_meta_request_add_event_for_delivery_synced (fst s) (Some (EVENT_PROGRESS 2 4)),
      [] @ (case snd s of None \<Rightarrow> [] | Some b \<Rightarrow> [b]))"
    by (rule reach_step, rule 2, rule event_progress)
  then show ?thesis unfolding s_def by (rule event_delivery_task_runs [OF example_env_ok(1,2)])
qed

end
