(* ===== verification/S3_Get_Inv.thy ===== *)
theory S3_Get_Inv
  imports S3_Get_Download
begin

section \<open>Properties of a download\<close>

text \<open>
  The transition system of a download with its requests in flight, its invariant, and what follows:
  every part is asked for exactly once, nothing is in flight when the download ends, and success means
  that every part was delivered.
\<close>

subsection \<open>The transition system\<close>

text \<open>
  \<open>gw_parts\<close> records the requests for parts handed out so far, without the request that discovers the
  object. A response changes nothing of what a request asks for.
\<close>

record get_world =
  gw_get :: auto_ranged_get
  gw_in_flight :: "aws_s3_request list"
  gw_writes :: "aws_s3_request list"
  gw_parts :: "aws_s3_request list"

definition answered :: "aws_s3_request \<Rightarrow> aws_s3_request \<Rightarrow> bool" where
  "answered r r' \<longleftrightarrow>
     rq_tag r' = rq_tag r \<and> rq_part_number r' = rq_part_number r \<and>
     rq_discovers_object_size r' = rq_discovers_object_size r \<and>
     rq_part_range_start r' = rq_part_range_start r \<and> rq_part_range_end r' = rq_part_range_end r"

definition opt_list :: "'a option \<Rightarrow> 'a list" where
  "opt_list x = (case x of None \<Rightarrow> [] | Some a \<Rightarrow> [a])"

lemma opt_list_simps [simp]: "opt_list None = []" "opt_list (Some a) = [a]"
  by (simp_all add: opt_list_def)

inductive get_step :: "get_env \<Rightarrow> get_world \<Rightarrow> get_world \<Rightarrow> bool" for E where
  step_update:
    "s_s3_auto_ranged_get_update E (gw_get w) flags = Some (work, request, g, effects) \<Longrightarrow>
     get_step E w (w\<lparr>gw_get := g, gw_in_flight := gw_in_flight w @ opt_list request,
       gw_parts := gw_parts w @ filter (\<lambda>r. \<not> rq_discovers_object_size r) (opt_list request)\<rparr>)"
| step_finished:
    "r \<in> set (gw_in_flight w) \<Longrightarrow> answered r r' \<Longrightarrow>
     s_s3_auto_ranged_get_request_finished E (gw_get w) r' error_code = Some f \<Longrightarrow>
     get_step E w (w\<lparr>gw_get := gf_get f, gw_in_flight := remove1 r (gw_in_flight w),
       gw_writes := gw_writes w @ opt_list (gf_write_job f)\<rparr>)"
| step_base:
    "base_step (ge_sink E) (ag_base (gw_get w), gw_writes w) (m, ws) \<Longrightarrow>
     get_step E w (w\<lparr>gw_get := (gw_get w)\<lparr>ag_base := m\<rparr>, gw_writes := ws\<rparr>)"

text \<open>A download starts with a meta request that has sent and delivered nothing.\<close>

definition get_initial :: "get_env \<Rightarrow> get_world \<Rightarrow> bool" where
  "get_initial E w \<longleftrightarrow>
     (\<exists>base part_size_set dynamic hs hint.
        aws_s3_meta_request_auto_ranged_get_new (ge_str E) base part_size_set dynamic hs hint = Inr (gw_get w) \<and>
        num_parts_delivery_completed base = 0 \<and> num_parts_delivery_sent base = 0 \<and> event_delivery_array base = [] \<and>
        pending_body_streaming_requests base = [] \<and> \<not> finish_result_set base) \<and>
     gw_in_flight w = [] \<and> gw_writes w = [] \<and> gw_parts w = []"

subsection \<open>The invariant\<close>

abbreviation is_head :: "aws_s3_request \<Rightarrow> bool" where
  "is_head r \<equiv> rq_tag r = AWS_S3_AUTO_RANGE_GET_REQUEST_TYPE_HEAD_OBJECT"

abbreviation is_ranged :: "aws_s3_request \<Rightarrow> bool" where
  "is_ranged r \<equiv> rq_tag r = AWS_S3_AUTO_RANGE_GET_REQUEST_TYPE_GET_OBJECT_WITH_RANGE"

abbreviation is_part_1 :: "aws_s3_request \<Rightarrow> bool" where
  "is_part_1 r \<equiv> rq_tag r = AWS_S3_AUTO_RANGE_GET_REQUEST_TYPE_GET_OBJECT_WITH_PART_NUMBER_1"

text \<open>The counters agree with the requests in flight.\<close>

definition counts_ok :: "auto_ranged_get \<Rightarrow> aws_s3_request list \<Rightarrow> bool" where
  "counts_ok g rs \<longleftrightarrow>
     unat (ag_num_parts_requested g) = unat (ag_num_parts_completed g) + length (filter (\<lambda>r. \<not> is_head r) rs) \<and>
     length (filter is_head rs) = (if ag_head_object_sent g \<and> \<not> ag_head_object_completed g then 1 else 0) \<and>
     (ag_head_object_completed g \<longrightarrow> ag_head_object_sent g) \<and>
     unat (ag_num_parts_successful g) + unat (ag_num_parts_failed g) = unat (ag_num_parts_completed g)"

text \<open>Before the object is known at most the discovery request is out.\<close>

definition discovering_ok :: "auto_ranged_get \<Rightarrow> aws_s3_request list \<Rightarrow> aws_s3_request list \<Rightarrow> bool" where
  "discovering_ok g rs ps \<longleftrightarrow>
     ag_total_num_parts g = 0 \<and> ps = [] \<and> ag_num_parts_requested g \<le> 1 \<and>
     (ag_head_object_sent g \<longrightarrow> ag_num_parts_requested g = 0) \<and>
     (\<forall>r \<in> set rs. rq_discovers_object_size r \<and> (is_head r \<or> is_ranged r \<or> is_part_1 r))"

text \<open>After that, requests are for parts, each part at most once; the discovery request may have been part 1.\<close>

definition part_request_ok :: "auto_ranged_get \<Rightarrow> aws_s3_request \<Rightarrow> bool" where
  "part_request_ok g r \<longleftrightarrow>
     \<not> rq_discovers_object_size r \<and> is_ranged r \<and>
     (rq_part_range_start r, rq_part_range_end r) =
       aws_s3_calculate_auto_ranged_get_part_range (ag_object_range_start g) (ag_object_range_end g)
         (mr_part_size (ag_base g)) (ag_first_part_size g) (rq_part_number r)"

definition asked :: "aws_s3_request list \<Rightarrow> nat list" where
  "asked ps = map (\<lambda>r. unat (rq_part_number r)) ps"

definition parts_of_range :: "auto_ranged_get \<Rightarrow> bool" where
  "parts_of_range g \<longleftrightarrow>
     ag_total_num_parts g = aws_s3_calculate_auto_ranged_get_num_parts (mr_part_size (ag_base g)) (ag_first_part_size g)
       (ag_object_range_start g) (ag_object_range_end g)"

text \<open>The mask of delivered parts has a bit for each of \<open>n\<close> parts.\<close>

definition mask_for :: "u32 \<Rightarrow> meta_request \<Rightarrow> bool" where
  "mask_for n m \<longleftrightarrow>
     parts_delivered_mask_num_parts m = n \<and> parts_delivered_mask_length m = ucast ((ucast n + 7 :: usize) div 8) \<and>
     map_option length (parts_delivered_mask m) = Some (unat (parts_delivered_mask_length m))"

definition known_ok :: "auto_ranged_get \<Rightarrow> aws_s3_request list \<Rightarrow> aws_s3_request list \<Rightarrow> bool" where
  "known_ok g rs ps \<longleftrightarrow>
     set rs \<subseteq> set ps \<and> (\<forall>r \<in> set ps. part_request_ok g r) \<and> spread_ok g \<and>
     (ag_num_parts_requested g \<le> 1 \<or> ag_num_parts_requested g \<le> ag_total_num_parts g) \<and>
     (ag_total_num_parts g = 0 \<longrightarrow> ps = []) \<and> (\<not> ag_object_range_empty g \<longrightarrow> parts_of_range g) \<and> distinct (asked ps) \<and> set (asked ps) \<subseteq> {1..unat (ag_total_num_parts g)} \<and>
     (\<exists>d \<le> 1. handed_out g = {1..d} \<union> set (asked ps) \<and> set (asked ps) \<inter> {1..d} = {})"

definition get_inv :: "get_world \<Rightarrow> bool" where
  "get_inv w \<longleftrightarrow>
     (let g = gw_get w in
      counts_ok g (gw_in_flight w) \<and> flow_ok (unat (ag_num_parts_successful g)) (ag_base g, gw_writes w) \<and>
      (if ag_object_range_known g then known_ok g (gw_in_flight w) (gw_parts w)
       else discovering_ok g (gw_in_flight w) (gw_parts w)) \<and>
      (ag_object_range_known g \<and> \<not> ag_object_range_empty g \<and> \<not> finish_result_set (ag_base g) \<longrightarrow>
       mask_for (ag_total_num_parts g) (ag_base g)))"

lemma get_new_fields:
  assumes "aws_s3_meta_request_auto_ranged_get_new S base part_size_set dynamic hs hint = Inr g"
  shows "ag_num_parts_requested g = 0" "ag_num_parts_completed g = 0" "ag_num_parts_successful g = 0"
    "ag_num_parts_failed g = 0" "ag_total_num_parts g = 0" "\<not> ag_object_range_known g" "\<not> ag_head_object_sent g" "\<not> ag_head_object_completed g"
    "num_parts_delivery_completed (ag_base g) = num_parts_delivery_completed base"
    "num_parts_delivery_sent (ag_base g) = num_parts_delivery_sent base"
    "event_delivery_array (ag_base g) = event_delivery_array base"
    "pending_body_streaming_requests (ag_base g) = pending_body_streaming_requests base"
proof -
  let ?P = "if hs g_range_header_name \<noteq> None then aws_s3_parse_request_range_header S hs else Inr (False, False, 0, 0)"
  have "\<exists>x. ?P = Inr x"
    using assms unfolding aws_s3_meta_request_auto_ranged_get_new_def Let_def by (cases ?P) (simp_all only: sum.case sum.distinct, blast)
  then obtain has_start has_end range_start range_end where p: "?P = Inr (has_start, has_end, range_start, range_end)"
    by (metis prod_cases4)
  note g = assms [unfolded aws_s3_meta_request_auto_ranged_get_new_def Let_def p sum.case prod.case case_prod_beta
      sum.inject, symmetric]
  show "ag_num_parts_requested g = 0" "ag_num_parts_completed g = 0" "ag_num_parts_successful g = 0"
    "ag_num_parts_failed g = 0" "ag_total_num_parts g = 0" "\<not> ag_object_range_known g" "\<not> ag_head_object_sent g" "\<not> ag_head_object_completed g"
    "num_parts_delivery_completed (ag_base g) = num_parts_delivery_completed base"
    "num_parts_delivery_sent (ag_base g) = num_parts_delivery_sent base"
    "event_delivery_array (ag_base g) = event_delivery_array base"
    "pending_body_streaming_requests (ag_base g) = pending_body_streaming_requests base"
    by (simp_all add: g)
qed

lemma get_inv_initial:
  assumes "get_initial E w"
  shows "get_inv w"
proof -
  obtain base a b c d where new: "aws_s3_meta_request_auto_ranged_get_new (ge_str E) base a b c d = Inr (gw_get w)"
    and base: "num_parts_delivery_completed base = 0" "num_parts_delivery_sent base = 0" "event_delivery_array base = []"
      "pending_body_streaming_requests base = []"
    and w: "gw_in_flight w = []" "gw_writes w = []" "gw_parts w = []"
    using assms unfolding get_initial_def by blast
  show ?thesis using get_new_fields [OF new] base w
    by (simp add: get_inv_def counts_ok_def flow_ok_def discovering_ok_def)
qed

subsection \<open>Steps beside the requests keep the invariant\<close>

lemma spread_base [simp]:
  "spread_ok (g\<lparr>ag_base := m\<rparr>) = spread_ok g" "handed_out (g\<lparr>ag_base := m\<rparr>) = handed_out g"
  "spread_ok (g\<lparr>ag_read_window_warning_issued := b\<rparr>) = spread_ok g"
  "handed_out (g\<lparr>ag_read_window_warning_issued := b\<rparr>) = handed_out g"
  by (simp_all add: spread_ok_def handed_out_def spread_parts_def)

lemma known_ok_base:
  "mr_part_size m = mr_part_size (ag_base g) \<Longrightarrow> known_ok (g\<lparr>ag_base := m\<rparr>) rs ps = known_ok g rs ps"
  by (simp add: known_ok_def part_request_ok_def parts_of_range_def)

lemma ok_base [simp]:
  "counts_ok (g\<lparr>ag_base := m\<rparr>) rs = counts_ok g rs" "discovering_ok (g\<lparr>ag_base := m\<rparr>) rs ps = discovering_ok g rs ps"
  "counts_ok (g\<lparr>ag_read_window_warning_issued := b\<rparr>) rs = counts_ok g rs"
  "discovering_ok (g\<lparr>ag_read_window_warning_issued := b\<rparr>) rs ps = discovering_ok g rs ps"
  "known_ok (g\<lparr>ag_read_window_warning_issued := b\<rparr>) rs ps = known_ok g rs ps"
  by (simp_all add: counts_ok_def discovering_ok_def known_ok_def part_request_ok_def parts_of_range_def)

lemma mask_for_same: "same_mask m m' \<Longrightarrow> mask_for n m' = mask_for n m"
  by (simp add: same_mask_def mask_for_def)

lemma get_inv_base:
  assumes "get_inv w" "base_step (ge_sink E) (ag_base (gw_get w), gw_writes w) (m, ws)"
  shows "get_inv (w\<lparr>gw_get := (gw_get w)\<lparr>ag_base := m\<rparr>, gw_writes := ws\<rparr>)"
proof -
  have "flow_ok (unat (ag_num_parts_successful (gw_get w))) (m, ws)" "same_parts (ag_base (gw_get w)) m"
    using base_step_flow [OF assms(2)] assms(1) by (auto simp: get_inv_def Let_def)
  then show ?thesis using assms(1) by (auto simp: get_inv_def Let_def known_ok_base same_parts_def mask_for_same)
qed

subsection \<open>Updates keep the invariant\<close>

text \<open>The same of everything the flow of bodies depends on.\<close>

definition same_flow :: "meta_request \<Rightarrow> meta_request \<Rightarrow> bool" where
  "same_flow m m' \<longleftrightarrow>
     num_parts_delivery_sent m' = num_parts_delivery_sent m \<and>
     num_parts_delivery_completed m' = num_parts_delivery_completed m \<and>
     event_delivery_array m' = event_delivery_array m \<and>
     pending_body_streaming_requests m' = pending_body_streaming_requests m"

lemma same_flow_refl [simp]: "same_flow m m"
  by (simp add: same_flow_def)

lemma same_flow_trans: "same_flow m m' \<Longrightarrow> same_flow m' m'' \<Longrightarrow> same_flow m m''"
  by (simp add: same_flow_def)

lemma same_flow_ok: "same_flow m m' \<Longrightarrow> flow_ok s (m', ws) = flow_ok s (m, ws)"
  by (simp add: same_flow_def flow_ok_def)

lemma fold_keeps:
  assumes "s_s3_meta_request_fold_combine_slots H m = Some (c, m')"
  obtains sum where "m' = m\<lparr>mr_running_response_sum := sum\<rparr>"
proof -
  have "m' = m\<lparr>mr_running_response_sum := mr_running_response_sum m'\<rparr>"
    using assms by (auto simp: s_s3_meta_request_fold_combine_slots_def Let_def split: option.splits if_splits prod.splits)
  then show thesis by (rule that)
qed

lemma validate_on_finish_keeps:
  assumes "s_validate_meta_request_checksum_on_finish H m = Some (c, m')"
  obtains sum expected res where
    "m' = m\<lparr>mr_running_response_sum := sum, mr_response_header_checksum := expected, finish_result := res\<rparr>"
proof -
  let ?check = "st_validate_response_checksum (mr_checksum_config m) \<and>
    res_error_code (finish_result m) = AWS_ERROR_SUCCESS \<and> mr_running_response_sum m \<noteq> None"
  define folded where "folded = (if \<not> mr_checksum_combinable m then Some (True, m) else s_s3_meta_request_fold_combine_slots H m)"
  have f: "\<exists>sum. m1 = m\<lparr>mr_running_response_sum := sum\<rparr>" if "folded = Some (b, m1)" for b m1
  proof (cases "mr_checksum_combinable m")
    case True
    then show ?thesis using that fold_keeps [of H m b m1] by (metis folded_def)
  next
    case False
    then have "m1 = m" using that by (simp add: folded_def)
    then have "m1 = m\<lparr>mr_running_response_sum := mr_running_response_sum m\<rparr>" by simp
    then show ?thesis by blast
  qed
  show thesis
  proof (cases ?check)
    case False
    then have "m' = m\<lparr>mr_running_response_sum := None, mr_response_header_checksum := '''', finish_result := finish_result m\<rparr>"
      using assms unfolding s_validate_meta_request_checksum_on_finish_def by auto
    then show thesis by (rule that)
  next
    case True
    then obtain b m1 where "folded = Some (b, m1)"
      using assms unfolding s_validate_meta_request_checksum_on_finish_def folded_def [symmetric] by (cases folded) auto
    moreover then obtain sum where "m1 = m\<lparr>mr_running_response_sum := sum\<rparr>" using f by blast
    ultimately have "m' = m\<lparr>mr_running_response_sum := None, mr_response_header_checksum := '''', finish_result := finish_result m'\<rparr>"
      using assms True unfolding s_validate_meta_request_checksum_on_finish_def folded_def [symmetric]
      by (auto simp: Let_def split: option.splits if_splits)
    then show thesis by (rule that)
  qed
qed

lemma finish_synced_keeps:
  assumes "finish_synced H build m = Some (Some (m', rest))"
  shows "same_flow (m\<lparr>pending_body_streaming_requests := []\<rparr>) m'" "mr_part_size m' = mr_part_size m"
    "finish_result_set m' = finish_result_set m" "mr_state m' = AWS_S3_META_REQUEST_STATE_FINISHED"
proof -
  have st: "mr_state m \<noteq> AWS_S3_META_REQUEST_STATE_FINISHED" using assms by (auto simp: finish_synced_def)
  obtain c m1 where v: "s_validate_meta_request_checksum_on_finish H (m\<lparr>mr_state := AWS_S3_META_REQUEST_STATE_FINISHED\<rparr>) = Some (c, m1)"
    using assms st by (auto simp: finish_synced_def split: option.splits)
  obtain sum expected res where m1: "m1 = m\<lparr>mr_state := AWS_S3_META_REQUEST_STATE_FINISHED, mr_running_response_sum := sum,
      mr_response_header_checksum := expected, finish_result := res\<rparr>"
    by (rule validate_on_finish_keeps [OF v]) simp
  have "\<exists>aw. m' = m1\<lparr>pending_body_streaming_requests := [], async_write := aw, finish_result := zero_result\<rparr>"
    using assms st unfolding finish_synced_def v Let_def
    by (simp only: if_False option.case prod.case case_prod_beta option.inject prod.inject fst_conv snd_conv) blast
  then obtain aw where m': "m' = m1\<lparr>pending_body_streaming_requests := [], async_write := aw, finish_result := zero_result\<rparr>" ..
  show "same_flow (m\<lparr>pending_body_streaming_requests := []\<rparr>) m'" "mr_part_size m' = mr_part_size m"
    "finish_result_set m' = finish_result_set m" "mr_state m' = AWS_S3_META_REQUEST_STATE_FINISHED"
    by (simp_all add: m' m1 same_flow_def)
qed

lemma finish_keeps:
  assumes "aws_s3_meta_request_finish_default H build cb m = Some (m', eff)"
  shows "same_flow m m' \<or> same_flow (m\<lparr>pending_body_streaming_requests := []\<rparr>) m'" "mr_part_size m' = mr_part_size m"
    "finish_result_set m' = finish_result_set m" "mr_state m' = AWS_S3_META_REQUEST_STATE_FINISHED"
proof -
  consider (done_before) "finish_synced H build m = Some None" | (now) m1 rest where "finish_synced H build m = Some (Some (m1, rest))"
    using assms unfolding aws_s3_meta_request_finish_default_def by (auto split: option.splits)
  then have "(same_flow m m' \<or> same_flow (m\<lparr>pending_body_streaming_requests := []\<rparr>) m') \<and> mr_part_size m' = mr_part_size m \<and>
    finish_result_set m' = finish_result_set m \<and> mr_state m' = AWS_S3_META_REQUEST_STATE_FINISHED"
  proof cases
    case done_before
    then have "m' = m" using assms by (simp add: aws_s3_meta_request_finish_default_def)
    moreover have "mr_state m = AWS_S3_META_REQUEST_STATE_FINISHED"
      using done_before by (auto simp: finish_synced_def Let_def split: if_splits option.splits prod.splits)
    ultimately show ?thesis by simp
  next
    case now
    obtain result a b tok released cancelled waker where rest: "rest = (result, a, b, tok, released, cancelled, waker)"
      by (metis prod_cases7)
    have "same_flow m1 m' \<and> mr_part_size m' = mr_part_size m1 \<and> finish_result_set m' = finish_result_set m1 \<and> mr_state m' = mr_state m1"
      using assms unfolding aws_s3_meta_request_finish_default_def now rest Let_def option.case prod.case
      by (simp only: option.inject prod.inject) (clarsimp simp: same_flow_def)
    then show ?thesis using finish_synced_keeps [OF now] same_flow_trans by auto
  qed
  then show "same_flow m m' \<or> same_flow (m\<lparr>pending_body_streaming_requests := []\<rparr>) m'" "mr_part_size m' = mr_part_size m"
    "finish_result_set m' = finish_result_set m" "mr_state m' = AWS_S3_META_REQUEST_STATE_FINISHED" by blast+
qed

lemma set_result_keeps:
  assumes "g' = get_set_result g"
  shows "same_flow (ag_base g) (ag_base g')" "mr_part_size (ag_base g') = mr_part_size (ag_base g)"
    "finish_result_set (ag_base g')" "g' = g\<lparr>ag_base := ag_base g'\<rparr>"
proof -
  have sf: "same_flow m (aws_s3_meta_request_set_fail_synced m r e)"
    "mr_part_size (aws_s3_meta_request_set_fail_synced m r e) = mr_part_size m" for m r e
    using set_fail_keeps [of m r e] by (simp_all add: same_flow_def same_config_def same_stream_def)
  have ss: "same_flow m (aws_s3_meta_request_set_success_synced m n)"
    "mr_part_size (aws_s3_meta_request_set_success_synced m n) = mr_part_size m"
    "finish_result_set (aws_s3_meta_request_set_success_synced m n)" for m n
    by (simp_all add: aws_s3_meta_request_set_success_synced_def same_flow_def)
  show "same_flow (ag_base g) (ag_base g')" "mr_part_size (ag_base g') = mr_part_size (ag_base g)"
    "finish_result_set (ag_base g')" "g' = g\<lparr>ag_base := ag_base g'\<rparr>"
    using sf ss unfolding assms by (simp_all add: get_set_result_def Let_def same_flow_def)
qed

lemma next_work_cases:
  assumes "get_next_work g flags = (work, request, g')"
  obtains (none) b where "request = None" "g' = g\<lparr>ag_read_window_warning_issued := b\<rparr>"
      "work \<or> (if finish_result_set (ag_base g)
         then \<not> (ag_head_object_sent g \<and> \<not> ag_head_object_completed g) \<and> ag_num_parts_requested g \<le> ag_num_parts_completed g
         else ag_object_range_known g \<and> ag_total_num_parts g \<le> ag_num_parts_requested g \<and>
           ag_total_num_parts g \<le> num_parts_delivery_completed (ag_base g)) \<and>
         num_parts_delivery_sent (ag_base g) \<le> num_parts_delivery_completed (ag_base g)"
  | (discovery) r where "request = Some r" "work" "\<not> finish_result_set (ag_base g)" "\<not> ag_object_range_known g"
      "\<not> ag_head_object_sent g" "ag_num_parts_requested g = 0" "(r, g') = send_discovery g"
  | (part) r b where "request = Some r" "work" "\<not> finish_result_set (ag_base g)" "ag_object_range_known g"
      "ag_num_parts_requested g < ag_total_num_parts g" "(r, g') = send_part (g\<lparr>ag_read_window_warning_issued := b\<rparr>)"
proof -
  let ?m = "ag_base g" and ?w = "ag_read_window_warning_issued g"
  define hold where "hold \<longleftrightarrow> flags AND AWS_S3_META_REQUEST_UPDATE_FLAG_CONSERVATIVE \<noteq> 0 \<and>
     ag_num_parts_requested g - ag_num_parts_completed g + of_nat (length (pending_body_streaming_requests ?m)) >
       s_conservative_max_requests_in_flight"
  let ?bp = "cl_enable_read_backpressure (mr_client ?m)"
  let ?blocked = "?bp \<and> read_data_requested g \<ge> read_window_running_total ?m"
  note u = assms [unfolded get_next_work_def Let_def aws_s3_meta_request_has_finish_result_synced_def hold_def [symmetric]]
  have same: "g = g\<lparr>ag_read_window_warning_issued := ?w\<rparr>" by simp
  consider (finished) "finish_result_set ?m" | (wait) "\<not> finish_result_set ?m" "hold"
    | (disc) "\<not> finish_result_set ?m" "\<not> hold" "\<not> ag_object_range_known g"
    | (more) "\<not> finish_result_set ?m" "\<not> hold" "ag_object_range_known g" "ag_num_parts_requested g < ag_total_num_parts g"
    | (all) "\<not> finish_result_set ?m" "\<not> hold" "ag_object_range_known g" "\<not> ag_num_parts_requested g < ag_total_num_parts g"
    by blast
  then show thesis
  proof cases
    case finished
    then have "request = None" "g' = g" "work \<or> \<not> (ag_head_object_sent g \<and> \<not> ag_head_object_completed g) \<and>
        ag_num_parts_requested g \<le> ag_num_parts_completed g \<and> num_parts_delivery_sent ?m \<le> num_parts_delivery_completed ?m"
      using u by (auto simp: not_less)
    then show thesis using finished by (intro none [of ?w]) simp_all
  next
    case wait
    then have "work" "request = None" "g' = g" using u by simp_all
    then show thesis by (intro none [of ?w]) simp_all
  next
    case disc
    show thesis
    proof (cases "ag_head_object_sent g \<or> ag_num_parts_requested g > 0")
      case True
      then have "work" "request = None" "g' = g" using u disc by simp_all
      then show thesis by (intro none [of ?w]) simp_all
    next
      case False
      obtain r g1 where sd: "send_discovery g = (r, g1)" by fastforce
      then have "work" "request = Some r" "g' = g1" using u disc False by simp_all
      then show thesis using disc False sd by (intro discovery [of r]) (simp_all add: word_gt_0)
    qed
  next
    case more
    show thesis
    proof (cases ?blocked)
      case True
      then have "work" "request = None" "g' = g\<lparr>ag_read_window_warning_issued := True\<rparr>" using u more by simp_all
      then show thesis by (intro none [of True]) simp_all
    next
      case False
      define b where "b = (if ?bp then False else ?w)"
      obtain r g1 where sp: "send_part (g\<lparr>ag_read_window_warning_issued := b\<rparr>) = (r, g1)" by fastforce
      then have "work" "request = Some r" "g' = g1" using u more False same by (simp_all add: b_def split: if_splits)
      then show thesis using more sp by (intro part [of r b]) simp_all
    qed
  next
    case all
    then have "request = None" "g' = g" "work \<or> \<not> num_parts_delivery_completed ?m < ag_total_num_parts g \<and>
        \<not> num_parts_delivery_completed ?m < num_parts_delivery_sent ?m"
      using u by auto
    then show thesis using all by (intro none [of ?w]) (simp_all add: not_less)
  qed
qed

lemma discovery_type_state:
  "snd (s_s3_get_request_type_for_discovering_object_size g) =
     (if ag_object_range_empty g then g\<lparr>ag_object_range_empty := False\<rparr> else g)"
  by (simp add: s_s3_get_request_type_for_discovering_object_size_def Let_def)

text \<open>What the discovery request is, and what of the state it leaves alone.\<close>

definition discovery_sent :: "auto_ranged_get \<Rightarrow> aws_s3_request \<Rightarrow> auto_ranged_get \<Rightarrow> bool" where
  "discovery_sent g r g' \<longleftrightarrow>
     rq_discovers_object_size r \<and> (is_head r \<or> is_ranged r \<or> is_part_1 r) \<and>
     ag_num_parts_requested g' = (if is_head r then ag_num_parts_requested g else ag_num_parts_requested g + 1) \<and>
     ag_head_object_sent g' = (is_head r \<or> ag_head_object_sent g) \<and> ag_head_object_completed g' = ag_head_object_completed g \<and>
     ag_num_parts_completed g' = ag_num_parts_completed g \<and> ag_num_parts_successful g' = ag_num_parts_successful g \<and>
     ag_num_parts_failed g' = ag_num_parts_failed g \<and> ag_total_num_parts g' = ag_total_num_parts g \<and>
     ag_object_range_known g' = ag_object_range_known g \<and> ag_base g' = ag_base g"

lemma send_discovery_sent: "discovery_sent g (fst (send_discovery g)) (snd (send_discovery g))"
proof -
  obtain tag g0 where t: "s_s3_get_request_type_for_discovering_object_size g = (tag, g0)" by fastforce
  have g0: "g0 = (if ag_object_range_empty g then g\<lparr>ag_object_range_empty := False\<rparr> else g)"
    using discovery_type_state [of g] t by simp
  define x where "x = (if tag = AWS_S3_AUTO_RANGE_GET_REQUEST_TYPE_HEAD_OBJECT then send_head g0
    else if tag = AWS_S3_AUTO_RANGE_GET_REQUEST_TYPE_GET_OBJECT_WITH_PART_NUMBER_1 then send_part_number_1 g0
    else send_first_range g0)"
  have "discovery_sent g0 ((fst x)\<lparr>rq_discovers_object_size := True\<rparr>) (snd x)"
    by (simp add: x_def discovery_sent_def send_head_def send_part_number_1_def send_first_range_def get_request_new_def
        aws_s3_request_new_def case_prod_beta)
  then have "discovery_sent g ((fst x)\<lparr>rq_discovers_object_size := True\<rparr>) (snd x)"
    by (simp add: discovery_sent_def g0)
  then show ?thesis unfolding send_discovery_def t Let_def prod.case x_def [symmetric] by (simp add: case_prod_beta)
qed

text \<open>The update is the choice of the next work, and the finish when there is none.\<close>

lemma update_cases:
  assumes "s_s3_auto_ranged_get_update E g flags = Some (work, request, g', effects)"
  obtains (work) work1 where "work" "get_next_work g flags = (work1, request, g')"
  | (finish) g1 where "\<not> work" "request = None" "get_next_work g flags = (False, request, g1)"
      "\<not> aws_s3_meta_request_are_events_out_for_delivery_synced (ag_base g1)"
      "aws_s3_meta_request_finish_default (ge_hash E)
         (Some (\<lambda>m. Some (s_build_download_resume_token_synced ((get_set_result g1)\<lparr>ag_base := m\<rparr>))))
         (ge_headers_callback E) (ag_base (get_set_result g1)) = Some (ag_base g', effects)"
      "g' = (get_set_result g1)\<lparr>ag_base := ag_base g'\<rparr>"
proof -
  obtain work1 request1 g1 where n: "get_next_work g flags = (work1, request1, g1)" by (metis prod_cases3)
  let ?out = "aws_s3_meta_request_are_events_out_for_delivery_synced (ag_base g1)"
  show thesis
  proof (cases "work1 \<or> ?out")
    case True
    then have "work" "request = request1" "g' = g1"
      using assms n by (simp_all add: s_s3_auto_ranged_get_update_def get_update_synced_def Let_def)
    then show thesis using n by (intro that(1)) simp_all
  next
    case False
    have r: "request1 = None" using n False by (cases rule: next_work_cases [OF n]) simp_all
    obtain m eff where f: "aws_s3_meta_request_finish_default (ge_hash E)
         (Some (\<lambda>m. Some (s_build_download_resume_token_synced ((get_set_result g1)\<lparr>ag_base := m\<rparr>))))
         (ge_headers_callback E) (ag_base (get_set_result g1)) = Some (m, eff)"
      "\<not> work" "request = None" "g' = (get_set_result g1)\<lparr>ag_base := m\<rparr>" "effects = eff"
      using assms n False
      by (auto simp: s_s3_auto_ranged_get_update_def get_update_synced_def Let_def split: option.splits)
    then show thesis using n False r by (intro that(2)) simp_all
  qed
qed

lemma known_ok_send_part:
  assumes "known_ok g rs ps" "ag_num_parts_requested g < ag_total_num_parts g" "(r, g') = send_part g"
  shows "known_ok g' (rs @ [r]) (ps @ [r])"
proof -
  have r: "r = fst (send_part g)" "g' = snd (send_part g)" using assms(3) by (metis fst_conv snd_conv)+
  obtain d where ok: "set rs \<subseteq> set ps" "\<forall>r \<in> set ps. part_request_ok g r" "spread_ok g"
    "distinct (asked ps)" "set (asked ps) \<subseteq> {1..unat (ag_total_num_parts g)}"
    "\<not> ag_object_range_empty g \<longrightarrow> parts_of_range g"
    and d: "d \<le> 1" "handed_out g = {1..d} \<union> set (asked ps)" "set (asked ps) \<inter> {1..d} = {}"
    using assms(1) unfolding known_ok_def by blast
  note st = send_part_step [OF ok(3) assms(2) refl refl, folded r]
  have inc: "ag_num_parts_requested g' = ag_num_parts_requested g + 1" and tot: "ag_total_num_parts g' = ag_total_num_parts g"
    by (simp_all add: r send_part_fields)
  have ranges: "part_request_ok g' x = part_request_ok g x" "parts_of_range g' = parts_of_range g"
      "ag_object_range_empty g' = ag_object_range_empty g" for x
    by (simp_all add: part_request_ok_def parts_of_range_def r send_part_fields)
  have "part_request_ok g r"
    using send_part_range [of g] by (simp add: part_request_ok_def r send_part_fields)
  moreover have "ag_num_parts_requested g + 1 \<le> ag_total_num_parts g"
    using assms(2) by (metis inc_le)
  moreover have "ag_total_num_parts g \<noteq> 0" using assms(2) by auto
  moreover have "handed_out g' = {1..d} \<union> set (asked (ps @ [r]))" "set (asked (ps @ [r])) \<inter> {1..d} = {}"
    "distinct (asked (ps @ [r]))"
    using st d ok(4) by (auto simp: asked_def)
  ultimately show ?thesis
    unfolding known_ok_def using ok st d(1) by (auto simp: inc tot ranges asked_def)
qed

lemma counts_ok_send_part:
  assumes "counts_ok g rs" "ag_num_parts_requested g < ag_total_num_parts g" "(r, g') = send_part g"
  shows "counts_ok g' (rs @ [r])"
proof -
  have r: "r = fst (send_part g)" "g' = snd (send_part g)" using assms(3) by (metis fst_conv snd_conv)+
  have "unat (ag_num_parts_requested g + 1) = unat (ag_num_parts_requested g) + 1" by (rule unat_inc_nowrap [OF assms(2)])
  then show ?thesis using assms(1) by (simp add: counts_ok_def r send_part_fields)
qed

lemma discovering_sent:
  assumes "discovery_sent g r g'" "counts_ok g rs" "discovering_ok g rs ps" "\<not> ag_head_object_sent g" "ag_num_parts_requested g = 0"
  shows "counts_ok g' (rs @ [r])" "discovering_ok g' (rs @ [r]) ps"
  using assms by (auto simp: discovery_sent_def counts_ok_def discovering_ok_def)

lemma get_inv_next_work:
  assumes "get_inv w" "get_next_work (gw_get w) flags = (work, request, g)"
  shows "get_inv (w\<lparr>gw_get := g, gw_in_flight := gw_in_flight w @ opt_list request,
       gw_parts := gw_parts w @ filter (\<lambda>r. \<not> rq_discovers_object_size r) (opt_list request)\<rparr>)"
  using assms(2)
proof (cases rule: next_work_cases)
  case (none b)
  then show ?thesis using assms(1) by (simp add: get_inv_def Let_def)
next
  case (discovery r)
  have d: "discovery_sent (gw_get w) r g" using send_discovery_sent [of "gw_get w"] discovery(7) by (metis fst_conv snd_conv)
  have "counts_ok g (gw_in_flight w @ [r])" "discovering_ok g (gw_in_flight w @ [r]) (gw_parts w)"
    using discovering_sent [OF d _ _ discovery(5,6), of "gw_in_flight w" "gw_parts w"] assms(1) discovery(4)
    by (simp_all add: get_inv_def Let_def)
  then show ?thesis using assms(1) d discovery by (simp add: get_inv_def Let_def discovery_sent_def)
next
  case (part r b)
  let ?g = "(gw_get w)\<lparr>ag_read_window_warning_issued := b\<rparr>"
  have g: "g = snd (send_part ?g)" "r = fst (send_part ?g)" using part(6) by (metis fst_conv snd_conv)+
  have "known_ok ?g (gw_in_flight w) (gw_parts w)" "counts_ok ?g (gw_in_flight w)" "ag_num_parts_requested ?g < ag_total_num_parts ?g"
    using assms(1) part by (simp_all add: get_inv_def Let_def)
  then have "known_ok g (gw_in_flight w @ [r]) (gw_parts w @ [r])" "counts_ok g (gw_in_flight w @ [r])"
    using known_ok_send_part counts_ok_send_part part(6) by blast+
  then show ?thesis using assms(1) part(1,4) by (simp add: get_inv_def Let_def g send_part_fields)
qed

lemma get_inv_update:
  assumes "get_inv w" "s_s3_auto_ranged_get_update E (gw_get w) flags = Some (work, request, g, effects)"
  shows "get_inv (w\<lparr>gw_get := g, gw_in_flight := gw_in_flight w @ opt_list request,
       gw_parts := gw_parts w @ filter (\<lambda>r. \<not> rq_discovers_object_size r) (opt_list request)\<rparr>)"
  using assms(2)
proof (cases rule: update_cases)
  case (work work1)
  then show ?thesis using get_inv_next_work [OF assms(1)] by simp
next
  case (finish g1)
  define g2 where "g2 = get_set_result g1"
  have 1: "get_inv (w\<lparr>gw_get := g1\<rparr>)" using get_inv_next_work [OF assms(1) finish(3)] finish(2) by simp
  note r = set_result_keeps [OF g2_def]
  have f: "same_flow (ag_base g2) (ag_base g) \<or> same_flow ((ag_base g2)\<lparr>pending_body_streaming_requests := []\<rparr>) (ag_base g)"
    "mr_part_size (ag_base g) = mr_part_size (ag_base g2)" "finish_result_set (ag_base g)"
    using finish_keeps [OF finish(5)] r(3) by (simp_all add: g2_def)
  have flow: "flow_ok s (ag_base g2, ws) \<Longrightarrow> flow_ok s (ag_base g, ws)" for s ws
    using f(1) by (auto simp: flow_ok_def same_flow_def)
  have g: "g = g1\<lparr>ag_base := ag_base g\<rparr>"
    using finish(6) r(4) unfolding g2_def [symmetric] by (metis auto_ranged_get.surjective auto_ranged_get.update_convs(1))
  have "get_inv (w\<lparr>gw_get := g1\<lparr>ag_base := ag_base g\<rparr>\<rparr>)"
    using 1 flow same_flow_ok [OF r(1)] r(2) f(2,3) unfolding get_inv_def Let_def
    by (cases "ag_object_range_known g1") (simp_all add: known_ok_base)
  then show ?thesis using g finish(2) by simp
qed

subsection \<open>Completions keep the invariant\<close>

text \<open>What the computations on a discovery response leave alone.\<close>

definition same_requests :: "auto_ranged_get \<Rightarrow> auto_ranged_get \<Rightarrow> bool" where
  "same_requests g g' \<longleftrightarrow>
     ag_num_parts_requested g' = ag_num_parts_requested g \<and> ag_num_parts_completed g' = ag_num_parts_completed g \<and>
     ag_num_parts_successful g' = ag_num_parts_successful g \<and> ag_num_parts_failed g' = ag_num_parts_failed g \<and>
     ag_head_object_sent g' = ag_head_object_sent g \<and> ag_head_object_completed g' = ag_head_object_completed g \<and>
     same_flow (ag_base g) (ag_base g')"

definition same_known :: "auto_ranged_get \<Rightarrow> auto_ranged_get \<Rightarrow> bool" where
  "same_known g g' \<longleftrightarrow>
     ag_object_range_known g' = ag_object_range_known g \<and> ag_total_num_parts g' = ag_total_num_parts g"

lemma same_requests_refl [simp]: "same_requests g g" "same_known g g"
  by (simp_all add: same_requests_def same_known_def)

lemma same_requests_trans:
  "same_requests g g' \<Longrightarrow> same_requests g' g'' \<Longrightarrow> same_requests g g''"
  "same_known g g' \<Longrightarrow> same_known g' g'' \<Longrightarrow> same_known g g''"
  by (auto simp: same_requests_def same_known_def intro: same_flow_trans)

lemma capture_etag_keeps:
  "same_requests g (snd (capture_etag E g hs n)) \<and> same_known g (snd (capture_etag E g hs n))"
  by (simp add: capture_etag_def Let_def case_prod_beta same_requests_def same_known_def split: option.split)

lemma override_part_size_keeps:
  "same_requests g (fst (override_part_size E g r n f)) \<and> same_known g (fst (override_part_size E g r n f))"
  by (simp add: override_part_size_def Let_def same_requests_def same_known_def same_flow_def split: sum.split)

lemma base_keeps:
  "same_flow (ag_base g) m \<Longrightarrow> same_requests g (g\<lparr>ag_base := m\<rparr>) \<and> same_known g (g\<lparr>ag_base := m\<rparr>)"
  by (simp add: same_requests_def same_known_def)

lemma discover_checksum_keeps: "same_flow m (snd (discover_checksum E m r dc f))"
  by (simp add: discover_checksum_def same_flow_def split: sum.split option.split)

lemma limit_express_keeps: "same_flow m (limit_express_connections m n k)"
  by (simp add: limit_express_connections_def same_flow_def Let_def)

lemma report_headers_keeps:
  assumes "report_headers E g r dc n = Some (e, g', r', h)"
  shows "same_requests g g'" "same_known g g'" "answered r r'"
  using assms
  by (auto simp: report_headers_def Let_def answered_def same_requests_def same_known_def same_flow_def
      split: if_splits option.splits)

lemma discovery_finished_keeps:
  assumes "discovery_finished E g r e = Some (fd, g', r')"
  shows "same_requests g g'" "same_known g g'" "answered r r'"
proof -
  obtain x where x: "s_discover_object_range_and_size E g r e = Some x"
    using assms by (auto simp: discovery_finished_def split: option.splits)
  have "same_requests g g' \<and> same_known g g' \<and> answered r r'"
  proof (cases x)
    case (Inl err)
    then show ?thesis using assms x by (simp add: discovery_finished_def answered_def)
  next
    case (Inr dc)
    define cap where "cap = (if e = AWS_ERROR_SUCCESS \<or> e = AWS_ERROR_S3_INTERNAL_BUFFER_SIZE_MISMATCH_RETRYING_WITH_RANGE
      then map_option (\<lambda>hs. capture_etag E g hs (dc_object_size dc)) (rq_response_headers r) else Some (AWS_ERROR_SUCCESS, g))"
    note u = assms [unfolded discovery_finished_def x Inr option.case sum.case cap_def [symmetric]]
    obtain e1 g1 where c: "cap = Some (e1, g1)" using u by (cases cap) auto
    have 1: "same_requests g g1 \<and> same_known g g1"
      using c capture_etag_keeps [of g E] unfolding cap_def by (auto split: if_splits) (metis snd_conv)+
    note u1 = u [unfolded c option.case prod.case]
    show ?thesis
    proof (cases "e1 = AWS_ERROR_SUCCESS")
      case False
      then show ?thesis using u1 1 by (simp add: answered_def)
    next
      case True
      define n where "n = aws_s3_client_get_max_active_connections (mr_client (ag_base g1)) (Some (ag_base g1))"
      obtain g2 f sp where 2: "override_part_size E g1 r n (dc_first_part_size dc) = (g2, f, sp)" by (metis prod_cases3)
      obtain e3 m3 where 3: "discover_checksum E (ag_base g2) r dc f = (e3, m3)" by fastforce
      define g3 where "g3 = g2\<lparr>ag_base := m3\<rparr>"
      define g4 where "g4 = g3\<lparr>ag_base := limit_express_connections m3 (dc_object_size dc) n\<rparr>"
      have k2: "same_requests g1 g2 \<and> same_known g1 g2" using override_part_size_keeps [of g1 E r n] 2 by (metis fst_conv)
      have k3: "same_requests g2 g3 \<and> same_known g2 g3"
        using base_keeps [of g2 m3] discover_checksum_keeps [of "ag_base g2" E r dc f] 3 by (simp add: g3_def)
      have k4: "same_requests g3 g4 \<and> same_known g3 g4"
        using base_keeps [of g3, OF limit_express_keeps] by (simp add: g4_def g3_def)
      have k: "same_requests g g3 \<and> same_known g g3" "same_requests g g4 \<and> same_known g g4"
        using 1 k2 k3 k4 same_requests_trans by blast+
      note u2 = u1 [unfolded True Let_def n_def [symmetric] 2 prod.case 3]
      show ?thesis
      proof (cases "e3 = AWS_ERROR_SUCCESS")
        case False
        then show ?thesis using u2 k by (simp add: g3_def answered_def)
      next
        case True
        define len where "len = (if dc_object_size dc \<noteq> 0 then dc_object_range_end dc - dc_object_range_start dc + 1 else 0)"
        obtain e5 h where "report_headers E g4 r dc len = Some (e5, g', r', h)"
          using u2 True unfolding len_def [symmetric] by (auto simp: g4_def g3_def)
        from report_headers_keeps [OF this] show ?thesis using k same_requests_trans by blast
      qed
    qed
  qed
  then show "same_requests g g'" "same_known g g'" "answered r r'" by blast+
qed

lemma record_digest_keeps:
  "s_s3_meta_request_record_part_digest m p digest len = Some m' \<Longrightarrow> same_flow m m' \<and> same_mask m m' \<and> mr_part_size m' = mr_part_size m"
  by (auto simp: s_s3_meta_request_record_part_digest_def same_flow_def same_mask_def split: if_splits)

lemma setup_combine_keeps:
  assumes "aws_s3_meta_request_setup_checksum_combine_synced H m r n = Some (e, m')"
  shows "same_flow m m' \<and> same_mask m m' \<and> mr_part_size m' = mr_part_size m"
proof -
  let ?ok = "\<lambda>m m'. same_flow m m' \<and> same_mask m m' \<and> mr_part_size m' = mr_part_size m"
  define m1 where "m1 = m\<lparr>mr_checksum_combinable := False\<rparr>"
  define m2 where "m2 = m1\<lparr>mr_combine_slots := Some (replicate (unat n) \<lparr>slot_length = 0, slot_digest = []\<rparr>),
    mr_combine_slot_count := n, mr_checksum_combinable := True\<rparr>"
  have 1: "?ok m m1" "?ok m m2" by (simp_all add: m1_def m2_def same_flow_def same_mask_def)
  have 2: "?ok m m'" if "s_s3_meta_request_record_part_digest m2 p digest len = Some m'" for p digest len
    using record_digest_keeps [OF that] 1(2) by (auto simp: same_flow_def same_mask_def)
  show ?thesis
    using assms 1 2 unfolding aws_s3_meta_request_setup_checksum_combine_synced_def Let_def m1_def [symmetric] m2_def [symmetric]
    by (auto split: option.splits if_splits sum.splits)
qed

lemma setup_validation_keeps:
  assumes "setup_validation E r n (e, m) = Some (e', m')"
  shows "same_flow m m' \<and> same_mask m m' \<and> mr_part_size m' = mr_part_size m"
  using assms setup_combine_keeps [of "ge_hash E" m r n]
  by (auto simp: setup_validation_def same_mask_def split: if_splits)

lemma resolve_keeps:
  "same_flow m (s_resolve_out_of_order_delivery m)" "same_mask m (s_resolve_out_of_order_delivery m)"
  "mr_part_size (s_resolve_out_of_order_delivery m) = mr_part_size m"
  by (simp_all add: s_resolve_out_of_order_delivery_def Let_def same_flow_def same_mask_def)

lemma record_discovery_keeps:
  assumes "record_discovery E g r fd mm = Some (e, g')"
  shows "same_requests g g'" "ag_object_range_known g'"
    "if dc_object_size (fd_discovery fd) = 0 then ag_object_range_empty g' \<and> ag_total_num_parts g' = ag_total_num_parts g
     else \<not> ag_object_range_empty g' \<and> parts_of_range g' \<and> mask_for (ag_total_num_parts g') (ag_base g')"
proof -
  obtain e1 m1 where 1: "check_recv_buffer fd (ag_base g) = (e1, m1)" by fastforce
  define g2 where "g2 = set_num_parts (set_object_range fd mm (g\<lparr>ag_base := m1\<rparr>))"
  obtain m3 where 3: "setup_validation E r (ag_total_num_parts g2) (e1, ag_base g2) = Some (e, m3)"
    and g': "g' = g2\<lparr>ag_base := s_resolve_out_of_order_delivery m3\<rparr>"
    using assms unfolding record_discovery_def Let_def 1 prod.case g2_def [symmetric] by auto
  have m1: "same_flow (ag_base g) m1"
    using 1 by (auto simp: check_recv_buffer_def same_flow_def split: option.splits if_splits)
  have g2: "same_requests g g2" "ag_object_range_known g2"
    "if dc_object_size (fd_discovery fd) = 0 then ag_object_range_empty g2 \<and> ag_total_num_parts g2 = ag_total_num_parts g
     else \<not> ag_object_range_empty g2 \<and> parts_of_range g2 \<and> mask_for (ag_total_num_parts g2) (ag_base g2)"
    using m1 by (simp_all add: g2_def set_num_parts_def set_object_range_def Let_def same_requests_def same_flow_def
        parts_of_range_def mask_for_def)
  note k = setup_validation_keeps [OF 3] resolve_keeps [of m3]
  have "same_requests g2 g'" "parts_of_range g' = parts_of_range g2"
    "mask_for n (ag_base g') = mask_for n (ag_base g2)" for n
    using k by (auto simp: g' same_requests_def same_flow_def parts_of_range_def mask_for_def same_mask_def)
  then show "same_requests g g'" "ag_object_range_known g'"
    "if dc_object_size (fd_discovery fd) = 0 then ag_object_range_empty g' \<and> ag_total_num_parts g' = ag_total_num_parts g
     else \<not> ag_object_range_empty g' \<and> parts_of_range g' \<and> mask_for (ag_total_num_parts g') (ag_base g')"
    using g2 same_requests_trans(1) by (auto simp: g' split: if_splits)
qed

text \<open>A part that succeeded: one more body, sent on or waiting.\<close>

lemma part_succeeded_keeps:
  assumes "queue_ok rq_part_number (push_request (ge_sink E))" "part_succeeded E g r = (g', job)"
    and "flow_ok s (ag_base g, ws)" "Suc s < 2 ^ 32"
  obtains m a v where "g' = g\<lparr>ag_base := m, ag_validation_algorithm := a, ag_num_parts_checksum_validated := v,
      ag_num_parts_successful := ag_num_parts_successful g + 1\<rparr>"
    "flow_ok (Suc s) (m, ws @ opt_list job)" "mr_part_size m = mr_part_size (ag_base g)"
    "finish_result_set m = finish_result_set (ag_base g)" "same_mask (ag_base g) m"
proof -
  define g1 where "g1 = (if rq_did_validate r
    then g\<lparr>ag_validation_algorithm := (if ag_validation_algorithm g = AWS_SCA_NONE
             then rq_validation_algorithm r else ag_validation_algorithm g),
           ag_num_parts_checksum_validated := ag_num_parts_checksum_validated g + 1\<rparr> else g)"
  define ev where "ev = EVENT_PROGRESS (body_len (rq_response_body r))
    (if ag_object_range_empty g then 0 else ag_object_range_end g + 1 - ag_object_range_start g)"
  define m1 where "m1 = (if mr_has_progress_callback (ag_base g)
    then aws_s3_meta_request_add_event_for_delivery_synced (ag_base g) (Some ev) else ag_base g)"
  obtain m where st: "aws_s3_meta_request_stream_response_body_synced (ge_sink E) m1 r = (m, job)"
    and g': "g' = g1\<lparr>ag_num_parts_successful := ag_num_parts_successful g + 1, ag_base := m\<rparr>"
    using assms(2) by (auto simp: part_succeeded_def Let_def m1_def ev_def g1_def split: prod.splits if_splits)
  have m1: "same_parts (ag_base g) m1" "flow_ok s (m1, ws)"
    using assms(3) flow_ok_same [OF assms(3)] add_event_keeps [of "ag_base g" "Some ev"]
    by (simp_all add: m1_def ev_def same_parts_def same_mask_def)
  have f: "flow_ok (Suc s) (m, ws @ opt_list job)" "same_but_queue m1 m"
    using stream_body_flow [OF assms(1) m1(2) assms(4) st] by (simp_all add: opt_list_def)
  have fin: "finish_result_set m1 = finish_result_set (ag_base g)"
    by (simp add: m1_def aws_s3_meta_request_add_event_for_delivery_synced_def Let_def)
  have "g' = g\<lparr>ag_base := m, ag_validation_algorithm := ag_validation_algorithm g1,
      ag_num_parts_checksum_validated := ag_num_parts_checksum_validated g1,
      ag_num_parts_successful := ag_num_parts_successful g + 1\<rparr>"
    unfolding g' g1_def by simp
  then show thesis
    by (rule that) (use f m1 fin in \<open>simp_all add: same_but_queue_def same_parts_def same_mask_def\<close>)
qed

lemma fail_request_keeps:
  obtains m where "fail_request g r e = g\<lparr>ag_base := m\<rparr>" "same_parts (ag_base g) m" "same_flow (ag_base g) m"
    "e \<noteq> AWS_ERROR_SUCCESS \<Longrightarrow> finish_result_set m"
proof (cases "e = AWS_ERROR_SUCCESS")
  case True
  then have "fail_request g r e = g\<lparr>ag_base := ag_base g\<rparr>" by (simp add: fail_request_def)
  then show thesis by (rule that) (simp_all add: same_parts_def same_mask_def True)
next
  case False
  define e' where "e' = (if e = AWS_ERROR_S3_INVALID_RESPONSE_STATUS \<and> rq_response_status r = 412 \<and>
      \<not> ag_initial_message_has_if_match_header g then AWS_ERROR_S3_OBJECT_MODIFIED else e)"
  define m where "m = aws_s3_meta_request_set_fail_synced (ag_base g) (Some r) e'"
  define m' where "m' = (if e' = AWS_ERROR_S3_RESPONSE_CHECKSUM_MISMATCH
    then m\<lparr>finish_result := (finish_result m)\<lparr>res_did_validate := True, res_validation_algorithm := rq_validation_algorithm r\<rparr>\<rparr>
    else m)"
  have eq: "fail_request g r e = g\<lparr>ag_base := m'\<rparr>"
    using False by (simp add: fail_request_def Let_def e'_def m_def m'_def)
  have k: "same_config (ag_base g) m" "same_stream (ag_base g) m" "finish_result_set m"
    using set_fail_keeps by (simp_all add: m_def)
  have m': "same_parts m m'" "same_flow m m'" "finish_result_set m' = finish_result_set m"
    by (simp_all add: m'_def same_parts_def same_mask_def same_flow_def)
  show thesis
    by (rule that [OF eq]) (use k m' same_parts_trans [OF same_parts_config [OF k(1)]] in
        \<open>auto simp: same_flow_def same_config_def same_stream_def\<close>)
qed

text \<open>The same object, split into the same parts and spread the same way.\<close>

definition same_object :: "auto_ranged_get \<Rightarrow> auto_ranged_get \<Rightarrow> bool" where
  "same_object g g' \<longleftrightarrow>
     ag_total_num_parts g' = ag_total_num_parts g \<and> ag_object_range_empty g' = ag_object_range_empty g \<and>
     ag_object_range_start g' = ag_object_range_start g \<and> ag_object_range_end g' = ag_object_range_end g \<and>
     ag_first_part_size g' = ag_first_part_size g \<and> ag_spread_num_regions g' = ag_spread_num_regions g \<and>
     ag_spread_region_size g' = ag_spread_region_size g \<and> ag_spread_num_large_regions g' = ag_spread_num_large_regions g \<and>
     ag_spread_first_part g' = ag_spread_first_part g \<and> ag_spread_parts_handed_out g' = ag_spread_parts_handed_out g \<and>
     mr_part_size (ag_base g') = mr_part_size (ag_base g) \<and> same_mask (ag_base g) (ag_base g') \<and>
     ag_head_object_sent g' = ag_head_object_sent g \<and> (finish_result_set (ag_base g) \<longrightarrow> finish_result_set (ag_base g'))"

lemma known_ok_same_object:
  assumes "same_object g g'" "ag_num_parts_requested g' = ag_num_parts_requested g"
  shows "known_ok g' rs ps = known_ok g rs ps"
proof -
  have "spread_ok g' = spread_ok g" "handed_out g' = handed_out g" "part_request_ok g' r = part_request_ok g r"
    "parts_of_range g' = parts_of_range g" for r
    using assms by (simp_all add: same_object_def spread_ok_def handed_out_def spread_parts_def part_request_ok_def parts_of_range_def)
  then show ?thesis using assms by (simp add: known_ok_def same_object_def)
qed

text \<open>What the switch over the tag of a completed request does to the counters.\<close>

definition request_counted :: "auto_ranged_get \<Rightarrow> aws_s3_request \<Rightarrow> bool \<Rightarrow> bool \<Rightarrow> auto_ranged_get \<Rightarrow> bool" where
  "request_counted g r found no_file g' \<longleftrightarrow>
     same_object g g' \<and> ag_head_object_completed g' = (is_head r \<or> ag_head_object_completed g) \<and>
     unat (ag_num_parts_successful g') + unat (ag_num_parts_failed g') = unat (ag_num_parts_completed g') \<and>
     (if is_head r
      then ag_num_parts_requested g' = ag_num_parts_requested g \<and> ag_num_parts_completed g' = ag_num_parts_completed g \<and>
        ag_object_range_known g' = ag_object_range_known g
      else
        (found \<or> no_file) \<and> ag_num_parts_requested g' = 0 \<and> ag_num_parts_completed g' = ag_num_parts_completed g \<and>
          (ag_object_range_known g' = ag_object_range_known g \<or> no_file \<and> \<not> ag_object_range_known g') \<or>
        ag_num_parts_requested g' = ag_num_parts_requested g \<and>
          unat (ag_num_parts_completed g') = Suc (unat (ag_num_parts_completed g)) \<and>
          ag_object_range_known g' = ag_object_range_known g)"

lemma counted_known:
  assumes "request_counted g r found no_file g'"
  shows "ag_object_range_known g' \<Longrightarrow> ag_object_range_known g" "\<not> ag_object_range_known g' \<Longrightarrow> \<not> ag_object_range_known g \<or> no_file"
    "ag_num_parts_requested g' = ag_num_parts_requested g \<or> ag_num_parts_requested g' = 0"
  using assms unfolding request_counted_def by (cases "is_head r"; auto)+

lemma count_request_counted:
  assumes "queue_ok rq_part_number (push_request (ge_sink E))" "count_request E g r e found no_file = (g', fm, job)"
    and "flow_ok (unat (ag_num_parts_successful g)) (ag_base g, ws)"
    and "unat (ag_num_parts_successful g) + unat (ag_num_parts_failed g) = unat (ag_num_parts_completed g)"
    and "\<not> is_head r \<Longrightarrow> unat (ag_num_parts_completed g) < unat (ag_num_parts_requested g)"
    and "is_head r \<or> is_ranged r \<or> is_part_1 r"
  shows "request_counted g r found no_file g'" "flow_ok (unat (ag_num_parts_successful g')) (ag_base g', ws @ opt_list job)"
proof -
  define lost where "lost \<longleftrightarrow> is_part_1 r \<and> e = AWS_ERROR_S3_INTERNAL_BUFFER_SIZE_MISMATCH_RETRYING_WITH_RANGE \<and> found"
  define part where "part \<longleftrightarrow> is_part_1 r \<or> is_ranged r"
  note c = assms(2) [unfolded count_request_def lost_def [symmetric] part_def [symmetric]]
  have part: "\<not> is_head r \<Longrightarrow> part" and found: "lost \<Longrightarrow> found" using assms(6) by (auto simp: part_def lost_def)
  note d = same_object_def same_mask_def request_counted_def
  have inc: "unat (ag_num_parts_completed g + 1) = Suc (unat (ag_num_parts_completed g))"
    "Suc (unat (ag_num_parts_successful g)) < 2 ^ 32" "unat (ag_num_parts_successful g + 1) = Suc (unat (ag_num_parts_successful g))"
    "unat (ag_num_parts_failed g + 1) = Suc (unat (ag_num_parts_failed g))" if "\<not> is_head r"
  proof -
    have "Suc (unat (ag_num_parts_completed g)) < 2 ^ 32"
      using assms(5) [OF that] unat_lt2p32 [of "ag_num_parts_requested g"] by simp
    then show "unat (ag_num_parts_completed g + 1) = Suc (unat (ag_num_parts_completed g))"
      "Suc (unat (ag_num_parts_successful g)) < 2 ^ 32" "unat (ag_num_parts_successful g + 1) = Suc (unat (ag_num_parts_successful g))"
      "unat (ag_num_parts_failed g + 1) = Suc (unat (ag_num_parts_failed g))"
      using assms(4) by (simp_all add: unat_add_nowrap)
  qed
  consider (head) "is_head r" | (lost) "\<not> is_head r" "lost" | (no_file) "\<not> is_head r" "\<not> lost" "no_file"
    | (ok) "\<not> is_head r" "\<not> lost" "\<not> no_file" "e = AWS_ERROR_SUCCESS"
    | (failed) "\<not> is_head r" "\<not> lost" "\<not> no_file" "e \<noteq> AWS_ERROR_SUCCESS" by blast
  then have "request_counted g r found no_file g' \<and> flow_ok (unat (ag_num_parts_successful g')) (ag_base g', ws @ opt_list job)"
  proof cases
    case head
    then have "g' = g\<lparr>ag_head_object_completed := True\<rparr>" "job = None" using c by simp_all
    then show ?thesis using head assms(3,4) by (simp add: d)
  next
    case lost
    then have "g' = g\<lparr>ag_num_parts_requested := 0\<rparr>" "job = None" using c by simp_all
    then show ?thesis using lost found assms(3,4) by (simp add: d)
  next
    case no_file
    then have "g' = g\<lparr>ag_num_parts_requested := 0, ag_object_range_known := False\<rparr>" "job = None"
      using c part by simp_all
    then show ?thesis using no_file assms(3,4) by (simp add: d)
  next
    case ok
    let ?g = "g\<lparr>ag_num_parts_completed := ag_num_parts_completed g + 1\<rparr>"
    have "part_succeeded E ?g r = (g', job)"
      using c ok part by (simp add: Let_def split: prod.splits)
    then obtain m a v where "g' = ?g\<lparr>ag_base := m, ag_validation_algorithm := a, ag_num_parts_checksum_validated := v,
        ag_num_parts_successful := ag_num_parts_successful ?g + 1\<rparr>"
      "flow_ok (Suc (unat (ag_num_parts_successful g))) (m, ws @ opt_list job)" "mr_part_size m = mr_part_size (ag_base ?g)"
      "finish_result_set m = finish_result_set (ag_base ?g)" "same_mask (ag_base ?g) m"
      by (rule part_succeeded_keeps [OF assms(1) _ _ inc(2) [OF ok(1)]]) (use assms(3) in auto)
    then show ?thesis using ok assms(4) inc by (simp add: d)
  next
    case failed
    then have "g' = g\<lparr>ag_num_parts_completed := ag_num_parts_completed g + 1, ag_num_parts_failed := ag_num_parts_failed g + 1\<rparr>"
      "job = None"
      using c part by (simp_all add: Let_def)
    then show ?thesis using failed assms(3,4) inc by (simp add: d)
  qed
  then show "request_counted g r found no_file g'" "flow_ok (unat (ag_num_parts_successful g')) (ag_base g', ws @ opt_list job)"
    by blast+
qed

text \<open>The stages of a completion.\<close>

lemma request_finished_stages:
  assumes "s_s3_auto_ranged_get_request_finished E g r e = Some f"
  obtains fd g1 r1 e2 g2 g3 fm m5 where
    "if rq_discovers_object_size r then discovery_finished E g r e = Some (fd, g1, r1) else (fd, g1, r1) = (not_found e, g, r)"
    "if fd_found fd
     then record_discovery E g1 r1 fd (e = AWS_ERROR_S3_INTERNAL_BUFFER_SIZE_MISMATCH_RETRYING_WITH_RANGE) = Some (e2, g2)
     else (e2, g2) = (fd_error_code fd, g1)"
    "count_request E g2 r1 e (fd_found fd) (dc_empty_file_error (fd_discovery fd)) = (g3, fm, gf_write_job f)"
    "same_parts (ag_base (fail_request g3 r1 e2)) m5" "num_parts_delivery_completed m5 = num_parts_delivery_completed (ag_base (fail_request g3 r1 e2))"
    "bodies (event_delivery_array m5) = bodies (event_delivery_array (ag_base (fail_request g3 r1 e2)))"
    "gf_get f = (let g5 = (fail_request g3 r1 e2)\<lparr>ag_base := m5\<rparr> in
       if rq_discovers_object_size r1 \<and> ag_object_range_known g5 then s_init_spread_synced g5 else g5)"
proof -
  define x where "x = (if rq_discovers_object_size r then discovery_finished E g r e else Some (not_found e, g, r))"
  note u = assms [unfolded s_s3_auto_ranged_get_request_finished_def x_def [symmetric]]
  obtain fd g1 r1 where x: "x = Some (fd, g1, r1)" using u by (cases x) auto
  define y where "y = (if fd_found fd
    then record_discovery E g1 r1 fd (e = AWS_ERROR_S3_INTERNAL_BUFFER_SIZE_MISMATCH_RETRYING_WITH_RANGE)
    else Some (fd_error_code fd, g1))"
  note u1 = u [unfolded x option.case prod.case y_def [symmetric]]
  obtain e2 g2 where y: "y = Some (e2, g2)" using u1 by (cases y) auto
  obtain g3 fm job where c: "count_request E g2 r1 e (fd_found fd) (dc_empty_file_error (fd_discovery fd)) = (g3, fm, job)"
    by (metis prod_cases3)
  define g4 where "g4 = fail_request g3 r1 e2"
  define z where "z = (if fm then let (request, m) = aws_s3_request_finish_up_metrics_synced r1 (ag_base g4)
      in (request, g4\<lparr>ag_base := m\<rparr>) else (r1, g4))"
  obtain r5 g5 where z: "z = (r5, g5)" by fastforce
  have f: "gf_get f = (if rq_discovers_object_size r5 \<and> ag_object_range_known g5 then s_init_spread_synced g5 else g5)"
    "gf_write_job f = job"
    using u1 unfolding y option.case prod.case c Let_def g4_def [symmetric] z_def [unfolded Let_def, symmetric] z by auto
  have m: "g5 = g4\<lparr>ag_base := ag_base g5\<rparr> \<and> same_parts (ag_base g4) (ag_base g5) \<and>
      num_parts_delivery_completed (ag_base g5) = num_parts_delivery_completed (ag_base g4) \<and>
      bodies (event_delivery_array (ag_base g5)) = bodies (event_delivery_array (ag_base g4)) \<and>
      rq_discovers_object_size r5 = rq_discovers_object_size r1"
  proof (cases fm)
    case True
    obtain r' m' where mm: "aws_s3_request_finish_up_metrics_synced r1 (ag_base g4) = (r', m')" by fastforce
    then have "r5 = r'" "g5 = g4\<lparr>ag_base := m'\<rparr>" using z True by (simp_all add: z_def)
    then show ?thesis using finish_up_metrics_keeps [OF mm] by simp
  next
    case False
    then have "r5 = r1" "g5 = g4" using z by (simp_all add: z_def)
    then show ?thesis by (simp add: same_parts_def same_mask_def)
  qed
  show thesis
    by (rule that [of fd g1 r1 e2 g2 g3 fm "ag_base g5"])
      (use x y c m f in \<open>simp_all add: x_def y_def g4_def [symmetric] Let_def split: if_splits\<close>)
qed

lemma only_discovery:
  assumes "counts_ok g rs" "discovering_ok g rs ps" "r \<in> set rs"
  shows "rs = [r]"
proof -
  have "length rs = length (filter is_head rs) + length (filter (\<lambda>r. \<not> is_head r) rs)"
    by (simp add: sum_length_filter_compl)
  also have "\<dots> \<le> 1"
    using assms(1,2) by (auto simp: counts_ok_def discovering_ok_def word_le_nat_alt split: if_splits)
  finally show ?thesis using assms(3) by (cases rs) auto
qed

lemma discover_empty:
  "s_discover_object_range_and_size E g r e = Some (Inr dc) \<Longrightarrow> dc_empty_file_error dc \<Longrightarrow> dc_object_size dc = 0"
  by (auto simp: s_discover_object_range_and_size_def Let_def split: if_splits option.splits sum.splits prod.splits)

lemma discovery_of:
  assumes "discovery_finished E g r e = Some (fd, g', r')"
  shows "fd_discovery fd = no_discovery \<or> s_discover_object_range_and_size E g r e = Some (Inr (fd_discovery fd))"
proof -
  obtain x where x: "s_discover_object_range_and_size E g r e = Some x"
    using assms by (auto simp: discovery_finished_def split: option.splits)
  show ?thesis
  proof (cases x)
    case (Inl err)
    then show ?thesis using assms x by (auto simp: discovery_finished_def not_found_def)
  next
    case (Inr dc)
    then have "fd_discovery fd = dc"
      using assms x unfolding discovery_finished_def
      by (auto simp: Let_def not_found_def case_prod_beta split: option.splits if_splits)
    then show ?thesis using x Inr by simp
  qed
qed

lemma empty_file_size:
  "discovery_finished E g r e = Some (fd, g', r') \<Longrightarrow> dc_empty_file_error (fd_discovery fd) \<Longrightarrow> dc_object_size (fd_discovery fd) = 0"
  using discovery_of [of E g r e fd g' r'] discover_empty by (auto simp: no_discovery_def)

lemma init_spread_keeps:
  "same_requests g (s_init_spread_synced g)" "same_known g (s_init_spread_synced g)" "ag_base (s_init_spread_synced g) = ag_base g"
  "ag_object_range_empty (s_init_spread_synced g) = ag_object_range_empty g"
  "parts_of_range (s_init_spread_synced g) = parts_of_range g"
  by (simp_all add: s_init_spread_synced_def Let_def same_requests_def same_known_def parts_of_range_def)

lemma length_filter_remove1:
  "r \<in> set rs \<Longrightarrow> length (filter P rs) = length (filter P (remove1 r rs)) + (if P r then 1 else 0)"
  by (induction rs) auto

text \<open>The counters still agree with the requests in flight, without the completed one.\<close>

lemma counts_ok_finished:
  assumes "counts_ok g rs" "r \<in> set rs" "request_counted g r' found no_file g'" "rq_tag r' = rq_tag r"
    and "found \<or> no_file \<Longrightarrow> rs = [r]" "found \<or> no_file \<Longrightarrow> ag_num_parts_completed g = 0"
  shows "counts_ok g' (remove1 r rs)"
proof -
  note n = length_filter_remove1 [OF assms(2), of is_head] length_filter_remove1 [OF assms(2), of "\<lambda>r. \<not> is_head r"]
  have c: "unat (ag_num_parts_requested g) = unat (ag_num_parts_completed g) + length (filter (\<lambda>r. \<not> is_head r) rs)"
    "length (filter is_head rs) = (if ag_head_object_sent g \<and> \<not> ag_head_object_completed g then 1 else 0)"
    "ag_head_object_completed g \<Longrightarrow> ag_head_object_sent g"
    using assms(1) by (simp_all add: counts_ok_def)
  have s: "ag_head_object_sent g' = ag_head_object_sent g" "ag_head_object_completed g' = (is_head r \<or> ag_head_object_completed g)"
    "unat (ag_num_parts_successful g') + unat (ag_num_parts_failed g') = unat (ag_num_parts_completed g')"
    using assms(3,4) by (simp_all add: request_counted_def same_object_def)
  have h: "length (filter is_head (remove1 r rs)) = (if ag_head_object_sent g' \<and> \<not> ag_head_object_completed g' then 1 else 0)"
    "ag_head_object_completed g' \<longrightarrow> ag_head_object_sent g'"
    using c(2,3) n(1) s(1,2) by (cases "is_head r"; cases "ag_head_object_sent g"; cases "ag_head_object_completed g"; simp)+
  consider (head) "is_head r" "ag_num_parts_requested g' = ag_num_parts_requested g" "ag_num_parts_completed g' = ag_num_parts_completed g"
    | (reset) "found \<or> no_file" "ag_num_parts_requested g' = 0" "ag_num_parts_completed g' = ag_num_parts_completed g"
    | (part) "\<not> is_head r" "ag_num_parts_requested g' = ag_num_parts_requested g"
        "unat (ag_num_parts_completed g') = Suc (unat (ag_num_parts_completed g))"
    using assms(3,4) unfolding request_counted_def by (simp split: if_splits) blast+
  then have "unat (ag_num_parts_requested g') = unat (ag_num_parts_completed g') + length (filter (\<lambda>r. \<not> is_head r) (remove1 r rs))"
  proof cases
    case head
    then show ?thesis using c(1) n(2) by simp
  next
    case reset
    then show ?thesis using assms(5,6) by simp
  next
    case part
    then show ?thesis using c(1) n(2) by simp
  qed
  then show ?thesis unfolding counts_ok_def using h s(3) by blast
qed

text \<open>What follows the switch over the tag changes the meta request only.\<close>

lemma same_object_base:
  "same_parts (ag_base g) m \<Longrightarrow> same_object g (g\<lparr>ag_base := m\<rparr>)"
  by (simp add: same_object_def same_parts_def)

lemma same_object_trans: "same_object g g' \<Longrightarrow> same_object g' g'' \<Longrightarrow> same_object g g''"
  by (simp add: same_object_def same_mask_def)

lemma after_count:
  assumes "flow_ok s (ag_base g, ws)" "same_parts (ag_base (fail_request g r e)) m"
    and "num_parts_delivery_completed m = num_parts_delivery_completed (ag_base (fail_request g r e))"
    and "bodies (event_delivery_array m) = bodies (event_delivery_array (ag_base (fail_request g r e)))"
  shows "(fail_request g r e)\<lparr>ag_base := m\<rparr> = g\<lparr>ag_base := m\<rparr>" "flow_ok s (m, ws)" "same_object g (g\<lparr>ag_base := m\<rparr>)"
    "e \<noteq> AWS_ERROR_SUCCESS \<Longrightarrow> finish_result_set m"
proof -
  obtain m1 where 1: "fail_request g r e = g\<lparr>ag_base := m1\<rparr>" "same_parts (ag_base g) m1" "same_flow (ag_base g) m1"
    "e \<noteq> AWS_ERROR_SUCCESS \<Longrightarrow> finish_result_set m1" by (rule fail_request_keeps [of g r e]) blast
  have "flow_ok s (m1, ws)" using assms(1) 1(3) by (simp add: same_flow_ok)
  then show "flow_ok s (m, ws)" using flow_ok_same assms(2-4) 1(1) by simp
  show "(fail_request g r e)\<lparr>ag_base := m\<rparr> = g\<lparr>ag_base := m\<rparr>" by (simp add: 1(1))
  show "same_object g (g\<lparr>ag_base := m\<rparr>)"
    using same_parts_trans [OF 1(2)] assms(2) 1(1) by (intro same_object_base) simp
  show "e \<noteq> AWS_ERROR_SUCCESS \<Longrightarrow> finish_result_set m"
    using 1(1,4) assms(2) by (simp add: same_parts_def)
qed

lemma known_ok_subset: "known_ok g rs ps \<Longrightarrow> set rs' \<subseteq> set rs \<Longrightarrow> known_ok g rs' ps"
  unfolding known_ok_def by blast

text \<open>A part completes.\<close>

lemma get_inv_part_finished:
  assumes "queue_ok rq_part_number (push_request (ge_sink E))" "get_inv w" "r \<in> set (gw_in_flight w)" "answered r r'"
    and "s_s3_auto_ranged_get_request_finished E (gw_get w) r' e = Some f" "ag_object_range_known (gw_get w)"
  shows "get_inv (w\<lparr>gw_get := gf_get f, gw_in_flight := remove1 r (gw_in_flight w),
       gw_writes := gw_writes w @ opt_list (gf_write_job f)\<rparr>)"
proof -
  let ?g = "gw_get w"
  have inv: "counts_ok ?g (gw_in_flight w)" "flow_ok (unat (ag_num_parts_successful ?g)) (ag_base ?g, gw_writes w)"
    "known_ok ?g (gw_in_flight w) (gw_parts w)"
    "\<not> ag_object_range_empty ?g \<and> \<not> finish_result_set (ag_base ?g) \<longrightarrow> mask_for (ag_total_num_parts ?g) (ag_base ?g)"
    using assms(2,6) by (simp_all add: get_inv_def Let_def)
  have r: "is_ranged r'" "\<not> rq_discovers_object_size r'" "is_ranged r"
    using inv(3) assms(3,4) by (auto simp: known_ok_def part_request_ok_def answered_def)
  obtain e2 g3 fm m5 where c: "count_request E ?g r' e False False = (g3, fm, gf_write_job f)"
    and g4: "same_parts (ag_base (fail_request g3 r' e2)) m5"
      "num_parts_delivery_completed m5 = num_parts_delivery_completed (ag_base (fail_request g3 r' e2))"
      "bodies (event_delivery_array m5) = bodies (event_delivery_array (ag_base (fail_request g3 r' e2)))"
      "gf_get f = (fail_request g3 r' e2)\<lparr>ag_base := m5\<rparr>"
    by (rule request_finished_stages [OF assms(5)])
      (use r in \<open>auto simp: not_found_def no_discovery_def Let_def split: if_splits\<close>)
  have part: "unat (ag_num_parts_completed ?g) < unat (ag_num_parts_requested ?g)"
    using inv(1) r(3) length_filter_remove1 [OF assms(3), of "\<lambda>r. \<not> is_head r"] by (simp add: counts_ok_def)
  have k: "request_counted ?g r' False False g3"
    "flow_ok (unat (ag_num_parts_successful g3)) (ag_base g3, gw_writes w @ opt_list (gf_write_job f))"
    using count_request_counted [OF assms(1) c inv(2)] inv(1) part r(1) by (simp_all add: counts_ok_def)
  note a = after_count [OF k(2) g4(1-3)]
  have f: "gf_get f = g3\<lparr>ag_base := m5\<rparr>" using g4(4) a(1) by simp
  have g3: "same_object ?g g3" "ag_num_parts_requested g3 = ag_num_parts_requested ?g" "ag_object_range_known g3"
    using k(1) r(1) assms(6) by (simp_all add: request_counted_def)
  have so: "same_object ?g (gf_get f)" "ag_num_parts_requested (gf_get f) = ag_num_parts_requested ?g"
    "ag_object_range_known (gf_get f)"
    using same_object_trans [OF g3(1) a(3)] g3(2,3) by (simp_all add: f)
  have "counts_ok (gf_get f) (remove1 r (gw_in_flight w))"
    unfolding f ok_base by (rule counts_ok_finished [OF inv(1) assms(3) k(1)]) (use r in simp_all)
  moreover have "known_ok (gf_get f) (remove1 r (gw_in_flight w)) (gw_parts w)"
    unfolding known_ok_same_object [OF so(1,2)] by (rule known_ok_subset [OF inv(3) set_remove1_subset])
  moreover have "\<not> ag_object_range_empty (gf_get f) \<and> \<not> finish_result_set (ag_base (gf_get f)) \<longrightarrow>
      mask_for (ag_total_num_parts (gf_get f)) (ag_base (gf_get f))"
    using inv(4) so(1) mask_for_same by (auto simp: same_object_def)
  ultimately show ?thesis using a(2) so(3) by (simp add: get_inv_def Let_def f)
qed

lemma counts_ok_same: "same_requests g g' \<Longrightarrow> counts_ok g' rs = counts_ok g rs"
  by (simp add: same_requests_def counts_ok_def)

text \<open>What is known after the critical section has recorded a discovery, if there is one.\<close>

lemma recorded:
  assumes "discovery_finished E g r e = Some (fd, g1, r1)"
    and "if fd_found fd then record_discovery E g1 r1 fd mm = Some (e2, g2) else (e2, g2) = (fd_error_code fd, g1)"
    and "\<not> ag_object_range_known g" "ag_total_num_parts g = 0"
  shows "same_requests g g2" "ag_object_range_known g2 = fd_found fd" "answered r r1"
    "fd_found fd \<Longrightarrow> dc_empty_file_error (fd_discovery fd) \<Longrightarrow> ag_total_num_parts g2 = 0"
    "\<not> fd_found fd \<Longrightarrow> ag_total_num_parts g2 = 0"
    "fd_found fd \<Longrightarrow> \<not> ag_object_range_empty g2 \<Longrightarrow> parts_of_range g2 \<and> mask_for (ag_total_num_parts g2) (ag_base g2)"
proof -
  note k = discovery_finished_keeps [OF assms(1)]
  show "answered r r1" by (rule k(3))
  have "same_requests g g2 \<and> ag_object_range_known g2 = fd_found fd \<and>
    (fd_found fd \<longrightarrow> dc_empty_file_error (fd_discovery fd) \<longrightarrow> ag_total_num_parts g2 = 0) \<and>
    (\<not> fd_found fd \<longrightarrow> ag_total_num_parts g2 = 0) \<and>
    (fd_found fd \<longrightarrow> \<not> ag_object_range_empty g2 \<longrightarrow> parts_of_range g2 \<and> mask_for (ag_total_num_parts g2) (ag_base g2))"
  proof (cases "fd_found fd")
    case True
    then have rec: "record_discovery E g1 r1 fd mm = Some (e2, g2)" using assms(2) by simp
    note x = record_discovery_keeps [OF rec]
    have "dc_empty_file_error (fd_discovery fd) \<longrightarrow> ag_total_num_parts g2 = 0"
      using x(3) empty_file_size [OF assms(1)] k(2) assms(4) by (auto simp: same_known_def)
    moreover have "\<not> ag_object_range_empty g2 \<longrightarrow> parts_of_range g2 \<and> mask_for (ag_total_num_parts g2) (ag_base g2)"
      using x(3) by (auto split: if_splits)
    ultimately show ?thesis using True x(2) same_requests_trans(1) [OF k(1) x(1)] by simp
  next
    case False
    then show ?thesis using assms(2-4) k by (simp add: same_known_def)
  qed
  then show "same_requests g g2" "ag_object_range_known g2 = fd_found fd"
    "fd_found fd \<Longrightarrow> dc_empty_file_error (fd_discovery fd) \<Longrightarrow> ag_total_num_parts g2 = 0"
    "\<not> fd_found fd \<Longrightarrow> ag_total_num_parts g2 = 0"
    "fd_found fd \<Longrightarrow> \<not> ag_object_range_empty g2 \<Longrightarrow> parts_of_range g2 \<and> mask_for (ag_total_num_parts g2) (ag_base g2)"
    by blast+
qed

lemma only_request:
  assumes "counts_ok g [r]" "ag_num_parts_requested g \<le> 1" "ag_head_object_sent g \<Longrightarrow> ag_num_parts_requested g = 0"
  shows "ag_num_parts_completed g = 0"
proof (cases "is_head r")
  case True
  then have "ag_head_object_sent g" "unat (ag_num_parts_requested g) = unat (ag_num_parts_completed g)"
    using assms(1) by (simp_all add: counts_ok_def split: if_splits)
  then show ?thesis using assms(3) by (simp add: unat_eq_0)
next
  case False
  then have "unat (ag_num_parts_requested g) = Suc (unat (ag_num_parts_completed g))" using assms(1) by (simp add: counts_ok_def)
  then show ?thesis using assms(2) by (simp add: word_le_nat_alt unat_eq_0)
qed

text \<open>The discovery request completes.\<close>

lemma get_inv_discovery_finished:
  assumes "queue_ok rq_part_number (push_request (ge_sink E))" "get_inv w" "r \<in> set (gw_in_flight w)" "answered r r'"
    and "s_s3_auto_ranged_get_request_finished E (gw_get w) r' e = Some f" "\<not> ag_object_range_known (gw_get w)"
  shows "get_inv (w\<lparr>gw_get := gf_get f, gw_in_flight := remove1 r (gw_in_flight w),
       gw_writes := gw_writes w @ opt_list (gf_write_job f)\<rparr>)"
proof -
  let ?g = "gw_get w"
  have inv: "counts_ok ?g (gw_in_flight w)" "flow_ok (unat (ag_num_parts_successful ?g)) (ag_base ?g, gw_writes w)"
    "discovering_ok ?g (gw_in_flight w) (gw_parts w)"
    using assms(2,6) by (simp_all add: get_inv_def Let_def)
  have rs: "gw_in_flight w = [r]" by (rule only_discovery [OF inv(1,3) assms(3)])
  have r: "rq_discovers_object_size r'" "rq_tag r' = rq_tag r" "is_head r' \<or> is_ranged r' \<or> is_part_1 r'"
    using inv(3) assms(4) unfolding rs by (auto simp: discovering_ok_def answered_def)
  obtain fd g1 r1 e2 g2 g3 fm m5 where d: "discovery_finished E ?g r' e = Some (fd, g1, r1)"
    and rec: "if fd_found fd
     then record_discovery E g1 r1 fd (e = AWS_ERROR_S3_INTERNAL_BUFFER_SIZE_MISMATCH_RETRYING_WITH_RANGE) = Some (e2, g2)
     else (e2, g2) = (fd_error_code fd, g1)"
    and c: "count_request E g2 r1 e (fd_found fd) (dc_empty_file_error (fd_discovery fd)) = (g3, fm, gf_write_job f)"
    and g4: "same_parts (ag_base (fail_request g3 r1 e2)) m5"
      "num_parts_delivery_completed m5 = num_parts_delivery_completed (ag_base (fail_request g3 r1 e2))"
      "bodies (event_delivery_array m5) = bodies (event_delivery_array (ag_base (fail_request g3 r1 e2)))"
      "gf_get f = (let g5 = (fail_request g3 r1 e2)\<lparr>ag_base := m5\<rparr> in
       if rq_discovers_object_size r1 \<and> ag_object_range_known g5 then s_init_spread_synced g5 else g5)"
    by (rule request_finished_stages [OF assms(5)]) (simp only: r(1) if_True)
  let ?nf = "dc_empty_file_error (fd_discovery fd)"
  have g: "ag_total_num_parts ?g = 0" "gw_parts w = []" "ag_num_parts_requested ?g \<le> 1"
    "ag_head_object_sent ?g \<Longrightarrow> ag_num_parts_requested ?g = 0"
    using inv(3) by (simp_all add: discovering_ok_def)
  note k2 = recorded [OF d rec assms(6) g(1)]
  have r1: "rq_tag r1 = rq_tag r" "is_head r1 \<or> is_ranged r1 \<or> is_part_1 r1" "rq_discovers_object_size r1"
    using k2(3) r by (simp_all add: answered_def)
  have c2: "counts_ok g2 [r]" "flow_ok (unat (ag_num_parts_successful g2)) (ag_base g2, gw_writes w)"
    using inv(1,2) counts_ok_same [OF k2(1)] same_flow_ok [of "ag_base ?g" "ag_base g2"] k2(1) unfolding rs
    by (simp_all add: same_requests_def)
  have req: "ag_num_parts_requested g2 = ag_num_parts_requested ?g" "ag_head_object_sent g2 = ag_head_object_sent ?g"
    using k2(1) by (simp_all add: same_requests_def)
  have completed: "ag_num_parts_completed g2 = 0"
    by (rule only_request [OF c2(1)]) (use req g(3,4) in simp_all)
  have k3: "request_counted g2 r1 (fd_found fd) ?nf g3"
    "flow_ok (unat (ag_num_parts_successful g3)) (ag_base g3, gw_writes w @ opt_list (gf_write_job f))"
    using count_request_counted [OF assms(1) c c2(2)] c2(1) r1(1,2) by (auto simp: counts_ok_def)
  note a = after_count [OF k3(2) g4(1-3)]
  define g5 where "g5 = g3\<lparr>ag_base := m5\<rparr>"
  have f: "gf_get f = (if ag_object_range_known g5 then s_init_spread_synced g5 else g5)"
    using g4(4) a(1) r1(3) by (simp add: Let_def g5_def)
  have c5: "counts_ok g5 []" "flow_ok (unat (ag_num_parts_successful g5)) (ag_base g5, gw_writes w @ opt_list (gf_write_job f))"
    "same_object g2 g5"
    using counts_ok_finished [OF c2(1) _ k3(1) r1(1)] completed a(2) same_object_trans [OF _ a(3)] k3(1)
    by (simp_all add: g5_def request_counted_def)
  have known: "ag_object_range_known g5 \<Longrightarrow> fd_found fd" "\<not> ag_object_range_known g5 \<Longrightarrow> ag_total_num_parts g5 = 0"
    "ag_num_parts_requested g5 \<le> 1" "ag_head_object_sent g5 \<Longrightarrow> ag_num_parts_requested g5 = 0"
    using counted_known [OF k3(1)] k2(2,4,5) req g(3,4) c5(3) by (auto simp: g5_def same_object_def)
  show ?thesis
  proof (cases "ag_object_range_known g5")
    case True
    note i = init_spread [OF known(3) refl] init_spread_keeps [of g5]
    have "known_ok (s_init_spread_synced g5) [] []"
      using i known(3) k2(6) [OF known(1) [OF True]] c5(3)
      by (auto simp: known_ok_def asked_def same_known_def same_requests_def same_object_def parts_of_range_def word_le_nat_alt
          intro!: exI [of _ "unat (ag_num_parts_requested g5)"])
    moreover have "\<not> ag_object_range_empty g5 \<longrightarrow> mask_for (ag_total_num_parts g5) (ag_base g5)"
      using k2(6) [OF known(1) [OF True]] c5(3) mask_for_same by (auto simp: same_object_def)
    ultimately show ?thesis
      using True c5(1,2) counts_ok_same [OF i(3)] i(3,4,5,6) rs g(2)
      by (simp add: get_inv_def Let_def f same_known_def same_requests_def)
  next
    case False
    then show ?thesis using c5(1,2) known(2,3,4) rs g(2) by (simp add: get_inv_def Let_def f discovering_ok_def)
  qed
qed

end
