(* ===== verification/S3_Get_Theorems.thy ===== *)
theory S3_Get_Theorems
  imports S3_Get_Inv
begin

section \<open>Properties of a download\<close>

text \<open>
  What holds of every state a download reaches, by the invariant: the requests for parts cut the
  object range into pieces that do not overlap, nothing is in flight when the download ends, and
  success means that every part was delivered. The invariant needs of the environment that the
  priority queue of waiting bodies gives out the least part number first.
\<close>

subsection \<open>Reachable states\<close>

abbreviation queue_fair :: "get_env \<Rightarrow> bool" where
  "queue_fair E \<equiv> queue_ok rq_part_number (push_request (ge_sink E))"

abbreviation download :: "get_env \<Rightarrow> get_world \<Rightarrow> bool" where
  "download E \<equiv> reach (get_initial E) (get_step E)"

lemma get_inv_step:
  assumes "get_step E w w'" "queue_fair E" "get_inv w"
  shows "get_inv w'"
  using assms(1)
proof cases
  case (step_update flags work request g effects)
  then show ?thesis using get_inv_update [OF assms(3)] by simp
next
  case (step_finished r r' error_code f)
  show ?thesis
  proof (cases "ag_object_range_known (gw_get w)")
    case True
    then show ?thesis using get_inv_part_finished [OF assms(2,3)] step_finished by simp
  next
    case False
    then show ?thesis using get_inv_discovery_finished [OF assms(2,3)] step_finished by simp
  qed
next
  case (step_base m ws)
  then show ?thesis using get_inv_base [OF assms(3)] by simp
qed

interpretation gets: invariant_of "get_initial E" "get_step E" "\<lambda>w. queue_fair E \<longrightarrow> get_inv w" for E
  by unfold_locales (auto intro: get_inv_initial get_inv_step)

lemma download_inv: "download E w \<Longrightarrow> queue_fair E \<Longrightarrow> get_inv w"
  using gets.invariant by blast

subsection \<open>An example download\<close>

text \<open>
  Runs of the transition system as functions: one update, the completion of the \<open>i\<close>-th request in
  flight, one run of the delivery task. A call that cannot happen leaves the state as it is.
\<close>

definition after_update :: "get_env \<Rightarrow> get_world \<Rightarrow> get_world" where
  "after_update E w =
     (case s_s3_auto_ranged_get_update E (gw_get w) 0 of
        Some (work, request, g, effects) \<Rightarrow>
          w\<lparr>gw_get := g, gw_in_flight := gw_in_flight w @ opt_list request,
            gw_parts := gw_parts w @ filter (\<lambda>r. \<not> rq_discovers_object_size r) (opt_list request)\<rparr>
      | None \<Rightarrow> w)"

definition after_finished :: "get_env \<Rightarrow> nat \<Rightarrow> (aws_s3_request \<Rightarrow> aws_s3_request) \<Rightarrow> get_world \<Rightarrow> get_world" where
  "after_finished E i answer w =
     (let r = gw_in_flight w ! i; r' = answer r in
      if \<not> (i < length (gw_in_flight w) \<and> answered r r') then w
      else case s_s3_auto_ranged_get_request_finished E (gw_get w) r' AWS_ERROR_SUCCESS of
          None \<Rightarrow> w
        | Some f \<Rightarrow> w\<lparr>gw_get := gf_get f, gw_in_flight := remove1 r (gw_in_flight w),
                      gw_writes := gw_writes w @ opt_list (gf_write_job f)\<rparr>)"

definition after_delivery :: "get_env \<Rightarrow> get_world \<Rightarrow> get_world" where
  "after_delivery E w =
     (case s_s3_meta_request_event_delivery_task (ge_sink E) (ag_base (gw_get w)) of
        None \<Rightarrow> w
      | Some (m, sunk) \<Rightarrow> w\<lparr>gw_get := (gw_get w)\<lparr>ag_base := m\<rparr>, gw_writes := gw_writes w\<rparr>)"

lemma download_after:
  assumes "download E w"
  shows "download E (after_update E w)" "download E (after_finished E i answer w)" "download E (after_delivery E w)"
proof -
  show "download E (after_update E w)"
    using assms reach_step [OF assms step_update] by (auto simp: after_update_def split: option.splits)
  show "download E (after_finished E i answer w)"
    using assms reach_step [OF assms step_finished [OF nth_mem]] by (auto simp: after_finished_def Let_def split: option.splits)
  show "download E (after_delivery E w)"
    using assms reach_step [OF assms step_base [OF base_deliver]] by (auto simp: after_delivery_def split: option.splits)
qed

text \<open>An object of four bytes, found by HEAD, in two parts of two bytes.\<close>

definition example_get_env :: get_env where
  "example_get_env = \<lparr>ge_sink = example_env, ge_str = example_str, ge_xml_parse = (\<lambda>doc. None),
     ge_headers_callback = (\<lambda>hs status. AWS_ERROR_SUCCESS), ge_derive_aligned_buffer_size = (\<lambda>n. n), ge_page_size = 4096\<rparr>"

definition example_checksum_config :: checksum_config_storage where
  "example_checksum_config = zero_checksum_config_storage\<lparr>st_validate_response_checksum := True\<rparr>"

definition example_get_base :: meta_request where
  "example_get_base = example_meta_request\<lparr>read_window_running_total := 100, mr_checksum_config := example_checksum_config\<rparr>"

definition example_get_new :: get_world where
  "example_get_new =
     \<lparr>gw_get = (case aws_s3_meta_request_auto_ranged_get_new example_str example_get_base True False Map.empty None of Inr g \<Rightarrow> g),
      gw_in_flight = [], gw_writes = [], gw_parts = []\<rparr>"

definition example_headers :: headers where
  "example_headers = [g_content_length_header_name \<mapsto> ''4'', g_etag_header_name \<mapsto> ''e'']"

definition example_head :: get_world where
  "example_head = after_update example_get_env example_get_new"

definition example_found :: get_world where
  "example_found = after_finished example_get_env 0 (\<lambda>r. r\<lparr>rq_response_headers := Some example_headers\<rparr>) example_head"

definition example_all_asked :: get_world where
  "example_all_asked = after_update example_get_env (after_update example_get_env example_found)"

definition example_received :: get_world where
  "example_received =
     after_finished example_get_env 0 (\<lambda>r. r\<lparr>rq_response_body := [12, 13]\<rparr>)
       (after_finished example_get_env 0 (\<lambda>r. r\<lparr>rq_response_body := [10, 11]\<rparr>) example_all_asked)"

definition example_delivered :: get_world where
  "example_delivered = after_delivery example_get_env example_received"

lemma example_get_initial: "get_initial example_get_env example_get_new"
  unfolding get_initial_def
  by (rule conjI [OF exI [of _ example_get_base, OF exI [of _ True, OF exI [of _ False, OF exI [of _ Map.empty, OF exI [of _ None]]]]]])
    (simp_all add: example_get_new_def example_get_env_def aws_s3_meta_request_auto_ranged_get_new_def
      example_get_base_def example_meta_request_def Let_def)

lemma example_downloads:
  "download example_get_env example_head" "download example_get_env example_found"
  "download example_get_env example_all_asked" "download example_get_env example_received"
  "download example_get_env example_delivered"
  unfolding example_head_def example_found_def example_all_asked_def example_received_def example_delivered_def
  by (intro download_after reach_init example_get_initial)+

lemma example_headers_eval:
  "aws_s3_parse_content_length_response_header example_headers = Inr 4" "example_headers g_etag_header_name = Some ''e''"
  "example_headers ''Last-Modified'' = None" "aws_s3_extract_parts_from_etag example_str ''e'' = Inr 1"
  "aws_s3_check_headers_for_checksum H example_checksum_config (Some example_headers) = Inr None"
proof -
  have "check_headers_loop H config example_headers as = Inr None"
    if "\<And>a. a \<in> set as \<Longrightarrow> example_headers (aws_get_http_header_name_from_checksum_algorithm a) = None" for as config
    using that by (induction as) auto
  then show "aws_s3_check_headers_for_checksum H example_checksum_config (Some example_headers) = Inr None"
    by (simp add: aws_s3_check_headers_for_checksum_def s_checksum_algo_priority_list_def example_headers_def
        g_content_length_header_name_def g_etag_header_name_def)
qed (simp_all add: example_headers_def g_content_length_header_name_def g_etag_header_name_def example_str_def
    aws_s3_extract_parts_from_etag_def trim_spec_def s_is_quote_or_space_char_def aws_s3_parse_content_length_response_header_def
    scan_u64_def is_space_def digits_value_def is_digit_def digit_value_def)

lemma example_checksum_config_eval:
  "st_validate_response_checksum example_checksum_config"
  "st_response_checksum_validation_mode example_checksum_config = AWS_SCVM_DEFAULT"
  by (simp_all add: example_checksum_config_def zero_checksum_config_storage_def)

lemmas example_get_defs = example_get_new_def aws_s3_meta_request_auto_ranged_get_new_def
  example_get_env_def example_env_def example_get_base_def example_meta_request_def example_client_def
  example_checksum_config_eval example_headers_eval Let_def

lemmas get_update_defs = after_update_def s_s3_auto_ranged_get_update_def get_update_synced_def get_next_work_def
  send_discovery_def s_s3_get_request_type_for_discovering_object_size_def send_head_def get_request_new_def aws_s3_request_new_def
  aws_s3_meta_request_has_finish_result_synced_def s_should_validate_whole_download_def
  AWS_S3_META_REQUEST_UPDATE_FLAG_CONSERVATIVE_def send_part_def s_next_part_number_synced_def read_data_requested_def
  aws_s3_calculate_auto_ranged_get_part_range_def

lemmas get_finished_defs = after_finished_def answered_def s_s3_auto_ranged_get_request_finished_def discovery_finished_def
  s_discover_object_range_and_size_def capture_etag_def
  override_part_size_def discover_checksum_def s_discovery_checksum_covers_download_def limit_express_connections_def
  report_headers_def record_discovery_def check_recv_buffer_def set_object_range_def set_num_parts_def setup_validation_def
  aws_s3_meta_request_setup_checksum_combine_synced_def s_resolve_out_of_order_delivery_def aws_s3_allow_out_of_order_delivery_def
  count_request_def fail_request_def aws_s3_request_finish_up_metrics_synced_def s_init_spread_synced_def
  aws_s3_calculate_auto_ranged_get_num_parts_def 

lemmas get_delivery_defs = not_found_def no_discovery_def part_succeeded_def aws_s3_meta_request_stream_response_body_synced_def
  s_s3_meta_request_body_streaming_push_synced_def s_s3_meta_request_body_streaming_pop_next_synced_def
  stream_ready_bodies.simps aws_s3_meta_request_add_event_for_delivery_synced_def
  after_delivery_def s_s3_meta_request_event_delivery_task_def event_delivery_begin_def deliver_response_body_def deliver_chunk_def
  check_order_def add_to_sum_def to_sink_def count_chunk_def finish_part_def body_len_def s_should_apply_backpressure_def
  s_deliver_body_to_sink_def event_delivery_end_def s_mark_part_delivered_def s_byte_index_holding_part_def s_bit_mask_for_part_def

lemmas get_finish_defs = aws_s3_meta_request_are_events_out_for_delivery_synced_def
  get_set_result_def aws_s3_meta_request_validate_parts_delivered_synced_def s_byte_with_lowest_bits_set_def
  aws_s3_meta_request_set_success_synced_def aws_s3_meta_request_result_setup_def aws_s3_meta_request_finish_default_def
  finish_synced_def s_validate_meta_request_checksum_on_finish_def s_s3_auto_ranged_get_success_status_def

lemma example_all_asked_eval:
  "ag_object_range_known (gw_get example_all_asked)" "\<not> ag_object_range_empty (gw_get example_all_asked)"
  "ag_object_range_start (gw_get example_all_asked) = 0" "ag_object_range_end (gw_get example_all_asked) = 3"
  "ag_first_part_size (gw_get example_all_asked) = 2" "mr_part_size (ag_base (gw_get example_all_asked)) = 2"
  "ag_num_parts_requested (gw_get example_all_asked) = 2" "ag_total_num_parts (gw_get example_all_asked) = 2"
  "length (gw_parts example_all_asked) = 2"
proof -
  note [simp] = example_found_def example_head_def get_update_defs get_finished_defs example_get_defs
  note eval = example_all_asked_def [simplified]
  show "ag_object_range_known (gw_get example_all_asked)" "\<not> ag_object_range_empty (gw_get example_all_asked)"
    "ag_object_range_start (gw_get example_all_asked) = 0" "ag_object_range_end (gw_get example_all_asked) = 3"
    "ag_first_part_size (gw_get example_all_asked) = 2" "mr_part_size (ag_base (gw_get example_all_asked)) = 2"
    "ag_num_parts_requested (gw_get example_all_asked) = 2" "ag_total_num_parts (gw_get example_all_asked) = 2"
    "length (gw_parts example_all_asked) = 2"
    by (simp_all add: eval)
qed

lemma example_delivered_eval:
  "ag_object_range_known (gw_get example_delivered)" "\<not> ag_object_range_empty (gw_get example_delivered)"
  "ag_total_num_parts (gw_get example_delivered) = 2" "\<not> finish_result_set (ag_base (gw_get example_delivered))"
  "\<exists>g' effects result. s_s3_auto_ranged_get_update example_get_env (gw_get example_delivered) 0 = Some (False, None, g', Some effects) \<and>
     fe_finish effects = Some result \<and> res_error_code result = AWS_ERROR_SUCCESS"
proof -
  note [simp] = example_received_def example_all_asked_def example_found_def example_head_def
    get_update_defs get_finished_defs get_delivery_defs example_get_defs
  note eval = example_delivered_def [simplified]
  show "ag_object_range_known (gw_get example_delivered)" "\<not> ag_object_range_empty (gw_get example_delivered)"
    "ag_total_num_parts (gw_get example_delivered) = 2" "\<not> finish_result_set (ag_base (gw_get example_delivered))"
    "\<exists>g' effects result. s_s3_auto_ranged_get_update example_get_env (gw_get example_delivered) 0 = Some (False, None, g', Some effects) \<and>
       fe_finish effects = Some result \<and> res_error_code result = AWS_ERROR_SUCCESS"
    by (simp_all add: eval get_finish_defs)
qed

lemma example_get_fair: "queue_fair example_get_env"
  using example_env_ok by (simp add: example_get_env_def)

subsection \<open>The parts asked for\<close>

definition covers :: "u64 \<Rightarrow> aws_s3_request \<Rightarrow> bool" where
  "covers k r \<longleftrightarrow> rq_part_range_start r \<le> k \<and> k \<le> rq_part_range_end r"

abbreviation get_range_ok :: "auto_ranged_get \<Rightarrow> bool" where
  "get_range_ok g \<equiv> range_ok (ag_object_range_start g) (ag_object_range_end g) (mr_part_size (ag_base g)) (ag_first_part_size g)"

abbreviation get_part_range :: "auto_ranged_get \<Rightarrow> u32 \<Rightarrow> u64 \<times> u64" where
  "get_part_range g \<equiv> aws_s3_calculate_auto_ranged_get_part_range (ag_object_range_start g) (ag_object_range_end g)
     (mr_part_size (ag_base g)) (ag_first_part_size g)"

lemma asked_request:
  assumes "distinct (asked ps)" "r \<in> set ps" "r' \<in> set ps" "rq_part_number r = rq_part_number r'"
  shows "r = r'"
  using assms by (auto simp: asked_def distinct_map inj_on_def)

lemma asked_unique:
  assumes "known_ok g rs ps" "parts_of_range g" "get_range_ok g" "r \<in> set ps" "r' \<in> set ps"
    and "covers k r" "covers k r'" "ag_object_range_start g \<le> k" "k \<le> ag_object_range_end g"
  shows "r = r'"
proof -
  have "1 \<le> rq_part_number x \<and> rq_part_number x \<le> ag_total_num_parts g" if "x \<in> set ps" for x
    using assms(1) that by (auto simp: known_ok_def asked_def word_le_nat_alt)
  then have "rq_part_number r = rq_part_number r'"
    using exactly_one_part_covers [OF assms(3,8,9)] assms(1,2,4-7)
    unfolding known_ok_def part_request_ok_def covers_def parts_of_range_def by (metis fst_conv snd_conv)
  then show ?thesis using asked_request assms(1,4,5) by (auto simp: known_ok_def)
qed

lemma all_asked:
  assumes "known_ok g rs ps" "ag_num_parts_requested g = ag_total_num_parts g"
  obtains d where "d \<le> 1" "{1..unat (ag_total_num_parts g)} = {1..d} \<union> set (asked ps)" "set (asked ps) \<inter> {1..d} = {}"
    "length ps + d = unat (ag_total_num_parts g)"
proof -
  obtain d where d: "d \<le> 1" "handed_out g = {1..d} \<union> set (asked ps)" "set (asked ps) \<inter> {1..d} = {}"
    using assms(1) by (auto simp: known_ok_def)
  then have u: "{1..unat (ag_total_num_parts g)} = {1..d} \<union> set (asked ps)"
    using handed_out_all [OF _ assms(2)] assms(1) by (simp add: known_ok_def)
  have "card (set (asked ps)) = length ps"
    using assms(1) distinct_card [of "asked ps"] by (simp add: known_ok_def asked_def)
  then have "unat (ag_total_num_parts g) = d + length ps"
    using arg_cong [OF u, of card] d(3) by (subst (asm) card_Un_disjoint) auto
  then show thesis using that d u by simp
qed

lemma asked_covers:
  assumes "known_ok g rs ps" "parts_of_range g" "get_range_ok g" "ag_num_parts_requested g = ag_total_num_parts g"
    and "ag_object_range_start g \<le> k" "k \<le> ag_object_range_end g"
  shows "if unat (ag_num_parts_requested g) = Suc (length ps) \<and> k \<le> snd (get_part_range g 1)
    then \<forall>r \<in> set ps. \<not> covers k r else \<exists>!r. r \<in> set ps \<and> covers k r"
proof -
  obtain d where d: "d \<le> 1" "{1..unat (ag_total_num_parts g)} = {1..d} \<union> set (asked ps)" "set (asked ps) \<inter> {1..d} = {}"
    "length ps + d = unat (ag_total_num_parts g)"
    by (rule all_asked [OF assms(1,4)])
  have covers: "covers k r \<longleftrightarrow> fst (get_part_range g (rq_part_number r)) \<le> k \<and> k \<le> snd (get_part_range g (rq_part_number r))"
    if "r \<in> set ps" for r
    using assms(1) that unfolding known_ok_def part_request_ok_def covers_def by (metis fst_conv snd_conv)
  have num: "1 \<le> rq_part_number x \<and> rq_part_number x \<le> ag_total_num_parts g" if "x \<in> set ps" for x
    using assms(1) that by (auto simp: known_ok_def asked_def word_le_nat_alt)
  note one = exactly_one_part_covers [OF assms(3,5,6), folded assms(2) [unfolded parts_of_range_def]]
  from one obtain n where n: "1 \<le> n" "n \<le> ag_total_num_parts g" "fst (get_part_range g n) \<le> k" "k \<le> snd (get_part_range g n)"
    by blast
  have first: "fst (get_part_range g 1) \<le> k" using assms(5) by (simp add: part_range_first)
  show ?thesis
  proof (cases "unat (ag_num_parts_requested g) = Suc (length ps) \<and> k \<le> snd (get_part_range g 1)")
    case True
    then have "1 \<notin> rq_part_number ` set ps" using d(3,4) assms(4) by (force simp: asked_def)
    moreover have "1 \<le> ag_total_num_parts g" using n(1,2) by (rule order_trans)
    ultimately have "\<not> covers k r" if "r \<in> set ps" for r
      using one num [OF that] covers [OF that] first True that by (metis imageI order_refl)
    then show ?thesis using True by auto
  next
    case False
    have "n = 1" "d = 1" if "unat n \<in> {1..d}"
      using that d(1) by (auto simp: word_unat_eq_iff)
    then have "unat n \<notin> {1..d}" using False d(4) assms(4) n(4) by auto
    then have "unat n \<in> set (asked ps)" using d(2) n(1,2) by (auto simp: word_le_nat_alt)
    then obtain r where r: "r \<in> set ps" "rq_part_number r = n" by (auto simp: asked_def word_unat_eq_iff)
    have "\<exists>!r. r \<in> set ps \<and> covers k r"
    proof (rule ex1I [of _ r])
      show "r \<in> set ps \<and> covers k r" using covers r n(3,4) by simp
    next
      fix r' assume r': "r' \<in> set ps \<and> covers k r'"
      then show "r' = r" using asked_unique [OF assms(1-3) _ r(1) _ _ assms(5,6), of r'] covers r n(3,4) by simp
    qed
    then show ?thesis unfolding if_not_P [OF False] .
  qed
qed

text \<open>
  C26. In every state a download reaches once the object range is known and not empty, the requests for
  parts have distinct numbers between 1 and the number of parts of the range, and each asks for the
  range of its part. When all parts are requested, every byte of the object range is asked for by
  exactly one of them, except when the request that discovered the object was counted as part 1: then the bytes of part 1
  are asked for by none of them, and every byte behind part 1 by exactly one. What the discovery request itself asks for
  is not part of the claim. The range is assumed to be one whose arithmetic does not wrap (\<open>get_range_ok\<close>: the range
  and the sizes are not empty, no sum reaches \<open>2^64\<close> and there are fewer than \<open>2^32\<close> parts), and the priority queue to
  work as documented.
\<close>

theorem part_requests_partition_object:
  assumes "download E w" "queue_fair E" "g = gw_get w"
    and "ag_object_range_known g" "\<not> ag_object_range_empty g" "get_range_ok g"
  shows "distinct (map rq_part_number (gw_parts w)) \<and>
    (\<forall>r \<in> set (gw_parts w). 1 \<le> rq_part_number r \<and>
       rq_part_number r \<le> aws_s3_calculate_auto_ranged_get_num_parts (mr_part_size (ag_base g)) (ag_first_part_size g)
         (ag_object_range_start g) (ag_object_range_end g) \<and>
       (rq_part_range_start r, rq_part_range_end r) = get_part_range g (rq_part_number r)) \<and>
    (ag_num_parts_requested g = ag_total_num_parts g \<longrightarrow>
     (\<forall>k. ag_object_range_start g \<le> k \<and> k \<le> ag_object_range_end g \<longrightarrow>
       (if unat (ag_num_parts_requested g) = Suc (length (gw_parts w)) \<and> k \<le> snd (get_part_range g 1)
        then \<forall>r \<in> set (gw_parts w). \<not> covers k r else \<exists>!r. r \<in> set (gw_parts w) \<and> covers k r)))"
proof -
  have k: "known_ok g (gw_in_flight w) (gw_parts w)"
    using download_inv [OF assms(1,2)] assms(3,4) by (simp add: get_inv_def Let_def)
  then have p: "parts_of_range g" using assms(5) by (simp add: known_ok_def)
  have "distinct (map rq_part_number (gw_parts w))"
    using k by (auto simp: known_ok_def asked_def distinct_map inj_on_def)
  moreover have "\<forall>r \<in> set (gw_parts w). 1 \<le> rq_part_number r \<and> rq_part_number r \<le> ag_total_num_parts g \<and>
      (rq_part_range_start r, rq_part_range_end r) = get_part_range g (rq_part_number r)"
    using k by (auto simp: known_ok_def asked_def word_le_nat_alt part_request_ok_def)
  ultimately show ?thesis using asked_covers [OF k p assms(6)] p unfolding parts_of_range_def by simp
qed

theorem part_requests_partition_object_witness:
  "download example_get_env example_all_asked \<and> length (gw_parts example_all_asked) = 2 \<and>
   (\<exists>!r. r \<in> set (gw_parts example_all_asked) \<and> covers 2 r)"
proof -
  let ?g = "gw_get example_all_asked"
  have ok: "get_range_ok ?g"
    by (simp add: example_all_asked_eval range_ok_def num_parts_spec_def div_ceil_def)
  show ?thesis
    using part_requests_partition_object [OF example_downloads(3) example_get_fair refl example_all_asked_eval(1,2) ok]
      example_downloads(3) by (simp add: example_all_asked_eval)
qed

subsection \<open>The end of a download\<close>

lemma quiet:
  assumes "get_inv w" "get_next_work (gw_get w) flags = (False, request, g')"
  shows "gw_in_flight w = []" "gw_writes w = []"
proof -
  let ?g = "gw_get w"
  have inv: "counts_ok ?g (gw_in_flight w)" "flow_ok (unat (ag_num_parts_successful ?g)) (ag_base ?g, gw_writes w)"
    using assms(1) by (simp_all add: get_inv_def Let_def)
  have done_: "if finish_result_set (ag_base ?g)
      then \<not> (ag_head_object_sent ?g \<and> \<not> ag_head_object_completed ?g) \<and> ag_num_parts_requested ?g \<le> ag_num_parts_completed ?g
      else ag_object_range_known ?g \<and> ag_total_num_parts ?g \<le> ag_num_parts_requested ?g \<and>
        ag_total_num_parts ?g \<le> num_parts_delivery_completed (ag_base ?g)"
    "num_parts_delivery_sent (ag_base ?g) \<le> num_parts_delivery_completed (ag_base ?g)"
    by (rule next_work_cases [OF assms(2)]; blast)+
  have "length (gw_writes w) = 0" using inv(2) done_(2) unfolding flow_ok_def word_le_nat_alt prod.case by linarith
  then show "gw_writes w = []" by simp
  have none: "gw_in_flight w = []" if "filter (\<lambda>r. \<not> is_head r) (gw_in_flight w) = []" "filter is_head (gw_in_flight w) = []"
    using that by (metis (no_types, lifting) filter_empty_conv neq_Nil_conv list.set_intros(1))
  show "gw_in_flight w = []"
  proof (cases "finish_result_set (ag_base ?g)")
    case True
    then show ?thesis using inv(1) done_(1) by (intro none) (auto simp: counts_ok_def word_le_nat_alt)
  next
    case False
    then have k: "known_ok ?g (gw_in_flight w) (gw_parts w)" using assms(1) done_(1) by (simp add: get_inv_def Let_def)
    show ?thesis
    proof (cases "ag_total_num_parts ?g = 0")
      case True
      then show ?thesis using k by (auto simp: known_ok_def)
    next
      case total: False
      then have "1 \<le> ag_total_num_parts ?g" by (simp add: word_le_nat_alt Suc_le_eq unat_gt_0)
      then have "ag_num_parts_requested ?g \<le> ag_total_num_parts ?g"
        using k unfolding known_ok_def by (meson order_trans)
      moreover have "unat (ag_total_num_parts ?g) \<le> unat (ag_num_parts_completed ?g)"
        using inv done_ [unfolded if_not_P [OF False]] unfolding counts_ok_def flow_ok_def word_le_nat_alt prod.case by linarith
      ultimately have "length (filter (\<lambda>r. \<not> is_head r) (gw_in_flight w)) = 0"
        using inv(1) unfolding counts_ok_def word_le_nat_alt by linarith
      moreover have "\<not> is_head r" if "r \<in> set (gw_in_flight w)" for r
        using k that by (auto simp: known_ok_def part_request_ok_def)
      ultimately show ?thesis by (auto simp: filter_empty_conv)
    qed
  qed
qed

text \<open>
  C27. When an update of a download reports that no work remains, no request is in flight and no write
  worker holds a body; the update sends nothing, no event is left to deliver, and the download is
  finished with a result.
\<close>

theorem finished_download_is_quiet:
  assumes "download E w" "queue_fair E"
    and "s_s3_auto_ranged_get_update E (gw_get w) flags = Some (False, request, g', effects)"
  shows "gw_in_flight w = [] \<and> gw_writes w = [] \<and> request = None \<and> event_delivery_array (ag_base g') = [] \<and>
    num_parts_delivery_completed (ag_base g') = num_parts_delivery_sent (ag_base g') \<and>
    mr_state (ag_base g') = AWS_S3_META_REQUEST_STATE_FINISHED \<and> finish_result_set (ag_base g')"
  using assms(3)
proof (cases rule: update_cases)
  case (finish g1)
  have inv: "get_inv w" by (rule download_inv [OF assms(1,2)])
  note q = quiet [OF inv finish(3)]
  obtain b where g1: "g1 = (gw_get w)\<lparr>ag_read_window_warning_issued := b\<rparr>"
    using finish(3) by (cases rule: next_work_cases) simp_all
  have "same_flow (ag_base (gw_get w)) (ag_base (get_set_result g1))"
    using set_result_keeps(1) [OF refl, of g1] by (simp add: g1)
  then have "event_delivery_array (ag_base g') = event_delivery_array (ag_base g1)"
    "num_parts_delivery_completed (ag_base g') = num_parts_delivery_completed (ag_base (gw_get w))"
    "num_parts_delivery_sent (ag_base g') = num_parts_delivery_sent (ag_base (gw_get w))"
    using finish_keeps(1) [OF finish(5)] by (auto simp: same_flow_def g1)
  moreover have "event_delivery_array (ag_base g1) = []"
    using finish(4) by (simp add: aws_s3_meta_request_are_events_out_for_delivery_synced_def)
  moreover have "bodies (event_delivery_array (ag_base (gw_get w))) = 0"
    using finish(4) by (simp add: aws_s3_meta_request_are_events_out_for_delivery_synced_def g1 bodies_def)
  then have "num_parts_delivery_completed (ag_base (gw_get w)) = num_parts_delivery_sent (ag_base (gw_get w))"
    using inv q(2) by (auto simp: get_inv_def Let_def flow_ok_def word_unat_eq_iff)
  ultimately show ?thesis
    using q finish(2) finish_keeps(3,4) [OF finish(5)] set_result_keeps(3) [OF refl, of g1] by simp
qed simp

theorem finished_download_is_quiet_witness:
  "\<exists>g' effects. s_s3_auto_ranged_get_update example_get_env (gw_get example_delivered) 0 = Some (False, None, g', effects) \<and>
     gw_in_flight example_delivered = [] \<and> mr_state (ag_base g') = AWS_S3_META_REQUEST_STATE_FINISHED"
  using example_delivered_eval(5) finished_download_is_quiet [OF example_downloads(5) example_get_fair] by blast

lemma validated_code:
  assumes "s_validate_meta_request_checksum_on_finish H m = Some (c, m')" "res_error_code (finish_result m') = AWS_ERROR_SUCCESS"
  shows "res_error_code (finish_result m) = AWS_ERROR_SUCCESS"
proof (rule ccontr)
  assume "res_error_code (finish_result m) \<noteq> AWS_ERROR_SUCCESS"
  then have "finish_result m' = finish_result m"
    using assms(1) by (auto simp: s_validate_meta_request_checksum_on_finish_def)
  then show False using assms(2) \<open>res_error_code (finish_result m) \<noteq> AWS_ERROR_SUCCESS\<close> by simp
qed

lemma finish_synced_code:
  assumes "finish_synced H build m = Some (Some (m', result, rest))" "res_error_code result = AWS_ERROR_SUCCESS"
  shows "res_error_code (finish_result m) = AWS_ERROR_SUCCESS"
proof -
  have st: "mr_state m \<noteq> AWS_S3_META_REQUEST_STATE_FINISHED" using assms(1) by (auto simp: finish_synced_def)
  obtain c m1 where v: "s_validate_meta_request_checksum_on_finish H (m\<lparr>mr_state := AWS_S3_META_REQUEST_STATE_FINISHED\<rparr>) = Some (c, m1)"
    using assms(1) st by (auto simp: finish_synced_def split: option.splits)
  have "result = finish_result m1"
    using assms(1) st unfolding finish_synced_def v Let_def
    by (simp only: if_False option.case prod.case case_prod_beta option.inject prod.inject fst_conv snd_conv)
  then show ?thesis using validated_code [OF v] assms(2) by simp
qed

lemma finish_code:
  assumes "aws_s3_meta_request_finish_default H build cb m = Some (m', Some effects)" "fe_finish effects = Some result"
    and "res_error_code result = AWS_ERROR_SUCCESS"
  shows "res_error_code (finish_result m) = AWS_ERROR_SUCCESS"
proof -
  obtain m1 result0 rest where s: "finish_synced H build m = Some (Some (m1, result0, rest))"
    using assms(1) unfolding aws_s3_meta_request_finish_default_def by (auto split: option.splits)
  obtain a b c d e f where rest: "rest = (a, b, c, d, e, f)" by (metis prod_cases6)
  have "fe_finish effects = fe_finish (the (snd (the (aws_s3_meta_request_finish_default H build cb m))))"
    using assms(1) by simp
  then have "res_error_code result = res_error_code result0 \<or> res_error_code result \<noteq> AWS_ERROR_SUCCESS"
    unfolding aws_s3_meta_request_finish_default_def s rest option.case prod.case Let_def option.sel snd_conv
      finish_effects.simps assms(2)
    by (auto split: if_splits option.splits)
  then show ?thesis using finish_synced_code [OF s] assms(3) by simp
qed

lemma mask_for_ok:
  assumes "mask_for n m" "unat n + 7 < 2 ^ 32"
  shows "mask_ok m"
proof -
  have "unat (ucast n + 7 :: usize) = unat n + 7"
    using assms(2) unat_lt2p32 [of n] by (subst unat_add_nowrap) (simp_all add: unsigned_ucast_eq take_bit_nat_eq_self)
  then have "unat ((ucast n + 7 :: usize) div 8) = (unat n + 7) div 8" by (simp add: unat_div)
  moreover have "(unat n + 7) div 8 < 2 ^ 32" using assms(2) by linarith
  ultimately have "unat (ucast ((ucast n + 7 :: usize) div 8) :: u32) = (unat n + 7) div 8"
    by (simp add: unsigned_ucast_eq take_bit_nat_eq_self)
  then show ?thesis using assms by (auto simp: mask_for_def mask_ok_def)
qed

lemma set_result_code:
  assumes "\<not> finish_result_set (ag_base g)" "res_error_code (finish_result (ag_base (get_set_result g))) = AWS_ERROR_SUCCESS"
  shows "aws_s3_meta_request_validate_parts_delivered_synced (ag_base g) = AWS_ERROR_SUCCESS"
  using assms by (auto simp: get_set_result_def Let_def aws_s3_meta_request_has_finish_result_synced_def
      aws_s3_meta_request_set_fail_synced_def aws_s3_meta_request_set_success_synced_def
      aws_s3_meta_request_result_setup_def split: if_splits)

text \<open>
  C28. When the update that ends a download of a range that is not empty reports success to the user, every
  part of the range was delivered: the parts marked as delivered are exactly the parts from 1 to the
  number of parts that the range is cut into. (An error set earlier is reported as it is; the update
  concerned is one that finds no result set.)
\<close>

theorem successful_download_delivered_all_parts:
  assumes "download E w" "queue_fair E" "g = gw_get w" "ag_object_range_known g" "\<not> ag_object_range_empty g"
    and "\<not> finish_result_set (ag_base g)" "unat (ag_total_num_parts g) + 7 < 2 ^ 32"
    and "s_s3_auto_ranged_get_update E g flags = Some (False, request, g', Some effects)"
    and "fe_finish effects = Some result" "res_error_code result = AWS_ERROR_SUCCESS"
  shows "ag_total_num_parts g = aws_s3_calculate_auto_ranged_get_num_parts (mr_part_size (ag_base g)) (ag_first_part_size g)
      (ag_object_range_start g) (ag_object_range_end g) \<and>
    delivered (ag_base g) = {1..unat (ag_total_num_parts g)}"
  using assms(8)
proof (cases rule: update_cases)
  case (finish g1)
  obtain b where g1: "g1 = g\<lparr>ag_read_window_warning_issued := b\<rparr>"
    using finish(3) by (cases rule: next_work_cases) simp_all
  have inv: "known_ok g (gw_in_flight w) (gw_parts w)" "mask_for (ag_total_num_parts g) (ag_base g)"
    using download_inv [OF assms(1,2)] assms(3-6) by (simp_all add: get_inv_def Let_def)
  have "aws_s3_meta_request_validate_parts_delivered_synced (ag_base g) = AWS_ERROR_SUCCESS"
    using set_result_code [of g1] finish_code [OF finish(5) assms(9,10)] assms(6) by (simp add: g1)
  then have "delivered (ag_base g) = {1..unat (parts_delivered_mask_num_parts (ag_base g))}"
    using validate_iff [OF mask_for_ok [OF inv(2) assms(7)]] by simp
  then show ?thesis using inv assms(5) by (simp add: mask_for_def known_ok_def parts_of_range_def)
qed simp

theorem successful_download_delivered_all_parts_witness:
  "download example_get_env example_delivered \<and> delivered (ag_base (gw_get example_delivered)) = {1..2}"
proof -
  let ?g = "gw_get example_delivered"
  obtain g' effects result where u: "s_s3_auto_ranged_get_update example_get_env ?g 0 = Some (False, None, g', Some effects)"
    "fe_finish effects = Some result" "res_error_code result = AWS_ERROR_SUCCESS"
    using example_delivered_eval(5) by blast
  show ?thesis
    using successful_download_delivered_all_parts [OF example_downloads(5) example_get_fair refl example_delivered_eval(1,2,4) _ u]
      example_downloads(5) by (simp add: example_delivered_eval)
qed

subsection \<open>A validation that never was\<close>

lemma get_new_more:
  assumes "aws_s3_meta_request_auto_ranged_get_new S base part_size_set dynamic hs hint = Inr g"
  shows "ag_num_parts_checksum_validated g = 0" "ag_validation_algorithm g = AWS_SCA_NONE"
    "\<exists>a b. ag_base g = base\<lparr>mr_requested_range_start := a, mr_requested_range_start_resolved := b\<rparr>"
proof -
  let ?P = "if hs g_range_header_name \<noteq> None then aws_s3_parse_request_range_header S hs else Inr (False, False, 0, 0)"
  have "\<exists>x. ?P = Inr x"
    using assms unfolding aws_s3_meta_request_auto_ranged_get_new_def Let_def by (cases ?P) (simp_all only: sum.case sum.distinct, blast)
  then obtain has_start has_end range_start range_end where p: "?P = Inr (has_start, has_end, range_start, range_end)"
    by (metis prod_cases4)
  note g = assms [unfolded aws_s3_meta_request_auto_ranged_get_new_def Let_def p sum.case prod.case case_prod_beta
      sum.inject, symmetric]
  show "ag_num_parts_checksum_validated g = 0" "ag_validation_algorithm g = AWS_SCA_NONE" by (simp_all add: g)
  have "ag_base g = base\<lparr>mr_requested_range_start := mr_requested_range_start (ag_base g),
      mr_requested_range_start_resolved := mr_requested_range_start_resolved (ag_base g)\<rparr>" by (simp add: g)
  then show "\<exists>a b. ag_base g = base\<lparr>mr_requested_range_start := a, mr_requested_range_start_resolved := b\<rparr>" by (intro exI)
qed

lemma finish_reports_error:
  assumes "mr_state m \<noteq> AWS_S3_META_REQUEST_STATE_FINISHED" "mr_has_finish_callback m"
    and "res_error_code (finish_result m) \<noteq> AWS_ERROR_SUCCESS" "res_error_response_headers (finish_result m) = None"
  shows "\<exists>m' effects. aws_s3_meta_request_finish_default H build cb m = Some (m', Some effects) \<and>
    fe_finish effects = Some (finish_result m)"
proof -
  have v: "s_validate_meta_request_checksum_on_finish H (m\<lparr>mr_state := AWS_S3_META_REQUEST_STATE_FINISHED\<rparr>) =
      Some (False, m\<lparr>mr_state := AWS_S3_META_REQUEST_STATE_FINISHED, mr_running_response_sum := None, mr_response_header_checksum := ''''\<rparr>)"
    using assms(3) by (simp add: s_validate_meta_request_checksum_on_finish_def)
  obtain m1 rest where "finish_synced H build m = Some (Some (m1, finish_result m, rest))" "mr_has_finish_callback m1"
    using assms(1,2) unfolding finish_synced_def v Let_def option.case prod.case case_prod_beta by simp
  then obtain a b c d e f where s: "finish_synced H build m = Some (Some (m1, finish_result m, a, b, c, d, e, f))"
    "mr_has_finish_callback m1"
    by (metis prod_cases6)
  obtain m' effects where r: "aws_s3_meta_request_finish_default H build cb m = Some (m', Some effects)"
    unfolding aws_s3_meta_request_finish_default_def s(1) option.case prod.case Let_def by blast
  then have "fe_finish effects = fe_finish (the (snd (the (aws_s3_meta_request_finish_default H build cb m))))" by simp
  then have "fe_finish effects = Some (finish_result m)"
    using s(2) assms(4) unfolding aws_s3_meta_request_finish_default_def s(1) option.case prod.case Let_def option.sel snd_conv
      finish_effects.simps by (simp split: if_splits option.splits)
  then show ?thesis using r by blast
qed

text \<open>
  C29. A download that is cancelled before it sent a request finishes with the error
  \<open>AWS_ERROR_S3_CANCELED\<close> and yet reports that the response was validated, with the checksum algorithm
  \<open>AWS_SCA_NONE\<close>: the number of parts validated equals the number of parts requested, both zero.
\<close>

theorem cancelled_download_reports_validation:
  assumes "aws_s3_meta_request_auto_ranged_get_new S base part_size_set dynamic hs hint = Inr g"
    and "\<not> finish_result_set base" "finish_result base = zero_result" "mr_state base = AWS_S3_META_REQUEST_STATE_ACTIVE"
      "event_delivery_array base = []" "\<not> event_delivery_active base" "num_parts_delivery_sent base = 0"
      "mr_has_finish_callback base"
    and "m = fst (aws_s3_meta_request_cancel (ag_base g))"
  shows "\<exists>g' effects result. s_s3_auto_ranged_get_update E (g\<lparr>ag_base := m\<rparr>) flags = Some (False, None, g', Some effects) \<and>
    fe_finish effects = Some result \<and> res_error_code result = AWS_ERROR_S3_CANCELED \<and>
    res_did_validate result \<and> res_validation_algorithm result = AWS_SCA_NONE"
proof -
  obtain a b where base: "ag_base g = base\<lparr>mr_requested_range_start := a, mr_requested_range_start_resolved := b\<rparr>"
    using get_new_more(3) [OF assms(1)] by blast
  note f = get_new_fields [OF assms(1)] get_new_more(1,2) [OF assms(1)]
  have m: "m = (ag_base g)\<lparr>finish_result_set := True, finish_result := zero_result\<lparr>res_error_code := AWS_ERROR_S3_CANCELED\<rparr>,
      cancellable_http_streams := []\<rparr>"
    using assms(2,3,9) by (simp add: base aws_s3_meta_request_cancel_def aws_s3_meta_request_set_fail_synced_def
        aws_s3_meta_request_result_setup_def aws_s3_meta_request_cancel_cancellable_requests_synced_def Let_def zero_result_def)
  let ?result = "zero_result\<lparr>res_error_code := AWS_ERROR_S3_CANCELED, res_did_validate := True\<rparr>"
  define g1 where "g1 = g\<lparr>ag_base := m\<lparr>finish_result := ?result\<rparr>\<rparr>"
  have u: "get_update_synced (g\<lparr>ag_base := m\<rparr>) flags = (False, None, g1)"
  proof -
    have "finish_result_set m" "finish_result m = zero_result\<lparr>res_error_code := AWS_ERROR_S3_CANCELED\<rparr>"
      "\<not> aws_s3_meta_request_are_events_out_for_delivery_synced m" "num_parts_delivery_sent m = 0"
      using assms(5-7) by (simp_all add: m base aws_s3_meta_request_are_events_out_for_delivery_synced_def)
    moreover have "get_next_work (g\<lparr>ag_base := m\<rparr>) flags = (False, None, g\<lparr>ag_base := m\<rparr>)"
      using calculation(1,4) f by (simp add: get_next_work_def Let_def aws_s3_meta_request_has_finish_result_synced_def)
    moreover have "get_set_result (g\<lparr>ag_base := m\<rparr>) = g1"
      using calculation(1,2) f(1) f(13,14) by (simp add: get_set_result_def Let_def g1_def
          aws_s3_meta_request_has_finish_result_synced_def aws_s3_meta_request_set_success_synced_def zero_result_def)
    ultimately show ?thesis by (simp add: get_update_synced_def)
  qed
  have fields: "res_error_code ?result \<noteq> AWS_ERROR_SUCCESS" "res_error_response_headers ?result = None"
    by (simp_all add: zero_result_def)
  have "mr_state (ag_base g1) \<noteq> AWS_S3_META_REQUEST_STATE_FINISHED" "mr_has_finish_callback (ag_base g1)"
    "finish_result (ag_base g1) = ?result" using assms(4,8) by (simp_all add: g1_def m base)
  then obtain m' effects where "aws_s3_meta_request_finish_default (ge_hash E)
      (Some (\<lambda>m. Some (s_build_download_resume_token_synced (g1\<lparr>ag_base := m\<rparr>)))) (ge_headers_callback E) (ag_base g1) =
      Some (m', Some effects)" "fe_finish effects = Some ?result"
    using finish_reports_error [of "ag_base g1"] by (metis fields)
  then show ?thesis unfolding s_s3_auto_ranged_get_update_def u by (simp add: zero_result_def)
qed

theorem cancelled_download_reports_validation_witness:
  "\<exists>g' effects result. s_s3_auto_ranged_get_update example_get_env ((gw_get example_get_new)
      \<lparr>ag_base := fst (aws_s3_meta_request_cancel (ag_base (gw_get example_get_new)))\<rparr>) 0 = Some (False, None, g', Some effects) \<and>
    fe_finish effects = Some result \<and> res_error_code result = AWS_ERROR_S3_CANCELED \<and>
    res_did_validate result \<and> res_validation_algorithm result = AWS_SCA_NONE"
proof -
  have "aws_s3_meta_request_auto_ranged_get_new example_str example_get_base True False Map.empty None = Inr (gw_get example_get_new)"
    by (simp add: example_get_new_def aws_s3_meta_request_auto_ranged_get_new_def Let_def example_get_base_def example_meta_request_def)
  then show ?thesis
    by (rule cancelled_download_reports_validation [OF _ _ _ _ _ _ _ _ refl])
      (simp_all add: example_get_base_def example_meta_request_def zero_result_def)
qed

end
