(* ===== verification/S3_Streams.thy ===== *)
theory S3_Streams
  imports S3_Response
begin

section \<open>Body streams of uploads (\<^verbatim>\<open>s3_checksum_context.c\<close>, \<^verbatim>\<open>s3_checksum_stream.c\<close>, \<^verbatim>\<open>s3_chunk_stream.c\<close>)\<close>

text \<open>
  The checksum of an upload request, the stream that computes it while the body is read, and the
  stream that encodes the body as one chunk with a trailer. The input stream they wrap is from aws-c-io or
  from the user: its operations are the record \<open>stream_lib\<close>, over a type \<open>'s\<close> of streams. A read
  of a stream takes the room in the destination and returns the bytes put there. The context of a checksum is shared in
  the code; here it is passed along. A stream is not used again after a read of it failed.
\<close>

subsection \<open>Checksum contexts\<close>

record checksum_context =
  cx_algorithm :: checksum_algorithm
  cx_location :: checksum_location
  cx_base64_checksum :: string
  cx_base64_capacity :: usize
  cx_checksum_calculated :: bool
  cx_encoded_checksum_size :: usize
  cx_has_review_callback :: bool

definition s_s3_upload_request_checksum_context_new_base ::
    "hash_lib \<Rightarrow> checksum_config_storage option \<Rightarrow> bool \<Rightarrow> checksum_context option" where
  "s_s3_upload_request_checksum_context_new_base H checksum_config has_review_callback =
     (let context = \<lparr>cx_algorithm = AWS_SCA_NONE, cx_location = AWS_SCL_NONE, cx_base64_checksum = '''',
            cx_base64_capacity = 0, cx_checksum_calculated = False, cx_encoded_checksum_size = 0,
            cx_has_review_callback = False\<rparr>
      in case checksum_config of
           None \<Rightarrow> Some context
         | Some config \<Rightarrow>
             if st_checksum_algorithm config = AWS_SCA_NONE then Some context
             else
               (case aws_base64_compute_encoded_len H
                       (aws_get_digest_size_from_checksum_algorithm H (st_checksum_algorithm config)) of
                  Inl _ \<Rightarrow> None
                | Inr encoded_size \<Rightarrow>
                    Some (context\<lparr>cx_algorithm := st_checksum_algorithm config, cx_location := st_location config,
                                  cx_encoded_checksum_size := encoded_size,
                                  cx_has_review_callback := has_review_callback\<rparr>)))"

definition aws_s3_upload_request_checksum_context_new ::
    "hash_lib \<Rightarrow> checksum_config_storage option \<Rightarrow> bool \<Rightarrow> checksum_context option" where
  "aws_s3_upload_request_checksum_context_new H checksum_config has_review_callback =
     map_option (\<lambda>context. if cx_encoded_checksum_size context > 0
         then context\<lparr>cx_base64_capacity := cx_encoded_checksum_size context\<rparr> else context)
       (s_s3_upload_request_checksum_context_new_base H checksum_config has_review_callback)"

definition aws_s3_upload_request_checksum_context_new_with_existing_base64_checksum ::
    "hash_lib \<Rightarrow> checksum_config_storage option \<Rightarrow> string \<Rightarrow> bool \<Rightarrow> checksum_context option" where
  "aws_s3_upload_request_checksum_context_new_with_existing_base64_checksum H checksum_config existing has_review_callback =
     (case s_s3_upload_request_checksum_context_new_base H checksum_config has_review_callback of
        None \<Rightarrow> None
      | Some context \<Rightarrow>
          if cx_encoded_checksum_size context \<noteq> of_nat (length existing) then None
          else Some (context\<lparr>cx_base64_checksum := existing, cx_base64_capacity := of_nat (length existing),
                             cx_checksum_calculated := True\<rparr>))"

definition aws_s3_upload_request_checksum_context_should_calculate :: "checksum_context option \<Rightarrow> bool" where
  "aws_s3_upload_request_checksum_context_should_calculate context_opt =
     (case context_opt of
        None \<Rightarrow> False
      | Some context \<Rightarrow>
          if cx_algorithm context = AWS_SCA_NONE \<or> cx_algorithm context = AWS_SCA_UNKNOWN \<or>
             cx_location context = AWS_SCL_NONE \<and> \<not> cx_has_review_callback context
          then False else \<not> cx_checksum_calculated context)"

definition aws_s3_upload_request_checksum_context_should_add_header :: "checksum_context option \<Rightarrow> bool" where
  "aws_s3_upload_request_checksum_context_should_add_header context_opt =
     (case context_opt of
        None \<Rightarrow> False
      | Some context \<Rightarrow> cx_location context = AWS_SCL_HEADER \<and> cx_algorithm context \<noteq> AWS_SCA_NONE)"

definition aws_s3_upload_request_checksum_context_should_add_trailer :: "checksum_context option \<Rightarrow> bool" where
  "aws_s3_upload_request_checksum_context_should_add_trailer context_opt =
     (case context_opt of
        None \<Rightarrow> False
      | Some context \<Rightarrow> cx_location context = AWS_SCL_TRAILER \<and> cx_algorithm context \<noteq> AWS_SCA_NONE)"

definition aws_s3_upload_request_checksum_context_finalize_checksum ::
    "hash_lib \<Rightarrow> checksum_context option \<Rightarrow> u8 list \<Rightarrow> checksum_context result" where
  "aws_s3_upload_request_checksum_context_finalize_checksum H context_opt raw_checksum =
     (case context_opt of
        None \<Rightarrow> Inl AWS_ERROR_INVALID_ARGUMENT
      | Some context \<Rightarrow>
          if \<not> cx_checksum_calculated context
          then
            (case aws_base64_encode H raw_checksum (cx_base64_capacity context) of
               Inl e \<Rightarrow> Inl e
             | Inr encoded \<Rightarrow> Inr (context\<lparr>cx_base64_checksum := encoded, cx_checksum_calculated := True\<rparr>))
          else Inr context)"

definition aws_s3_upload_request_checksum_context_get_checksum_cursor :: "checksum_context option \<Rightarrow> string" where
  "aws_s3_upload_request_checksum_context_get_checksum_cursor context_opt =
     (case context_opt of
        None \<Rightarrow> ''''
      | Some context \<Rightarrow> if cx_checksum_calculated context then cx_base64_checksum context else '''')"

subsection \<open>Input streams\<close>

record 's stream_lib =
  in_read :: "'s \<Rightarrow> nat \<Rightarrow> (u8 list \<times> 's) result"
  in_eos :: "'s \<Rightarrow> bool result"
  in_length :: "'s \<Rightarrow> 64 word result"
  new_from_cursor :: "u8 list \<Rightarrow> 's option"

subsection \<open>Checksum streams\<close>

record 's checksum_stream =
  ks_old_stream :: 's
  ks_checksum :: aws_s3_checksum
  ks_checksum_result :: "u8 list"

definition aws_checksum_stream_new :: "hash_lib \<Rightarrow> 's \<Rightarrow> checksum_algorithm \<Rightarrow> 's checksum_stream option" where
  "aws_checksum_stream_new H existing_stream algorithm =
     (case aws_checksum_new H algorithm of
        Inl _ \<Rightarrow> None
      | Inr checksum \<Rightarrow> Some \<lparr>ks_old_stream = existing_stream, ks_checksum = checksum, ks_checksum_result = []\<rparr>)"

text \<open>
  A read of \<open>n\<close> bytes at most. Without a context nothing is stored at the end of the stream.
\<close>

definition s_aws_input_checksum_stream_read ::
    "hash_lib \<Rightarrow> 's stream_lib \<Rightarrow> 's checksum_stream \<Rightarrow> checksum_context option \<Rightarrow> nat \<Rightarrow>
     (u8 list \<times> 's checksum_stream \<times> checksum_context option) result" where
  "s_aws_input_checksum_stream_read H L impl context_opt n =
     (case in_read L (ks_old_stream impl) n of
        Inl e \<Rightarrow> Inl e
      | Inr (to_sum, old_stream) \<Rightarrow>
          (case aws_checksum_update H (ks_checksum impl) to_sum of
             Inl e \<Rightarrow> Inl e
           | Inr checksum \<Rightarrow>
               let impl = impl\<lparr>ks_old_stream := old_stream, ks_checksum := checksum\<rparr> in
               (case context_opt of
                  None \<Rightarrow> Inr (to_sum, impl, None)
                | Some context \<Rightarrow>
                    (case in_eos L old_stream of
                       Inl e \<Rightarrow> Inl e
                     | Inr is_end_of_stream \<Rightarrow>
                         if \<not> is_end_of_stream then Inr (to_sum, impl, Some context)
                         else
                           (case aws_checksum_finalize H checksum
                                   (cs_digest_size checksum - of_nat (length (ks_checksum_result impl))) of
                              (Inl _, _) \<Rightarrow> Inl AWS_ERROR_S3_CHECKSUM_CALCULATION_FAILED
                            | (Inr digest, checksum) \<Rightarrow>
                                let impl = impl\<lparr>ks_checksum := checksum,
                                                ks_checksum_result := ks_checksum_result impl @ digest\<rparr> in
                                (case aws_s3_upload_request_checksum_context_finalize_checksum H (Some context)
                                        (ks_checksum_result impl) of
                                   Inl _ \<Rightarrow> Inl AWS_ERROR_S3_CHECKSUM_CALCULATION_FAILED
                                 | Inr context \<Rightarrow> Inr (to_sum, impl, Some context)))))))"

definition aws_checksum_stream_finalize_checksum :: "hash_lib \<Rightarrow> 's checksum_stream \<Rightarrow> usize \<Rightarrow> string result" where
  "aws_checksum_stream_finalize_checksum H impl room =
     (case aws_checksum_finalize H (ks_checksum impl) (cs_digest_size (ks_checksum impl)) of
        (Inl _, _) \<Rightarrow> Inl AWS_ERROR_S3_CHECKSUM_CALCULATION_FAILED
      | (Inr digest, _) \<Rightarrow>
          (case aws_base64_encode H digest room of
             Inl _ \<Rightarrow> Inl AWS_ERROR_S3_CHECKSUM_CALCULATION_FAILED
           | Inr encoded \<Rightarrow> Inr encoded))"

subsection \<open>Chunk streams\<close>

definition text_bytes :: "string \<Rightarrow> u8 list" where
  "text_bytes s = map (\<lambda>c. of_nat (of_char c)) s"

definition hex_char :: "nat \<Rightarrow> char" where
  "hex_char d = (if d < 10 then char_of (48 + d) else char_of (55 + d))"

text \<open>The conversion \<open>PRIX64\<close> of \<open>snprintf\<close>.\<close>

fun show_hex :: "nat \<Rightarrow> string" where
  "show_hex n = (if n < 16 then [hex_char n] else show_hex (n div 16) @ [hex_char (n mod 16)])"

declare show_hex.simps [simp del]

definition s_carriage_return :: string where "s_carriage_return = [CHR 0x0D, CHR 0x0A]"

definition s_empty_chunk :: string where "s_empty_chunk = CHR ''0'' # s_carriage_return"

definition s_final_chunk :: string where "s_final_chunk = s_carriage_return @ s_empty_chunk"

definition s_colon :: string where "s_colon = '':''"

definition s_post_trailer :: string where "s_post_trailer = s_carriage_return @ s_carriage_return"

text \<open>A stream the chunk stream reads from: one of aws-c-io or of the user, or a checksum stream over it.\<close>

datatype 's input_stream = PLAIN 's | CHECKSUMMED "'s checksum_stream"

text \<open>The function pointer that sets the next stream at the end of the current one.\<close>

datatype set_stream_fn = s_set_chunk_stream | s_set_post_chunk_stream | s_set_null_stream

record 's chunk_stream =
  ch_current_stream :: "'s input_stream option"
  ch_chunk_body_stream :: "'s input_stream option"
  ch_checksum_context :: checksum_context
  ch_checksum_header_name :: string
  ch_length :: "64 word"
  ch_set_current_stream_fn :: "set_stream_fn option"

fun stream_read ::
    "hash_lib \<Rightarrow> 's stream_lib \<Rightarrow> 's input_stream \<Rightarrow> checksum_context \<Rightarrow> nat \<Rightarrow>
     (u8 list \<times> 's input_stream \<times> checksum_context) result" where
  "stream_read H L (PLAIN s) context n =
     (case in_read L s n of Inl e \<Rightarrow> Inl e | Inr (data, s) \<Rightarrow> Inr (data, PLAIN s, context))"
| "stream_read H L (CHECKSUMMED impl) context n =
     (case s_aws_input_checksum_stream_read H L impl (Some context) n of
        Inl e \<Rightarrow> Inl e
      | Inr (data, impl, context_opt) \<Rightarrow> Inr (data, CHECKSUMMED impl, the context_opt))"

text \<open>\<open>s_aws_input_checksum_stream_get_status\<close> and \<open>..._get_length\<close> ask the stream below.\<close>

fun stream_below :: "'s input_stream \<Rightarrow> 's" where
  "stream_below (PLAIN s) = s"
| "stream_below (CHECKSUMMED impl) = ks_old_stream impl"

definition stream_eos :: "'s stream_lib \<Rightarrow> 's input_stream \<Rightarrow> bool result" where
  "stream_eos L s = in_eos L (stream_below s)"

definition stream_length :: "'s stream_lib \<Rightarrow> 's input_stream \<Rightarrow> 64 word result" where
  "stream_length L s = in_length L (stream_below s)"

text \<open>The text after the body.\<close>

definition post_chunk :: "bool \<Rightarrow> string \<Rightarrow> string \<Rightarrow> string" where
  "post_chunk has_body header_name checksum =
     (if has_body then s_final_chunk else s_empty_chunk) @ header_name @ s_colon @ checksum @ s_post_trailer"

fun set_current_stream :: "'s stream_lib \<Rightarrow> set_stream_fn \<Rightarrow> 's chunk_stream \<Rightarrow> 's chunk_stream result" where
  "set_current_stream L s_set_null_stream parent_stream =
     Inr (parent_stream\<lparr>ch_current_stream := None, ch_set_current_stream_fn := None\<rparr>)"
| "set_current_stream L s_set_post_chunk_stream parent_stream =
     (case stream_length L (the (ch_current_stream parent_stream)) of
        Inl e \<Rightarrow> Inl e
      | Inr current_stream_length \<Rightarrow>
          Inr (parent_stream
            \<lparr>ch_current_stream := map_option PLAIN (new_from_cursor L (text_bytes
               (post_chunk (0 < sint current_stream_length) (ch_checksum_header_name parent_stream)
                  (aws_s3_upload_request_checksum_context_get_checksum_cursor (Some (ch_checksum_context parent_stream)))))),
             ch_set_current_stream_fn := Some s_set_null_stream\<rparr>))"
| "set_current_stream L s_set_chunk_stream parent_stream =
     Inr (parent_stream\<lparr>ch_current_stream := ch_chunk_body_stream parent_stream, ch_chunk_body_stream := None,
                        ch_set_current_stream_fn := Some s_set_post_chunk_stream\<rparr>)"

text \<open>
  The loop of a read: \<open>data\<close> is what was read so far. A loop that does not end is the value \<open>None\<close>.
\<close>

partial_function (option) chunk_read_loop ::
    "hash_lib \<Rightarrow> 's stream_lib \<Rightarrow> 's chunk_stream \<Rightarrow> nat \<Rightarrow> u8 list \<Rightarrow> (u8 list \<times> 's chunk_stream) result option" where
  "chunk_read_loop H L impl room data =
     (case ch_current_stream impl of
        None \<Rightarrow> Some (Inr (data, impl))
      | Some current_stream \<Rightarrow>
          if room = 0 then Some (Inr (data, impl))
          else
            (case stream_read H L current_stream (ch_checksum_context impl) room of
               Inl e \<Rightarrow> Some (Inl e)
             | Inr (piece, current_stream, context) \<Rightarrow>
                 (case stream_eos L current_stream of
                    Inl e \<Rightarrow> Some (Inl e)
                  | Inr is_end_of_stream \<Rightarrow>
                      (case (if is_end_of_stream
                             then set_current_stream L (the (ch_set_current_stream_fn impl))
                                    (impl\<lparr>ch_current_stream := Some current_stream, ch_checksum_context := context\<rparr>)
                             else Inr (impl\<lparr>ch_current_stream := Some current_stream, ch_checksum_context := context\<rparr>)) of
                         Inl e \<Rightarrow> Some (Inl e)
                       | Inr impl \<Rightarrow> chunk_read_loop H L impl (room - length piece) (data @ piece)))))"

definition s_aws_input_chunk_stream_read ::
    "hash_lib \<Rightarrow> 's stream_lib \<Rightarrow> 's chunk_stream \<Rightarrow> nat \<Rightarrow> (u8 list \<times> 's chunk_stream) result option" where
  "s_aws_input_chunk_stream_read H L impl room = chunk_read_loop H L impl room []"

definition s_aws_input_chunk_stream_get_status :: "'s stream_lib \<Rightarrow> 's chunk_stream \<Rightarrow> bool result" where
  "s_aws_input_chunk_stream_get_status L impl =
     (case ch_current_stream impl of None \<Rightarrow> Inr True | Some current_stream \<Rightarrow> stream_eos L current_stream)"

definition s_aws_input_chunk_stream_get_length :: "'s chunk_stream \<Rightarrow> 64 word" where
  "s_aws_input_chunk_stream_get_length impl = ch_length impl"

definition aws_chunk_stream_new :: "hash_lib \<Rightarrow> 's stream_lib \<Rightarrow> 's \<Rightarrow> checksum_context \<Rightarrow> 's chunk_stream option" where
  "aws_chunk_stream_new H L existing_stream context =
     (case in_length L existing_stream of
        Inl _ \<Rightarrow> None
      | Inr len \<Rightarrow>
          (case (if aws_s3_upload_request_checksum_context_should_calculate (Some context)
                 then map_option CHECKSUMMED (aws_checksum_stream_new H existing_stream (cx_algorithm context))
                 else Some (PLAIN existing_stream)) of
             None \<Rightarrow> None
           | Some body_stream \<Rightarrow>
               let header_name = aws_get_http_header_name_from_checksum_algorithm (cx_algorithm context) in
               (case (if 0 < sint len
                      then map_option PLAIN (new_from_cursor L (text_bytes (show_hex (unat len) @ s_carriage_return)))
                      else Some body_stream) of
                  None \<Rightarrow> None
                | Some current_stream \<Rightarrow>
                    (case stream_length L current_stream of
                       Inl _ \<Rightarrow> None
                     | Inr prechunk_stream_len \<Rightarrow>
                         Some \<lparr>ch_current_stream = Some current_stream,
                               ch_chunk_body_stream = (if 0 < sint len then Some body_stream else None),
                               ch_checksum_context = context, ch_checksum_header_name = header_name,
                               ch_length = prechunk_stream_len + len +
                                 of_nat (length (if 0 < sint len then s_final_chunk else s_empty_chunk)) +
                                 of_nat (length header_name) + of_nat (length s_colon) + cx_encoded_checksum_size context +
                                 of_nat (length s_post_trailer),
                               ch_set_current_stream_fn =
                                 Some (if 0 < sint len then s_set_chunk_stream else s_set_post_chunk_stream)\<rparr>))))"

subsection \<open>What input streams and checksums promise\<close>

text \<open>
  The contract of the input streams a chunk stream reads from: a read with room in the destination succeeds and takes
  bytes from the front of what is left; it takes none only when it then reports the end; the status can be asked, and the
  end is only reported when nothing is left; the length is the one of the whole stream. A stream over a buffer holds the
  buffer. This is more than aws-c-io documents of every input stream, whose reads may fail or give no bytes for a while; it
  is the behaviour of the stream over a byte cursor, \<open>aws_input_stream_new_from_cursor\<close>, from which a part that is
  in memory is read, and below it is shown for a model of that stream.
\<close>

locale input_stream =
  fixes L :: "'s stream_lib" and valid :: "'s \<Rightarrow> bool" and content :: "'s \<Rightarrow> u8 list"
  assumes reads: "valid s \<Longrightarrow> 0 < n \<Longrightarrow> \<exists>data s'. in_read L s n = Inr (data, s') \<and> valid s' \<and>
      content s = data @ content s' \<and> length data \<le> n \<and> in_length L s' = in_length L s \<and>
      (data = [] \<longrightarrow> in_eos L s' = Inr True)"
    and ends: "valid s \<Longrightarrow> \<exists>b. in_eos L s = Inr b \<and> (b \<longrightarrow> content s = [])"
    and cursor: "\<exists>s. new_from_cursor L bytes = Some s \<and> valid s \<and> content s = bytes \<and>
      in_length L s = Inr (of_nat (length bytes))"

text \<open>
  A checksum that is computed incrementally: \<open>sum_of xs\<close> is the running checksum after the bytes \<open>xs\<close>,
  \<open>digest xs\<close> its digest.
\<close>

locale incremental_checksum =
  fixes H :: hash_lib and a :: checksum_algorithm and sum_of :: "u8 list \<Rightarrow> aws_s3_checksum" and digest :: "u8 list \<Rightarrow> u8 list"
  assumes starts: "aws_checksum_new H a = Inr (sum_of [])"
    and updates: "aws_checksum_update H (sum_of xs) ys = Inr (sum_of (xs @ ys))"
    and finalizes: "fst (aws_checksum_finalize H (sum_of xs) (cs_digest_size (sum_of xs))) = Inr (digest xs)"

lemma crc_incremental:
  assumes "crc_ok H" "be_ok H" "aws_checksum_algorithm_is_combinable a"
  shows "incremental_checksum H a (crc_sum H a) (crc_digest H a)"
  using checksum_new_crc [OF assms(1,3)] checksum_update_crc [OF assms(1,3)] checksum_finalize_crc [OF assms(2,3) order_refl]
  by unfold_locales simp_all

text \<open>Encoding needs the room its length function gives, and writes that many characters.\<close>

definition base64_ok :: "hash_lib \<Rightarrow> bool" where
  "base64_ok H \<longleftrightarrow> (\<forall>bytes room n. length bytes < 2 ^ 64 \<and> aws_base64_compute_encoded_len H (of_nat (length bytes)) = Inr n \<and>
     n \<le> room \<longrightarrow> (\<exists>text. aws_base64_encode H bytes room = Inr text \<and> length text = unat n))"

subsection \<open>What a chunk stream produces\<close>

text \<open>
  \<open>body_rep\<close>: the stream of a body of which \<open>before\<close> was read and \<open>rest\<close> is left; \<open>ck\<close> is the text of
  the checksum once the body is read. \<open>chunk_rep\<close>: what a chunk stream still produces.
\<close>

fun body_rep ::
    "('s \<Rightarrow> bool) \<Rightarrow> ('s \<Rightarrow> u8 list) \<Rightarrow> hash_lib \<Rightarrow> (u8 list \<Rightarrow> aws_s3_checksum) \<Rightarrow> (u8 list \<Rightarrow> u8 list) \<Rightarrow> string \<Rightarrow>
     's input_stream \<Rightarrow> checksum_context \<Rightarrow> u8 list \<Rightarrow> u8 list \<Rightarrow> bool" where
  "body_rep valid content H sum_of digest ck (PLAIN s) context before rest \<longleftrightarrow>
     valid s \<and> content s = rest \<and> aws_s3_upload_request_checksum_context_get_checksum_cursor (Some context) = ck"
| "body_rep valid content H sum_of digest ck (CHECKSUMMED k) context before rest \<longleftrightarrow>
     valid (ks_old_stream k) \<and> content (ks_old_stream k) = rest \<and> ks_checksum k = sum_of before \<and> ks_checksum_result k = [] \<and>
     \<not> cx_checksum_calculated context \<and> aws_base64_encode H (digest (before @ rest)) (cx_base64_capacity context) = Inr ck"

definition chunk_rep ::
    "'s stream_lib \<Rightarrow> ('s \<Rightarrow> bool) \<Rightarrow> ('s \<Rightarrow> u8 list) \<Rightarrow> hash_lib \<Rightarrow> (u8 list \<Rightarrow> aws_s3_checksum) \<Rightarrow> (u8 list \<Rightarrow> u8 list) \<Rightarrow>
     string \<Rightarrow> 64 word \<Rightarrow> 's chunk_stream \<Rightarrow> u8 list \<Rightarrow> bool" where
  "chunk_rep L valid content H sum_of digest ck len c left \<longleftrightarrow>
     (let post = text_bytes (post_chunk (0 < sint len) (ch_checksum_header_name c) ck) in
      case ch_current_stream c of
        None \<Rightarrow> left = []
      | Some current \<Rightarrow>
          (case ch_set_current_stream_fn c of
             None \<Rightarrow> False
           | Some s_set_null_stream \<Rightarrow> (\<exists>s. current = PLAIN s \<and> valid s \<and> left = content s)
           | Some s_set_post_chunk_stream \<Rightarrow>
               (\<exists>before rest. body_rep valid content H sum_of digest ck current (ch_checksum_context c) before rest \<and>
                  stream_length L current = Inr len \<and> left = rest @ post)
           | Some s_set_chunk_stream \<Rightarrow>
               (\<exists>s body_stream body. current = PLAIN s \<and> valid s \<and> ch_chunk_body_stream c = Some body_stream \<and>
                  body_rep valid content H sum_of digest ck body_stream (ch_checksum_context c) [] body \<and>
                  stream_length L body_stream = Inr len \<and> left = content s @ body @ post)))"

definition chunk_stage :: "'s chunk_stream \<Rightarrow> nat" where
  "chunk_stage c =
     (if ch_current_stream c = None then 0
      else case ch_set_current_stream_fn c of
          Some s_set_chunk_stream \<Rightarrow> 3 | Some s_set_post_chunk_stream \<Rightarrow> 2 | _ \<Rightarrow> 1)"

text \<open>One turn of the read loop: it takes a piece from the front of what is left, and progresses.\<close>

definition chunk_turn ::
    "'s stream_lib \<Rightarrow> ('s \<Rightarrow> bool) \<Rightarrow> ('s \<Rightarrow> u8 list) \<Rightarrow> hash_lib \<Rightarrow> (u8 list \<Rightarrow> aws_s3_checksum) \<Rightarrow> (u8 list \<Rightarrow> u8 list) \<Rightarrow>
     string \<Rightarrow> 64 word \<Rightarrow> nat \<Rightarrow> 's chunk_stream \<Rightarrow> 's input_stream \<Rightarrow> u8 list \<Rightarrow> bool" where
  "chunk_turn L valid content H sum_of digest ck len room c cur left \<longleftrightarrow>
     (\<exists>piece cur' cx b c' left'. stream_read H L cur (ch_checksum_context c) room = Inr (piece, cur', cx) \<and>
        stream_eos L cur' = Inr b \<and>
        (if b then set_current_stream L (the (ch_set_current_stream_fn c)) (c\<lparr>ch_current_stream := Some cur', ch_checksum_context := cx\<rparr>)
         else Inr (c\<lparr>ch_current_stream := Some cur', ch_checksum_context := cx\<rparr>)) = Inr c' \<and>
        left = piece @ left' \<and> chunk_rep L valid content H sum_of digest ck len c' left' \<and> length piece \<le> room \<and>
        length left' + chunk_stage c' < length left + chunk_stage c)"

text \<open>Consecutive reads into destinations of the given sizes.\<close>

fun chunk_reads :: "hash_lib \<Rightarrow> 's stream_lib \<Rightarrow> 's chunk_stream \<Rightarrow> nat list \<Rightarrow> (u8 list \<times> 's chunk_stream) result option" where
  "chunk_reads H L c [] = Some (Inr ([], c))"
| "chunk_reads H L c (room # rooms) =
     (case s_aws_input_chunk_stream_read H L c room of
        None \<Rightarrow> None
      | Some (Inl e) \<Rightarrow> Some (Inl e)
      | Some (Inr (data, c)) \<Rightarrow>
          (case chunk_reads H L c rooms of
             None \<Rightarrow> None
           | Some (Inl e) \<Rightarrow> Some (Inl e)
           | Some (Inr (data', c)) \<Rightarrow> Some (Inr (data @ data', c))))"

text \<open>
  The encoding of a body is the size in hexadecimal, the body, the empty chunk and the
  trailer; an empty body has no chunk.
\<close>

definition aws_chunked :: "string \<Rightarrow> string \<Rightarrow> u8 list \<Rightarrow> u8 list" where
  "aws_chunked header_name checksum body =
     (if body = [] then [] else text_bytes (show_hex (length body) @ [CHR 0x0D, CHR 0x0A]) @ body @ text_bytes [CHR 0x0D, CHR 0x0A]) @
     text_bytes (CHR ''0'' # [CHR 0x0D, CHR 0x0A] @ header_name @ CHR '':'' # checksum @ [CHR 0x0D, CHR 0x0A, CHR 0x0D, CHR 0x0A])"

lemma sint_small: "n < 2 ^ 63 \<Longrightarrow> sint (of_nat n :: 64 word) = int n"
  by (simp add: sint_uint uint_nat unat_of_nat take_bit_nat_eq_self signed_take_bit_int_eq_self)

locale encoded_upload = input_stream L valid content + incremental_checksum H a sum_of digest
  for L :: "'s stream_lib" and valid content H a sum_of digest
begin

lemma plain_read:
  assumes "valid s" "0 < n"
  obtains data s' b where "stream_read H L (PLAIN s) cx n = Inr (data, PLAIN s', cx)" "valid s'"
    "content s = data @ content s'" "length data \<le> n" "in_length L s' = in_length L s" "in_eos L s' = Inr b"
    "b \<longrightarrow> content s' = []" "data = [] \<longrightarrow> b"
proof -
  obtain data s' where r: "in_read L s n = Inr (data, s')" "valid s'" "content s = data @ content s'" "length data \<le> n"
    "in_length L s' = in_length L s" "data = [] \<longrightarrow> in_eos L s' = Inr True"
    using reads [OF assms] by blast
  moreover obtain b where "in_eos L s' = Inr b" "b \<longrightarrow> content s' = []" using ends [OF r(2)] by blast
  ultimately show thesis using that [of data s' b] by simp
qed

lemma body_read:
  assumes "body_rep valid content H sum_of digest ck cur cx before rest" "0 < n"
  obtains data cur' cx' b where "stream_read H L cur cx n = Inr (data, cur', cx')"
    "stream_eos L cur' = Inr b" "stream_length L cur' = stream_length L cur" "length data \<le> n" "data = [] \<longrightarrow> b"
    "\<not> b \<longrightarrow> (\<exists>rest'. rest = data @ rest' \<and> body_rep valid content H sum_of digest ck cur' cx' (before @ data) rest')"
    "b \<longrightarrow> rest = data \<and> aws_s3_upload_request_checksum_context_get_checksum_cursor (Some cx') = ck"
proof (cases cur)
  case (PLAIN s)
  then have s: "valid s" "content s = rest" "aws_s3_upload_request_checksum_context_get_checksum_cursor (Some cx) = ck"
    using assms(1) by simp_all
  obtain data s' b where r: "stream_read H L (PLAIN s) cx n = Inr (data, PLAIN s', cx)" "valid s'"
    "content s = data @ content s'" "length data \<le> n" "in_length L s' = in_length L s" "in_eos L s' = Inr b"
    "b \<longrightarrow> content s' = []" "data = [] \<longrightarrow> b"
    by (rule plain_read [OF s(1) assms(2)])
  show thesis
    by (rule that [of data "PLAIN s'" cx b]) (use r s PLAIN in \<open>auto simp: stream_eos_def stream_length_def\<close>)
next
  case (CHECKSUMMED k)
  then have s: "valid (ks_old_stream k)" "content (ks_old_stream k) = rest" "ks_checksum k = sum_of before"
    "ks_checksum_result k = []" "\<not> cx_checksum_calculated cx"
    "aws_base64_encode H (digest (before @ rest)) (cx_base64_capacity cx) = Inr ck"
    using assms(1) by simp_all
  obtain data s' b where r0: "stream_read H L (PLAIN (ks_old_stream k)) cx n = Inr (data, PLAIN s', cx)" "valid s'"
    "content (ks_old_stream k) = data @ content s'" "length data \<le> n" "in_length L s' = in_length L (ks_old_stream k)"
    "in_eos L s' = Inr b" "b \<longrightarrow> content s' = []" "data = [] \<longrightarrow> b"
    by (rule plain_read [OF s(1) assms(2)])
  have r: "in_read L (ks_old_stream k) n = Inr (data, s')" "rest = data @ content s'"
    using r0(1,3) s(2) by (auto split: sum.splits)
  obtain c' where fin: "aws_checksum_finalize H (sum_of (before @ data)) (cs_digest_size (sum_of (before @ data))) =
      (Inr (digest (before @ data)), c')"
    using finalizes [of "before @ data"] by (cases "aws_checksum_finalize H (sum_of (before @ data)) (cs_digest_size (sum_of (before @ data)))") simp
  define k' where "k' = k\<lparr>ks_old_stream := s', ks_checksum := sum_of (before @ data)\<rparr>"
  show thesis
  proof (cases b)
    case False
    show thesis
      by (rule that [of data "CHECKSUMMED k'" cx b])
        (use r r0 s CHECKSUMMED False updates in \<open>auto simp: k'_def stream_eos_def stream_length_def s_aws_input_checksum_stream_read_def\<close>)
  next
    case True
    show thesis
      by (rule that [of data "CHECKSUMMED (k'\<lparr>ks_checksum := c', ks_checksum_result := digest (before @ data)\<rparr>)"
            "cx\<lparr>cx_base64_checksum := ck, cx_checksum_calculated := True\<rparr>" b])
        (use r r0 s CHECKSUMMED True updates fin in \<open>auto simp: k'_def stream_eos_def stream_length_def
          s_aws_input_checksum_stream_read_def aws_s3_upload_request_checksum_context_finalize_checksum_def
          aws_s3_upload_request_checksum_context_get_checksum_cursor_def\<close>)
  qed
qed

lemma turn_in_post_chunk:
  assumes "ch_current_stream c = Some (PLAIN s)" "ch_set_current_stream_fn c = Some s_set_null_stream" "valid s" "0 < room"
  shows "chunk_turn L valid content H sum_of digest ck len room c (PLAIN s) (content s)"
proof -
  obtain data s' b where r: "stream_read H L (PLAIN s) (ch_checksum_context c) room = Inr (data, PLAIN s', ch_checksum_context c)"
    "valid s'" "content s = data @ content s'" "length data \<le> room" "in_length L s' = in_length L s" "in_eos L s' = Inr b"
    "b \<longrightarrow> content s' = []" "data = [] \<longrightarrow> b"
    by (rule plain_read [OF assms(3,4)])
  let ?c = "c\<lparr>ch_current_stream := Some (PLAIN s'), ch_checksum_context := ch_checksum_context c\<rparr>"
  show ?thesis
    unfolding chunk_turn_def
    by (rule exI [of _ data], rule exI [of _ "PLAIN s'"], rule exI [of _ "ch_checksum_context c"], rule exI [of _ b],
        rule exI [of _ "if b then ?c\<lparr>ch_current_stream := None, ch_set_current_stream_fn := None\<rparr> else ?c"], rule exI [of _ "content s'"])
      (use r assms in \<open>auto simp: stream_eos_def chunk_rep_def chunk_stage_def\<close>)
qed

lemma turn_in_pre_chunk:
  assumes "ch_current_stream c = Some (PLAIN s)" "ch_set_current_stream_fn c = Some s_set_chunk_stream" "valid s" "0 < room"
    and body: "ch_chunk_body_stream c = Some body_stream"
      "body_rep valid content H sum_of digest ck body_stream (ch_checksum_context c) [] body" "stream_length L body_stream = Inr len"
    and left: "left = content s @ body @ text_bytes (post_chunk (0 < sint len) (ch_checksum_header_name c) ck)"
  shows "chunk_turn L valid content H sum_of digest ck len room c (PLAIN s) left"
proof -
  obtain data s' b where r: "stream_read H L (PLAIN s) (ch_checksum_context c) room = Inr (data, PLAIN s', ch_checksum_context c)"
    "valid s'" "content s = data @ content s'" "length data \<le> room" "in_length L s' = in_length L s" "in_eos L s' = Inr b"
    "b \<longrightarrow> content s' = []" "data = [] \<longrightarrow> b"
    by (rule plain_read [OF assms(3,4)])
  let ?c = "c\<lparr>ch_current_stream := Some (PLAIN s'), ch_checksum_context := ch_checksum_context c\<rparr>"
  show ?thesis
    unfolding chunk_turn_def
    by (rule exI [of _ data], rule exI [of _ "PLAIN s'"], rule exI [of _ "ch_checksum_context c"], rule exI [of _ b],
        rule exI [of _ "if b then ?c\<lparr>ch_current_stream := Some body_stream, ch_chunk_body_stream := None,
          ch_set_current_stream_fn := Some s_set_post_chunk_stream\<rparr> else ?c"],
        rule exI [of _ "content s' @ body @ text_bytes (post_chunk (0 < sint len) (ch_checksum_header_name c) ck)"])
      (use r assms in \<open>auto simp: stream_eos_def chunk_rep_def chunk_stage_def\<close>)
qed

lemma turn_in_body:
  assumes "ch_current_stream c = Some cur" "ch_set_current_stream_fn c = Some s_set_post_chunk_stream" "0 < room"
    and body: "body_rep valid content H sum_of digest ck cur (ch_checksum_context c) before rest" "stream_length L cur = Inr len"
    and left: "left = rest @ text_bytes (post_chunk (0 < sint len) (ch_checksum_header_name c) ck)"
  shows "chunk_turn L valid content H sum_of digest ck len room c cur left"
proof -
  let ?post = "text_bytes (post_chunk (0 < sint len) (ch_checksum_header_name c) ck)"
  obtain data cur' cx b where r: "stream_read H L cur (ch_checksum_context c) room = Inr (data, cur', cx)"
    "stream_eos L cur' = Inr b" "stream_length L cur' = stream_length L cur" "length data \<le> room" "data = [] \<longrightarrow> b"
    and more_left: "\<not> b \<longrightarrow> (\<exists>rest'. rest = data @ rest' \<and> body_rep valid content H sum_of digest ck cur' cx (before @ data) rest')"
    and at_end: "b \<longrightarrow> rest = data \<and> aws_s3_upload_request_checksum_context_get_checksum_cursor (Some cx) = ck"
    by (rule body_read [OF body(1) assms(3)])
  obtain s where s: "new_from_cursor L ?post = Some s" "valid s" "content s = ?post" using cursor by blast
  let ?c = "c\<lparr>ch_current_stream := Some cur', ch_checksum_context := cx\<rparr>"
  show ?thesis
  proof (cases b)
    case True
    show ?thesis
      unfolding chunk_turn_def
      by (rule exI [of _ data], rule exI [of _ cur'], rule exI [of _ cx], rule exI [of _ b],
          rule exI [of _ "?c\<lparr>ch_current_stream := Some (PLAIN s), ch_set_current_stream_fn := Some s_set_null_stream\<rparr>"],
          rule exI [of _ ?post])
        (use r s assms True at_end in \<open>auto simp: chunk_rep_def chunk_stage_def\<close>)
  next
    case False
    then obtain rest' where "rest = data @ rest'" "body_rep valid content H sum_of digest ck cur' cx (before @ data) rest'"
      using more_left by blast
    then show ?thesis
      unfolding chunk_turn_def
      by (intro exI [of _ data] exI [of _ cur'] exI [of _ cx] exI [of _ b] exI [of _ ?c] exI [of _ "rest' @ ?post"])
        (use r assms False in \<open>auto simp: chunk_rep_def chunk_stage_def\<close>)
  qed
qed

lemma chunk_rep_turn:
  assumes "chunk_rep L valid content H sum_of digest ck len c left" "ch_current_stream c = Some cur" "0 < room"
  shows "chunk_turn L valid content H sum_of digest ck len room c cur left"
  using assms(1) [unfolded chunk_rep_def Let_def assms(2) option.case]
    turn_in_post_chunk [OF _ _ _ assms(3)] turn_in_pre_chunk [OF _ _ _ assms(3)] turn_in_body [OF _ _ assms(3)] assms(2)
  by (auto split: option.splits set_stream_fn.splits)

lemma ended_rep: "chunk_rep L valid content H sum_of digest ck len c left \<Longrightarrow> ch_current_stream c = None \<Longrightarrow> left = []"
  by (simp add: chunk_rep_def Let_def)

text \<open>The loop ends, and fills the destination with what is left up to the room.\<close>

lemma chunk_loop:
  "chunk_rep L valid content H sum_of digest ck len c left \<Longrightarrow>
   \<exists>c'. chunk_read_loop H L c room data = Some (Inr (data @ take room left, c')) \<and>
        chunk_rep L valid content H sum_of digest ck len c' (drop room left) \<and>
        (length left < room \<longrightarrow> ch_current_stream c' = None)"
proof (induction "length left + chunk_stage c" arbitrary: c left room data rule: less_induct)
  case less
  show ?case
  proof (cases "ch_current_stream c = None \<or> room = 0")
    case True
    then have "take room left = []" "drop room left = left" using ended_rep [OF less.prems] by auto
    moreover have "chunk_read_loop H L c room data = Some (Inr (data, c))"
      using True by (subst chunk_read_loop.simps) (elim disjE; simp split: option.split)
    ultimately show ?thesis using less.prems True by auto
  next
    case False
    then obtain cur where cur: "ch_current_stream c = Some cur" "0 < room" by auto
    then obtain piece cur' cx b c' left' where t: "stream_read H L cur (ch_checksum_context c) room = Inr (piece, cur', cx)"
      "stream_eos L cur' = Inr b"
      "(if b then set_current_stream L (the (ch_set_current_stream_fn c)) (c\<lparr>ch_current_stream := Some cur', ch_checksum_context := cx\<rparr>)
        else Inr (c\<lparr>ch_current_stream := Some cur', ch_checksum_context := cx\<rparr>)) = Inr c'"
      "left = piece @ left'" "chunk_rep L valid content H sum_of digest ck len c' left'" "length piece \<le> room"
      "length left' + chunk_stage c' < length left + chunk_stage c"
      using chunk_rep_turn [OF less.prems cur] unfolding chunk_turn_def by blast
    have "chunk_read_loop H L c room data = chunk_read_loop H L c' (room - length piece) (data @ piece)"
      using cur t(1,2,3) by (subst chunk_read_loop.simps) simp
    then show ?thesis
      using less.hyps [OF t(7,5), of "room - length piece" "data @ piece"] t(4,6) by auto
  qed
qed

lemma chunk_reads_rep:
  "chunk_rep L valid content H sum_of digest ck len c left \<Longrightarrow>
   \<exists>c'. chunk_reads H L c rooms = Some (Inr (take (sum_list rooms) left, c')) \<and>
        chunk_rep L valid content H sum_of digest ck len c' (drop (sum_list rooms) left) \<and>
        (length left < sum_list rooms \<or> ch_current_stream c = None \<longrightarrow> ch_current_stream c' = None)"
proof (induction rooms arbitrary: c left)
  case Nil
  then show ?case by (intro exI [of _ c]) simp
next
  case (Cons room rooms)
  obtain c1 where c1: "chunk_read_loop H L c room [] = Some (Inr (take room left, c1))"
    "chunk_rep L valid content H sum_of digest ck len c1 (drop room left)" "length left < room \<longrightarrow> ch_current_stream c1 = None"
    using chunk_loop [OF Cons.prems, of room "[]", unfolded append_Nil] by (elim exE conjE)
  obtain c2 where c2: "chunk_reads H L c1 rooms = Some (Inr (take (sum_list rooms) (drop room left), c2))"
    "chunk_rep L valid content H sum_of digest ck len c2 (drop (sum_list rooms) (drop room left))"
    "length (drop room left) < sum_list rooms \<or> ch_current_stream c1 = None \<longrightarrow> ch_current_stream c2 = None"
    using Cons.IH [OF c1(2)] by (elim exE conjE)
  have "c1 = c" if "ch_current_stream c = None"
    using c1(1) [unfolded chunk_read_loop.simps [of H L c room] that] by simp
  then have "ch_current_stream c2 = None" if "length left < sum_list (room # rooms) \<or> ch_current_stream c = None"
    using that c1(3) c2(3) by (cases "length left < room") auto
  moreover have "chunk_reads H L c (room # rooms) = Some (Inr (take (sum_list (room # rooms)) left, c2))"
    using c1(1) c2(1) by (simp add: s_aws_input_chunk_stream_read_def take_add)
  moreover have "chunk_rep L valid content H sum_of digest ck len c2 (drop (sum_list (room # rooms)) left)"
    using c2(2) by (simp add: add.commute)
  ultimately show ?case by (intro exI [of _ c2] conjI impI)
qed

lemma fresh_chunk_stream:
  assumes cx: "cx_algorithm cx = a" "aws_s3_upload_request_checksum_context_should_calculate (Some cx)"
      "cx_encoded_checksum_size cx = of_nat (length ck)"
    and enc: "aws_base64_encode H (digest (content s)) (cx_base64_capacity cx) = Inr ck"
    and s: "valid s" "in_length L s = Inr (of_nat (length (content s)))" "length (content s) < 2 ^ 63"
  obtains c where "aws_chunk_stream_new H L s cx = Some c"
    "ch_length c = of_nat (length (aws_chunked (aws_get_http_header_name_from_checksum_algorithm a) ck (content s)))"
    "chunk_rep L valid content H sum_of digest ck (of_nat (length (content s))) c
       (aws_chunked (aws_get_http_header_name_from_checksum_algorithm a) ck (content s))"
proof -
  let ?n = "of_nat (length (content s)) :: 64 word"
  let ?body = "CHECKSUMMED \<lparr>ks_old_stream = s, ks_checksum = sum_of [], ks_checksum_result = []\<rparr>"
  let ?pre = "text_bytes (show_hex (unat ?n) @ s_carriage_return)"
  note new = aws_chunk_stream_new_def aws_checksum_stream_new_def starts cx s stream_length_def
  have n: "0 < sint ?n \<longleftrightarrow> content s \<noteq> []" "unat ?n = length (content s)"
    using s(3) sint_small [of "length (content s)"] by (simp_all add: unat_of_nat take_bit_nat_eq_self)
  have uncalculated: "\<not> cx_checksum_calculated cx"
    using cx(2) by (auto simp: aws_s3_upload_request_checksum_context_should_calculate_def split: if_splits)
  obtain p where p: "new_from_cursor L ?pre = Some p" "valid p" "content p = ?pre" "in_length L p = Inr (of_nat (length ?pre))"
    using cursor [of ?pre] by (elim exE conjE)
  show thesis
  proof (cases "content s = []")
    case True
    then have "\<exists>before. sum_of [] = sum_of before \<and> aws_base64_encode H (digest before) (cx_base64_capacity cx) = Inr ck"
      using enc by auto
    with True show thesis
      using n uncalculated enc by (intro that [of "the (aws_chunk_stream_new H L s cx)"]) (simp_all add: new chunk_rep_def aws_chunked_def post_chunk_def Let_def
        text_bytes_def s_final_chunk_def s_empty_chunk_def s_carriage_return_def s_colon_def s_post_trailer_def)
  next
    case False
    then show thesis
      using n uncalculated enc p by (intro that [of "the (aws_chunk_stream_new H L s cx)"]) (simp_all add: new chunk_rep_def aws_chunked_def post_chunk_def Let_def
        text_bytes_def s_final_chunk_def s_empty_chunk_def s_carriage_return_def s_colon_def s_post_trailer_def)
  qed
qed

end

lemma new_context:
  assumes "aws_s3_upload_request_checksum_context_new H (Some config) review = Some cx"
    "aws_checksum_algorithm_is_combinable (st_checksum_algorithm config)" "st_location config = AWS_SCL_TRAILER"
  shows "cx_algorithm cx = st_checksum_algorithm config" "aws_s3_upload_request_checksum_context_should_calculate (Some cx)"
    "aws_base64_compute_encoded_len H (aws_get_digest_size_from_checksum_algorithm H (st_checksum_algorithm config)) =
       Inr (cx_encoded_checksum_size cx)"
    "cx_base64_capacity cx = cx_encoded_checksum_size cx" "cx_location cx = AWS_SCL_TRAILER"
  using assms
  by (auto simp: aws_s3_upload_request_checksum_context_new_def s_s3_upload_request_checksum_context_new_base_def
      aws_s3_upload_request_checksum_context_should_calculate_def aws_checksum_algorithm_is_combinable_def word_gt_0
      split: if_splits sum.splits)

lemma crc_encoding:
  assumes "be_ok H" "base64_ok H" "aws_checksum_algorithm_is_combinable a"
    "aws_base64_compute_encoded_len H (aws_get_digest_size_from_checksum_algorithm H a) = Inr n"
  obtains ck where "aws_base64_encode H (crc_digest H a body) n = Inr ck" "of_nat (length ck) = n"
proof -
  have "of_nat (length (crc_digest H a body)) = aws_get_digest_size_from_checksum_algorithm H a"
    using crc_digest_length(3) [OF assms(1,3), of body "[]"] assms(3)
    by (auto elim!: combinable_cases simp: crc_sum_def crc_new_defs)
  moreover have "length (crc_digest H a body) < 2 ^ 64" using crc_digest_length(2) [OF assms(1,3), of body] by simp
  ultimately obtain ck where ck: "aws_base64_encode H (crc_digest H a body) n = Inr ck" "length ck = unat n"
    using assms(2,4) unfolding base64_ok_def by (metis order_refl)
  show thesis by (rule that [OF ck(1)]) (simp add: ck(2))
qed

text \<open>A chunk stream produces an encoding: it declares its length, and every sequence of reads returns its next bytes.\<close>

definition streams :: "hash_lib \<Rightarrow> 's stream_lib \<Rightarrow> 's chunk_stream \<Rightarrow> u8 list \<Rightarrow> bool" where
  "streams H L c encoding \<longleftrightarrow> s_aws_input_chunk_stream_get_length c = of_nat (length encoding) \<and>
     (\<forall>rooms. \<exists>c'. chunk_reads H L c rooms = Some (Inr (take (sum_list rooms) encoding, c')) \<and>
        (length encoding < sum_list rooms \<longrightarrow> s_aws_input_chunk_stream_get_status L c' = Inr True))"

lemma crc_chunk_stream:
  assumes "input_stream L valid content" "crc_ok H" "be_ok H" "base64_ok H"
    and "aws_checksum_algorithm_is_combinable (st_checksum_algorithm config)" "st_location config = AWS_SCL_TRAILER"
    and "aws_s3_upload_request_checksum_context_new H (Some config) review = Some cx"
    and "valid s" "in_length L s = Inr (of_nat (length (content s)))" "length (content s) < 2 ^ 63"
  obtains c ck where "aws_chunk_stream_new H L s cx = Some c"
    "aws_base64_encode H (crc_digest H (st_checksum_algorithm config) (content s)) (cx_encoded_checksum_size cx) = Inr ck"
    "streams H L c (aws_chunked (aws_get_http_header_name_from_checksum_algorithm (st_checksum_algorithm config)) ck (content s))"
proof -
  let ?a = "st_checksum_algorithm config"
  note cx = new_context [OF assms(7,5,6)]
  have crc: "encoded_upload L valid content H ?a (crc_sum H ?a) (crc_digest H ?a)"
    using assms(1) crc_incremental [OF assms(2,3,5)] by (simp add: encoded_upload_def)
  obtain ck where ck: "aws_base64_encode H (crc_digest H ?a (content s)) (cx_encoded_checksum_size cx) = Inr ck"
    "of_nat (length ck) = cx_encoded_checksum_size cx"
    by (rule crc_encoding [OF assms(3,4,5) cx(3)])
  let ?encoding = "aws_chunked (aws_get_http_header_name_from_checksum_algorithm ?a) ck (content s)"
  obtain c where c: "aws_chunk_stream_new H L s cx = Some c" "ch_length c = of_nat (length ?encoding)"
    "chunk_rep L valid content H (crc_sum H ?a) (crc_digest H ?a) ck (of_nat (length (content s))) c ?encoding"
    by (rule encoded_upload.fresh_chunk_stream [OF crc cx(1,2) ck(2) [symmetric] ck(1) [folded cx(4)] assms(8-10)])
  have "\<exists>c'. chunk_reads H L c rooms = Some (Inr (take (sum_list rooms) ?encoding, c')) \<and>
       (length ?encoding < sum_list rooms \<longrightarrow> s_aws_input_chunk_stream_get_status L c' = Inr True)" for rooms
    using encoded_upload.chunk_reads_rep [OF crc c(3), of rooms]
    by (elim ex_forward) (simp add: s_aws_input_chunk_stream_get_status_def)
  then have "streams H L c ?encoding" by (simp add: streams_def s_aws_input_chunk_stream_get_length_def c(2))
  then show thesis by (rule that [OF c(1) ck(1)])
qed

text \<open>
  C30. The chunk stream of an upload with a CRC trailer, over any input stream that keeps its contract, produces
  exactly the aws-chunked encoding: the size in hexadecimal, the body, the empty chunk, and the trailer with the
  checksum of the body in base 64. Consecutive reads of any sizes return in turn the next bytes of the encoding
  and never loop forever; once more was asked than there is, the stream reports its end. The length the stream
  declares is the length of the encoding.
\<close>

theorem chunk_stream_encodes_body:
  assumes "input_stream L valid content" "crc_ok H" "be_ok H" "base64_ok H"
    and "aws_checksum_algorithm_is_combinable (st_checksum_algorithm config)" "st_location config = AWS_SCL_TRAILER"
    and "aws_s3_upload_request_checksum_context_new H (Some config) review = Some cx"
    and "valid s" "in_length L s = Inr (of_nat (length (content s)))" "length (content s) < 2 ^ 63"
  shows "\<exists>c ck encoding. aws_chunk_stream_new H L s cx = Some c \<and>
    aws_base64_encode H (crc_digest H (st_checksum_algorithm config) (content s)) (cx_encoded_checksum_size cx) = Inr ck \<and>
    encoding = aws_chunked (aws_get_http_header_name_from_checksum_algorithm (st_checksum_algorithm config)) ck (content s) \<and>
    s_aws_input_chunk_stream_get_length c = of_nat (length encoding) \<and>
    (\<forall>rooms. \<exists>c'. chunk_reads H L c rooms = Some (Inr (take (sum_list rooms) encoding, c')) \<and>
       (length encoding < sum_list rooms \<longrightarrow> s_aws_input_chunk_stream_get_status L c' = Inr True))"
proof -
  let ?a = "st_checksum_algorithm config"
  obtain c ck where "aws_chunk_stream_new H L s cx = Some c"
    "aws_base64_encode H (crc_digest H ?a (content s)) (cx_encoded_checksum_size cx) = Inr ck"
    "streams H L c (aws_chunked (aws_get_http_header_name_from_checksum_algorithm ?a) ck (content s))"
    by (rule crc_chunk_stream [OF assms])
  then show ?thesis
    by (intro exI [of _ c] exI [of _ ck] exI [of _ "aws_chunked (aws_get_http_header_name_from_checksum_algorithm ?a) ck (content s)"])
      (simp add: streams_def)
qed

subsection \<open>A stream over a buffer\<close>

text \<open>
  The stream of aws-c-io over a byte cursor: the bytes left and the length of the whole buffer. It satisfies
  the contract, as does the example of a checksum library.
\<close>

definition cursor_stream :: "(u8 list \<times> nat) stream_lib" where
  "cursor_stream = \<lparr>in_read = (\<lambda>(left, whole) n. Inr (take n left, drop n left, whole)), in_eos = (\<lambda>(left, whole). Inr (left = [])),
     in_length = (\<lambda>(left, whole). Inr (of_nat whole)), new_from_cursor = (\<lambda>bytes. Some (bytes, length bytes))\<rparr>"

lemma cursor_stream_simps [simp]:
  "in_read cursor_stream (left, whole) n = Inr (take n left, drop n left, whole)" "in_eos cursor_stream (left, whole) = Inr (left = [])"
  "in_length cursor_stream (left, whole) = Inr (of_nat whole)" "new_from_cursor cursor_stream bytes = Some (bytes, length bytes)"
  by (simp_all add: cursor_stream_def)

interpretation buffer: input_stream cursor_stream "\<lambda>_. True" fst
proof unfold_locales
  fix s :: "u8 list \<times> nat" and n :: nat
  assume "0 < n"
  then show "\<exists>data s'. in_read cursor_stream s n = Inr (data, s') \<and> True \<and> fst s = data @ fst s' \<and> length data \<le> n \<and>
      in_length cursor_stream s' = in_length cursor_stream s \<and> (data = [] \<longrightarrow> in_eos cursor_stream s' = Inr True)"
    by (cases s) simp
next
  fix s :: "u8 list \<times> nat"
  show "\<exists>b. in_eos cursor_stream s = Inr b \<and> (b \<longrightarrow> fst s = [])" by (cases s) simp
qed simp

lemma example_hash_encodes: "base64_ok example_hash"
  by (auto simp: base64_ok_def example_hash_def unat_of_nat take_bit_nat_eq_self)

theorem chunk_stream_encodes_body_witness:
  "\<exists>cx c ck encoding. aws_chunk_stream_new example_hash cursor_stream ([104, 105], 2) cx = Some c \<and>
    aws_base64_encode example_hash (crc_digest example_hash AWS_SCA_CRC32 [104, 105]) (cx_encoded_checksum_size cx) = Inr ck \<and>
    encoding = aws_chunked ''x-amz-checksum-crc32'' ck [104, 105] \<and>
    s_aws_input_chunk_stream_get_length c = of_nat (length encoding) \<and>
    (\<forall>rooms. \<exists>c'. chunk_reads example_hash cursor_stream c rooms = Some (Inr (take (sum_list rooms) encoding, c')) \<and>
       (length encoding < sum_list rooms \<longrightarrow> s_aws_input_chunk_stream_get_status cursor_stream c' = Inr True))"
proof -
  let ?config = "zero_checksum_config_storage\<lparr>st_checksum_algorithm := AWS_SCA_CRC32, st_location := AWS_SCL_TRAILER\<rparr>"
  obtain cx where cx: "aws_s3_upload_request_checksum_context_new example_hash (Some ?config) False = Some cx"
    by (simp add: aws_s3_upload_request_checksum_context_new_def s_s3_upload_request_checksum_context_new_base_def example_hash_def)
  show ?thesis
    using chunk_stream_encodes_body [OF buffer.input_stream_axioms example_hash_ok example_hash_encodes _ _ cx, of "([104, 105], 2)"]
    by (simp add: aws_checksum_algorithm_is_combinable_def) (intro exI [of _ cx])
qed

text \<open>
  C31. The chunk stream of an empty body reports the end of the stream before anything of it was read, although the
  whole encoding is left: its status is the one of the body stream it starts with. The comment in
  \<open>s_aws_input_chunk_stream_get_status\<close> says that only a missing current stream is the end.
\<close>

theorem empty_chunk_stream_reports_its_end_early:
  assumes "aws_chunk_stream_new H L s cx = Some c" "in_length L s = Inr 0" "in_eos L s = Inr True"
  shows "s_aws_input_chunk_stream_get_status L c = Inr True \<and> ch_current_stream c \<noteq> None \<and>
    s_aws_input_chunk_stream_get_length c = of_nat (length s_empty_chunk) +
      of_nat (length (aws_get_http_header_name_from_checksum_algorithm (cx_algorithm cx))) + of_nat (length s_colon) +
      cx_encoded_checksum_size cx + of_nat (length s_post_trailer)"
proof -
  obtain body where body: "stream_below body = s" "c = \<lparr>ch_current_stream = Some body, ch_chunk_body_stream = None,
      ch_checksum_context = cx, ch_checksum_header_name = aws_get_http_header_name_from_checksum_algorithm (cx_algorithm cx),
      ch_length = of_nat (length s_empty_chunk) +
        of_nat (length (aws_get_http_header_name_from_checksum_algorithm (cx_algorithm cx))) + of_nat (length s_colon) +
        cx_encoded_checksum_size cx + of_nat (length s_post_trailer),
      ch_set_current_stream_fn = Some s_set_post_chunk_stream\<rparr>"
    using assms(1,2) by (intro that [of "the (ch_current_stream c)"]; cases "aws_checksum_new H (cx_algorithm cx)")
      (auto simp: aws_chunk_stream_new_def aws_checksum_stream_new_def stream_length_def Let_def split: if_splits)
  then show ?thesis
    using assms(3) by (simp add: s_aws_input_chunk_stream_get_status_def s_aws_input_chunk_stream_get_length_def stream_eos_def)
qed


definition example_trailer_context :: checksum_context where
  "example_trailer_context = \<lparr>cx_algorithm = AWS_SCA_CRC32, cx_location = AWS_SCL_TRAILER, cx_base64_checksum = '''',
     cx_base64_capacity = 4, cx_checksum_calculated = False, cx_encoded_checksum_size = 4, cx_has_review_callback = False\<rparr>"

theorem empty_chunk_stream_reports_its_end_early_witness:
  "\<exists>c. aws_chunk_stream_new example_hash cursor_stream ([], 0) example_trailer_context = Some c \<and>
     s_aws_input_chunk_stream_get_status cursor_stream c = Inr True \<and> ch_current_stream c \<noteq> None \<and>
     s_aws_input_chunk_stream_get_length c = 32"
proof -
  obtain c where c: "aws_chunk_stream_new example_hash cursor_stream ([], 0) example_trailer_context = Some c"
    by (simp add: aws_chunk_stream_new_def aws_checksum_stream_new_def example_trailer_context_def stream_length_def Let_def
        aws_s3_upload_request_checksum_context_should_calculate_def aws_checksum_new_def)
  show ?thesis
    using empty_chunk_stream_reports_its_end_early [OF c] c
    by (simp add: example_trailer_context_def s_empty_chunk_def s_carriage_return_def s_colon_def s_post_trailer_def)
qed

end
