(* ===== verification/S3_Messages.thy ===== *)
theory S3_Messages
  imports S3_Streams "HOL-Library.Multiset"
begin

section \<open>Request messages (\<^verbatim>\<open>s3_request_messages.c\<close>)\<close>

text \<open>
  How the messages of a meta request are derived from the message of the caller: which headers are taken over,
  the path of a multipart operation, the body with its checksum, and the payload that completes an upload.
  The headers of a message are the list aws-c-http keeps; its operations on them, like those of aws-c-common on
  strings and the MD5 of aws-c-cal, are the record \<open>http_lib\<close>. The headers of a message are never missing.
\<close>

subsection \<open>Messages\<close>

type_synonym http_headers = "(string \<times> string) list"

record http_lib =
  http_str :: str_lib
  headers_get :: "http_headers \<Rightarrow> string \<Rightarrow> string result"
  headers_set :: "http_headers \<Rightarrow> string \<Rightarrow> string \<Rightarrow> http_headers result"
  headers_erase :: "http_headers \<Rightarrow> string \<Rightarrow> http_headers result"
  headers_add :: "http_headers \<Rightarrow> string \<Rightarrow> string \<Rightarrow> http_headers result"
  find_from :: "string \<Rightarrow> string \<Rightarrow> string option"
  md5_compute :: "u8 list \<Rightarrow> u8 list result"

datatype 's body_stream = BODY "'s input_stream" | CHUNKED "'s chunk_stream"

record 's http_message =
  hm_method :: "string option"
  hm_path :: "string option"
  hm_headers :: http_headers
  hm_body :: "'s body_stream option"

definition aws_http_message_new_request :: "'s http_message" where
  "aws_http_message_new_request = \<lparr>hm_method = None, hm_path = None, hm_headers = [], hm_body = None\<rparr>"

definition set_header :: "http_lib \<Rightarrow> string \<Rightarrow> string \<Rightarrow> 's http_message \<Rightarrow> 's http_message option" where
  "set_header A name v message =
     (case headers_set A (hm_headers message) name v of Inl _ \<Rightarrow> None | Inr headers \<Rightarrow> Some (message\<lparr>hm_headers := headers\<rparr>))"

definition add_header :: "http_lib \<Rightarrow> string \<Rightarrow> string \<Rightarrow> 's http_message \<Rightarrow> 's http_message option" where
  "add_header A name v message =
     (case headers_add A (hm_headers message) name v of Inl _ \<Rightarrow> None | Inr headers \<Rightarrow> Some (message\<lparr>hm_headers := headers\<rparr>))"

text \<open>The conversion \<open>d\<close> of \<open>snprintf\<close>.\<close>

definition show_int :: "int \<Rightarrow> string" where
  "show_int n = (if n < 0 then CHR ''-'' # show_nat (nat (- n)) else show_nat (nat n))"

subsection \<open>Headers that are not taken over\<close>

definition g_s3_create_multipart_upload_excluded_headers :: "string list" where
  "g_s3_create_multipart_upload_excluded_headers =
    [''Content-Length'', ''Content-MD5'', ''x-amz-copy-source'', ''x-amz-copy-source-range'', ''if-none-match'',
     ''x-amz-create-session-mode'', ''x-amz-sdk-checksum-algorithm'', ''x-amz-metadata-directive'',
     ''x-amz-tagging-directive'', ''x-amz-object-annotation-directive'', ''x-amz-copy-source-if-match'',
     ''x-amz-copy-source-if-none-match'', ''x-amz-copy-source-if-modified-since'',
     ''x-amz-copy-source-if-unmodified-since'']"

definition g_s3_upload_part_excluded_headers :: "string list" where
  "g_s3_upload_part_excluded_headers =
    [''x-amz-acl'', ''Cache-Control'', ''Content-Disposition'', ''Content-Encoding'', ''Content-Language'',
     ''Content-Length'', ''Content-MD5'', ''Content-Type'', ''Expires'', ''x-amz-grant-full-control'',
     ''x-amz-grant-read'', ''x-amz-grant-read-acp'', ''x-amz-grant-write-acp'', ''x-amz-server-side-encryption'',
     ''x-amz-storage-class'', ''x-amz-website-redirect-location'', ''x-amz-server-side-encryption-aws-kms-key-id'',
     ''x-amz-server-side-encryption-context'', ''x-amz-server-side-encryption-bucket-key-enabled'',
     ''x-amz-tagging'', ''x-amz-object-lock-mode'', ''x-amz-object-lock-retain-until-date'',
     ''x-amz-object-lock-legal-hold'', ''if-none-match'', ''x-amz-create-session-mode'',
     ''x-amz-metadata-directive'', ''x-amz-tagging-directive'', ''x-amz-object-annotation-directive'']"

definition g_s3_complete_multipart_upload_excluded_headers :: "string list" where
  "g_s3_complete_multipart_upload_excluded_headers =
    [''x-amz-acl'', ''Cache-Control'', ''Content-Disposition'', ''Content-Encoding'', ''Content-Language'',
     ''Content-Length'', ''Content-MD5'', ''Content-Type'', ''Expires'', ''x-amz-grant-full-control'',
     ''x-amz-grant-read'', ''x-amz-grant-read-acp'', ''x-amz-grant-write-acp'', ''x-amz-server-side-encryption'',
     ''x-amz-storage-class'', ''x-amz-website-redirect-location'',
     ''x-amz-server-side-encryption-customer-algorithm'', ''x-amz-server-side-encryption-customer-key'',
     ''x-amz-server-side-encryption-customer-key-MD5'', ''x-amz-server-side-encryption-aws-kms-key-id'',
     ''x-amz-server-side-encryption-context'', ''x-amz-server-side-encryption-bucket-key-enabled'',
     ''x-amz-tagging'', ''x-amz-object-lock-mode'', ''x-amz-object-lock-retain-until-date'',
     ''x-amz-object-lock-legal-hold'', ''x-amz-copy-source'', ''x-amz-copy-source-range'', ''x-amz-mp-object-size'',
     ''x-amz-create-session-mode'']"

definition g_s3_complete_multipart_upload_with_checksum_excluded_headers :: "string list" where
  "g_s3_complete_multipart_upload_with_checksum_excluded_headers =
    [''x-amz-acl'', ''Cache-Control'', ''Content-Disposition'', ''Content-Encoding'', ''Content-Language'',
     ''Content-Length'', ''Content-MD5'', ''Content-Type'', ''Expires'', ''x-amz-grant-full-control'',
     ''x-amz-grant-read'', ''x-amz-grant-read-acp'', ''x-amz-grant-write-acp'', ''x-amz-server-side-encryption'',
     ''x-amz-storage-class'', ''x-amz-website-redirect-location'', ''x-amz-server-side-encryption-aws-kms-key-id'',
     ''x-amz-server-side-encryption-context'', ''x-amz-server-side-encryption-bucket-key-enabled'',
     ''x-amz-tagging'', ''x-amz-object-lock-mode'', ''x-amz-object-lock-retain-until-date'',
     ''x-amz-object-lock-legal-hold'', ''x-amz-copy-source'', ''x-amz-copy-source-range'',
     ''x-amz-sdk-checksum-algorithm'', ''x-amz-mp-object-size'', ''x-amz-create-session-mode'']"

definition g_s3_list_parts_excluded_headers :: "string list" where
  "g_s3_list_parts_excluded_headers =
    [''x-amz-acl'', ''Cache-Control'', ''Content-Disposition'', ''Content-Encoding'', ''Content-Language'',
     ''Content-Length'', ''Content-MD5'', ''Content-Type'', ''Expires'', ''x-amz-grant-full-control'',
     ''x-amz-grant-read'', ''x-amz-grant-read-acp'', ''x-amz-grant-write-acp'', ''x-amz-server-side-encryption'',
     ''x-amz-storage-class'', ''x-amz-website-redirect-location'',
     ''x-amz-server-side-encryption-customer-algorithm'', ''x-amz-server-side-encryption-customer-key'',
     ''x-amz-server-side-encryption-customer-key-MD5'', ''x-amz-server-side-encryption-aws-kms-key-id'',
     ''x-amz-server-side-encryption-context'', ''x-amz-server-side-encryption-bucket-key-enabled'',
     ''x-amz-tagging'', ''x-amz-object-lock-mode'', ''x-amz-object-lock-retain-until-date'',
     ''x-amz-object-lock-legal-hold'', ''x-amz-copy-source'', ''x-amz-copy-source-range'',
     ''x-amz-create-session-mode'']"

definition g_s3_list_parts_with_checksum_excluded_headers :: "string list" where
  "g_s3_list_parts_with_checksum_excluded_headers =
    [''x-amz-acl'', ''Cache-Control'', ''Content-Disposition'', ''Content-Encoding'', ''Content-Language'',
     ''Content-Length'', ''Content-MD5'', ''Content-Type'', ''Expires'', ''x-amz-grant-full-control'',
     ''x-amz-grant-read'', ''x-amz-grant-read-acp'', ''x-amz-grant-write-acp'', ''x-amz-server-side-encryption'',
     ''x-amz-storage-class'', ''x-amz-website-redirect-location'', ''x-amz-server-side-encryption-aws-kms-key-id'',
     ''x-amz-server-side-encryption-context'', ''x-amz-server-side-encryption-bucket-key-enabled'',
     ''x-amz-tagging'', ''x-amz-object-lock-mode'', ''x-amz-object-lock-retain-until-date'',
     ''x-amz-object-lock-legal-hold'', ''x-amz-copy-source'', ''x-amz-copy-source-range'',
     ''x-amz-create-session-mode'']"

definition g_s3_abort_multipart_upload_excluded_headers :: "string list" where
  "g_s3_abort_multipart_upload_excluded_headers =
    [''x-amz-acl'', ''Cache-Control'', ''Content-Disposition'', ''Content-Encoding'', ''Content-Language'',
     ''Content-Length'', ''Content-MD5'', ''Content-Type'', ''Expires'', ''x-amz-grant-full-control'',
     ''x-amz-grant-read'', ''x-amz-grant-read-acp'', ''x-amz-grant-write-acp'', ''x-amz-server-side-encryption'',
     ''x-amz-storage-class'', ''x-amz-website-redirect-location'',
     ''x-amz-server-side-encryption-customer-algorithm'', ''x-amz-server-side-encryption-customer-key'',
     ''x-amz-server-side-encryption-customer-key-MD5'', ''x-amz-server-side-encryption-aws-kms-key-id'',
     ''x-amz-server-side-encryption-context'', ''x-amz-server-side-encryption-bucket-key-enabled'',
     ''x-amz-tagging'', ''x-amz-object-lock-mode'', ''x-amz-object-lock-retain-until-date'',
     ''x-amz-object-lock-legal-hold'', ''x-amz-copy-source'', ''x-amz-copy-source-range'', ''if-none-match'',
     ''x-amz-create-session-mode'']"

definition g_s3_create_session_allowed_headers :: "string list" where
  "g_s3_create_session_allowed_headers =
    [''x-amz-create-session-mode'', ''x-amz-server-side-encryption'', ''x-amz-server-side-encryption-aws-kms-key-id'',
     ''x-amz-server-side-encryption-context'', ''x-amz-server-side-encryption-bucket-key-enabled'']"

definition s_x_amz_meta_prefix :: string where "s_x_amz_meta_prefix = ''x-amz-meta-''"

definition s_checksum_type_header :: string where "s_checksum_type_header = ''x-amz-checksum-type''"

definition s_checksum_type_full_object :: string where "s_checksum_type_full_object = ''full_object''"

definition s_copy_source_forwarded_headers :: "(string \<times> string) list" where
  "s_copy_source_forwarded_headers =
    [(''x-amz-request-payer'', ''x-amz-request-payer''), (''x-amz-source-expected-bucket-owner'', ''x-amz-expected-bucket-owner'')]"

subsection \<open>Copying a message\<close>

text \<open>A header aws-c-http refuses is dropped: only a debug assertion notices.\<close>

definition excluded_header :: "str_lib \<Rightarrow> string list \<Rightarrow> bool \<Rightarrow> bool \<Rightarrow> string \<Rightarrow> bool" where
  "excluded_header S excluded exclude_x_amz_meta exclude_x_amz_checksum name \<longleftrightarrow>
     list_ex (eq_ignore_case S name) excluded \<or>
     exclude_x_amz_meta \<and> starts_with_ignore_case S name s_x_amz_meta_prefix \<or>
     exclude_x_amz_checksum \<and> aws_s3_is_checksum_value_header_name S name"

fun aws_s3_message_util_copy_headers ::
    "http_lib \<Rightarrow> http_headers \<Rightarrow> 's http_message \<Rightarrow> string list \<Rightarrow> bool \<Rightarrow> bool \<Rightarrow> 's http_message" where
  "aws_s3_message_util_copy_headers A [] dest excluded exclude_x_amz_meta exclude_x_amz_checksum = dest"
| "aws_s3_message_util_copy_headers A ((name, v) # headers) dest excluded exclude_x_amz_meta exclude_x_amz_checksum =
     aws_s3_message_util_copy_headers A headers
       (if excluded_header (http_str A) excluded exclude_x_amz_meta exclude_x_amz_checksum name then dest
        else case add_header A name v dest of None \<Rightarrow> dest | Some dest' \<Rightarrow> dest')
       excluded exclude_x_amz_meta exclude_x_amz_checksum"

definition aws_s3_message_util_copy_http_message_no_body_filter_headers ::
    "http_lib \<Rightarrow> 's http_message \<Rightarrow> string list \<Rightarrow> bool \<Rightarrow> bool \<Rightarrow> 's http_message option" where
  "aws_s3_message_util_copy_http_message_no_body_filter_headers A base excluded exclude_x_amz_meta exclude_x_amz_checksum =
     (case hm_method base of
        None \<Rightarrow> None
      | Some request_method \<Rightarrow>
          (case hm_path base of
             None \<Rightarrow> None
           | Some request_path \<Rightarrow>
               Some (aws_s3_message_util_copy_headers A (hm_headers base)
                 (aws_http_message_new_request\<lparr>hm_method := Some request_method, hm_path := Some request_path\<rparr>)
                 excluded exclude_x_amz_meta exclude_x_amz_checksum)))"

definition aws_s3_message_util_copy_http_message_no_body_all_headers :: "http_lib \<Rightarrow> 's http_message \<Rightarrow> 's http_message option" where
  "aws_s3_message_util_copy_http_message_no_body_all_headers A base =
     aws_s3_message_util_copy_http_message_no_body_filter_headers A base [] False False"

subsection \<open>Ranges and paths\<close>

definition s_s3_message_util_add_range_header :: "http_lib \<Rightarrow> u64 \<Rightarrow> u64 \<Rightarrow> 's http_message \<Rightarrow> 's http_message" where
  "s_s3_message_util_add_range_header A part_range_start part_range_end message =
     (let message = (case headers_erase A (hm_headers message) g_range_header_name of
                       Inl _ \<Rightarrow> message | Inr headers \<Rightarrow> message\<lparr>hm_headers := headers\<rparr>)
      in case add_header A g_range_header_name
                (''bytes='' @ show_u64 part_range_start @ ''-'' @ show_u64 part_range_end) message of
           None \<Rightarrow> message | Some message \<Rightarrow> message)"

definition aws_s3_message_util_set_multipart_request_path ::
    "string option \<Rightarrow> u32 \<Rightarrow> bool \<Rightarrow> 's http_message \<Rightarrow> 's http_message option" where
  "aws_s3_message_util_set_multipart_request_path upload_id part_number append_uploads_suffix message =
     (case hm_path message of
        None \<Rightarrow> None
      | Some request_path \<Rightarrow>
          let has_query = CHR ''?'' \<in> set request_path;
              (path, has_query) =
                (if part_number > 0
                 then (request_path @ (if has_query then ''&'' else ''?'') @ ''partNumber='' @ show_int (sint part_number), True)
                 else (request_path, has_query));
              (path, has_query) =
                (case upload_id of
                   Some upload_id \<Rightarrow> (path @ (if has_query then ''&'' else ''?'') @ ''uploadId='' @ upload_id, True)
                 | None \<Rightarrow> (path, has_query));
              path = (if append_uploads_suffix then path @ (if has_query then ''&'' else ''?'') @ ''uploads'' else path)
          in Some (message\<lparr>hm_path := Some path\<rparr>))"

definition aws_s3_ranged_get_object_message_new :: "http_lib \<Rightarrow> 's http_message \<Rightarrow> u64 \<Rightarrow> u64 \<Rightarrow> 's http_message option" where
  "aws_s3_ranged_get_object_message_new A base range_start range_end =
     (case aws_s3_message_util_copy_http_message_no_body_all_headers A base of
        None \<Rightarrow> None
      | Some message \<Rightarrow> Some (s_s3_message_util_add_range_header A range_start range_end message))"

subsection \<open>Bodies\<close>

text \<open>The MD5 of the body; a failure leaves the message as it is.\<close>

definition aws_s3_message_util_add_content_md5_header ::
    "hash_lib \<Rightarrow> http_lib \<Rightarrow> u8 list \<Rightarrow> 's http_message \<Rightarrow> 's http_message option" where
  "aws_s3_message_util_add_content_md5_header H A input_buf out_message =
     (case md5_compute A input_buf of
        Inl _ \<Rightarrow> None
      | Inr md5_output \<Rightarrow>
          (case aws_base64_compute_encoded_len H (of_nat (length md5_output)) of
             Inl _ \<Rightarrow> None
           | Inr base64_output_size \<Rightarrow>
               (case aws_base64_encode H md5_output base64_output_size of
                  Inl _ \<Rightarrow> None
                | Inr base64_output \<Rightarrow> set_header A g_content_md5_header_name base64_output out_message)))"

definition s_calculate_in_memory_checksum_helper :: "hash_lib \<Rightarrow> u8 list \<Rightarrow> checksum_context \<Rightarrow> checksum_context option" where
  "s_calculate_in_memory_checksum_helper H data context =
     (case aws_checksum_compute H (cx_algorithm context) data
             (aws_get_digest_size_from_checksum_algorithm H (cx_algorithm context)) of
        Inl _ \<Rightarrow> None
      | Inr raw_checksum \<Rightarrow>
          (case aws_s3_upload_request_checksum_context_finalize_checksum H (Some context) raw_checksum of
             Inl _ \<Rightarrow> None
           | Inr context \<Rightarrow> Some context))"

definition s_calculate_and_add_checksum_to_header_helper ::
    "hash_lib \<Rightarrow> http_lib \<Rightarrow> u8 list \<Rightarrow> 's http_message \<Rightarrow> checksum_context \<Rightarrow> bool \<times> 's http_message \<times> checksum_context" where
  "s_calculate_and_add_checksum_to_header_helper H A data out_message context =
     (case s_calculate_in_memory_checksum_helper H data context of
        None \<Rightarrow> (False, out_message, context)
      | Some context \<Rightarrow>
          (case set_header A (aws_get_http_header_name_from_checksum_algorithm (cx_algorithm context))
                  (aws_s3_upload_request_checksum_context_get_checksum_cursor (Some context)) out_message of
             None \<Rightarrow> (False, out_message, context)
           | Some out_message \<Rightarrow> (True, out_message, context)))"

fun set_headers :: "http_lib \<Rightarrow> (string \<times> string) list \<Rightarrow> 's http_message \<Rightarrow> bool \<times> 's http_message" where
  "set_headers A [] message = (True, message)"
| "set_headers A ((name, v) # headers) message =
     (case set_header A name v message of None \<Rightarrow> (False, message) | Some message \<Rightarrow> set_headers A headers message)"

definition content_encoding :: "http_lib \<Rightarrow> 's http_message \<Rightarrow> string" where
  "content_encoding A message =
     (case headers_get A (hm_headers message) g_content_encoding_header_name of
        Inr existing \<Rightarrow> existing @ '','' @ g_content_encoding_header_aws_chunked
      | Inl _ \<Rightarrow> g_content_encoding_header_aws_chunked)"

text \<open>
  The stream a body is sent from, for each place of the checksum: the chunk stream for a trailer, the body
  itself for a header, a checksum stream if only the review callback needs the checksum. A failed step leaves the
  headers set before it.
\<close>

definition checksum_body ::
    "hash_lib \<Rightarrow> 's stream_lib \<Rightarrow> http_lib \<Rightarrow> u8 list option \<Rightarrow> 's \<Rightarrow> 64 word \<Rightarrow> 's http_message \<Rightarrow> checksum_context \<Rightarrow>
     's body_stream option \<times> 's http_message \<times> checksum_context" where
  "checksum_body H L A byte_buf body_in original_content_length out_message context =
     (if aws_s3_upload_request_checksum_context_should_add_trailer (Some context)
      then
        (case set_headers A
                [(g_content_encoding_header_name, content_encoding A out_message),
                 (g_trailer_header_name, aws_get_http_header_name_from_checksum_algorithm (cx_algorithm context)),
                 (g_decoded_content_length_header_name, show_u64 original_content_length)] out_message of
           (False, out_message) \<Rightarrow> (None, out_message, context)
         | (True, out_message) \<Rightarrow> (map_option CHUNKED (aws_chunk_stream_new H L body_in context), out_message, context))
      else if aws_s3_upload_request_checksum_context_should_add_header (Some context)
      then
        (case byte_buf of
           None \<Rightarrow> (None, out_message, context)
         | Some data \<Rightarrow>
             (case s_calculate_and_add_checksum_to_header_helper H A data out_message context of
                (added, out_message, context) \<Rightarrow> (if added then Some (BODY (PLAIN body_in)) else None, out_message, context)))
      else if aws_s3_upload_request_checksum_context_should_calculate (Some context)
      then (map_option (\<lambda>s. BODY (CHECKSUMMED s)) (aws_checksum_stream_new H body_in (cx_algorithm context)), out_message, context)
      else (Some (BODY (PLAIN body_in)), out_message, context))"

definition body_stream_length :: "'s stream_lib \<Rightarrow> 's body_stream \<Rightarrow> 64 word result" where
  "body_stream_length L body =
     (case body of BODY s \<Rightarrow> stream_length L s | CHUNKED c \<Rightarrow> Inr (s_aws_input_chunk_stream_get_length c))"

text \<open>Whether a stream was assigned, the message, and the checksum context.\<close>

definition aws_s3_message_util_assign_body ::
    "hash_lib \<Rightarrow> 's stream_lib \<Rightarrow> http_lib \<Rightarrow> u8 list option \<Rightarrow> 's option \<Rightarrow> 's http_message \<Rightarrow> checksum_context option \<Rightarrow>
     bool \<times> 's http_message \<times> checksum_context option" where
  "aws_s3_message_util_assign_body H L A byte_buf stream out_message context_opt =
     (if byte_buf \<noteq> None \<and> stream \<noteq> None \<or> byte_buf = None \<and> stream = None then (False, out_message, context_opt)
      else
        (case (case byte_buf of Some data \<Rightarrow> new_from_cursor L data | None \<Rightarrow> stream) of
           None \<Rightarrow> (False, out_message, context_opt)
         | Some body_in \<Rightarrow>
             (case in_length L body_in of
                Inl _ \<Rightarrow> (False, out_message, context_opt)
              | Inr original_content_length \<Rightarrow>
                  (case
                     (case context_opt of
                        None \<Rightarrow> (Some (BODY (PLAIN body_in)), out_message, None)
                      | Some context \<Rightarrow>
                          if cx_algorithm context \<noteq> AWS_SCA_NONE
                          then (case checksum_body H L A byte_buf body_in original_content_length out_message context of
                                  (body, out_message, context) \<Rightarrow> (body, out_message, Some context))
                          else (Some (BODY (PLAIN body_in)), out_message, Some context))
                   of
                     (None, out_message, context_opt) \<Rightarrow> (False, out_message, context_opt)
                   | (Some body, out_message, context_opt) \<Rightarrow>
                       (case body_stream_length L body of
                          Inl _ \<Rightarrow> (False, out_message, context_opt)
                        | Inr body_length \<Rightarrow>
                            (case set_header A g_content_length_header_name (show_u64 body_length) out_message of
                               None \<Rightarrow> (False, out_message, context_opt)
                             | Some out_message \<Rightarrow> (True, out_message\<lparr>hm_body := Some body\<rparr>, context_opt)))))))"

subsection \<open>Messages of a multipart upload\<close>

definition aws_s3_create_multipart_upload_message_new ::
    "http_lib \<Rightarrow> 's http_message \<Rightarrow> checksum_config_storage option \<Rightarrow> 's http_message option" where
  "aws_s3_create_multipart_upload_message_new A base checksum_config =
     (case aws_s3_message_util_copy_http_message_no_body_filter_headers A base
             g_s3_create_multipart_upload_excluded_headers False True of
        None \<Rightarrow> None
      | Some message \<Rightarrow>
          (case aws_s3_message_util_set_multipart_request_path None 0 True message of
             None \<Rightarrow> None
           | Some message \<Rightarrow>
               (case (case headers_erase A (hm_headers message) g_content_md5_header_name of
                        Inr headers \<Rightarrow> Some (message\<lparr>hm_headers := headers\<rparr>)
                      | Inl e \<Rightarrow> if aws_last_error_or_unknown e \<noteq> AWS_ERROR_HTTP_HEADER_NOT_FOUND then None else Some message) of
                  None \<Rightarrow> None
                | Some message \<Rightarrow>
                    let checksum_headers =
                      (case checksum_config of
                         None \<Rightarrow> []
                       | Some config \<Rightarrow>
                           if st_location config \<noteq> AWS_SCL_NONE \<or> st_has_full_object_checksum config
                           then (if st_checksum_algorithm config = AWS_SCA_UNKNOWN
                                 then [(g_checksum_algorithm_header_name, st_unknown_checksum_algo config)]
                                 else if st_checksum_algorithm config \<noteq> AWS_SCA_NONE
                                 then [(g_checksum_algorithm_header_name, aws_get_checksum_algorithm_name (st_checksum_algorithm config))]
                                 else []) @
                                (if st_has_full_object_checksum config
                                 then [(s_checksum_type_header, s_checksum_type_full_object)] else [])
                           else [])
                    in (case set_headers A (checksum_headers @ [(g_content_length_header_name, ''0'')]) message of
                          (False, message) \<Rightarrow> None
                        | (True, message) \<Rightarrow> Some (message\<lparr>hm_method := Some g_post_method, hm_body := None\<rparr>)))))"

definition no_flexible_checksum :: "checksum_context option \<Rightarrow> bool" where
  "no_flexible_checksum context_opt = (case context_opt of None \<Rightarrow> True | Some context \<Rightarrow> cx_location context = AWS_SCL_NONE)"

definition aws_s3_upload_part_message_new_streaming ::
    "hash_lib \<Rightarrow> 's stream_lib \<Rightarrow> http_lib \<Rightarrow> 's http_message \<Rightarrow> 's option \<Rightarrow> u32 \<Rightarrow> string option \<Rightarrow> bool \<Rightarrow> checksum_context option \<Rightarrow>
     's http_message option \<times> checksum_context option" where
  "aws_s3_upload_part_message_new_streaming H L A base body_in part_number upload_id should_compute_content_md5 context_opt =
     (case aws_s3_message_util_copy_http_message_no_body_filter_headers A base g_s3_upload_part_excluded_headers True True of
        None \<Rightarrow> (None, context_opt)
      | Some message \<Rightarrow>
          (case aws_s3_message_util_set_multipart_request_path upload_id part_number False message of
             None \<Rightarrow> (None, context_opt)
           | Some message \<Rightarrow>
               (case aws_s3_message_util_assign_body H L A None body_in message context_opt of
                  (False, message, context_opt) \<Rightarrow> (None, context_opt)
                | (True, message, context_opt) \<Rightarrow>
                    if should_compute_content_md5 \<and> no_flexible_checksum context_opt then (None, context_opt)
                    else (Some message, context_opt))))"

definition aws_s3_upload_part_message_new ::
    "hash_lib \<Rightarrow> 's stream_lib \<Rightarrow> http_lib \<Rightarrow> 's http_message \<Rightarrow> u8 list \<Rightarrow> u32 \<Rightarrow> string option \<Rightarrow> bool \<Rightarrow> checksum_context option \<Rightarrow>
     's http_message option \<times> checksum_context option" where
  "aws_s3_upload_part_message_new H L A base buffer part_number upload_id should_compute_content_md5 context_opt =
     (case aws_s3_message_util_copy_http_message_no_body_filter_headers A base g_s3_upload_part_excluded_headers True True of
        None \<Rightarrow> (None, context_opt)
      | Some message \<Rightarrow>
          (case aws_s3_message_util_set_multipart_request_path upload_id part_number False message of
             None \<Rightarrow> (None, context_opt)
           | Some message \<Rightarrow>
               (case aws_s3_message_util_assign_body H L A (Some buffer) None message context_opt of
                  (False, message, context_opt) \<Rightarrow> (None, context_opt)
                | (True, message, context_opt) \<Rightarrow>
                    if should_compute_content_md5 \<and> no_flexible_checksum context_opt
                    then (aws_s3_message_util_add_content_md5_header H A buffer message, context_opt)
                    else (Some message, context_opt))))"

text \<open>The header with the source range is added even if aws-c-http refuses it; then it is missing.\<close>

definition aws_s3_upload_part_copy_message_new ::
    "hash_lib \<Rightarrow> 's stream_lib \<Rightarrow> http_lib \<Rightarrow> 's http_message \<Rightarrow> u8 list option \<Rightarrow> u32 \<Rightarrow> u64 \<Rightarrow> u64 \<Rightarrow> string option \<Rightarrow> bool \<Rightarrow>
     's http_message option" where
  "aws_s3_upload_part_copy_message_new H L A base buffer part_number range_start range_end upload_id should_compute_content_md5 =
     (case aws_s3_message_util_copy_http_message_no_body_filter_headers A base g_s3_upload_part_excluded_headers True True of
        None \<Rightarrow> None
      | Some message \<Rightarrow>
          (case aws_s3_message_util_set_multipart_request_path upload_id part_number False message of
             None \<Rightarrow> None
           | Some message \<Rightarrow>
               (case
                  (case buffer of
                     None \<Rightarrow> Some message
                   | Some data \<Rightarrow>
                       (case aws_s3_message_util_assign_body H L A (Some data) None message None of
                          (False, message, _) \<Rightarrow> None
                        | (True, message, _) \<Rightarrow>
                            if should_compute_content_md5 then aws_s3_message_util_add_content_md5_header H A data message
                            else Some message))
                of None \<Rightarrow> None
                 | Some message \<Rightarrow>
                     (case add_header A ''x-amz-copy-source-range''
                             (''bytes='' @ show_u64 range_start @ ''-'' @ show_u64 range_end) message of
                        None \<Rightarrow> Some message | Some message \<Rightarrow> Some message))))"

text \<open>
  The message that asks for the size of the source of a copy: from the URI the caller gave, its host and path, or
  from the header with the source, whose bucket replaces the first label of the host.
\<close>

fun forward_headers :: "http_lib \<Rightarrow> http_headers \<Rightarrow> (string \<times> string) list \<Rightarrow> 's http_message \<Rightarrow> 's http_message option" where
  "forward_headers A base_headers [] message = Some message"
| "forward_headers A base_headers ((src_name, dst_name) # rest) message =
     (case headers_get A base_headers src_name of
        Inr v \<Rightarrow> (case add_header A dst_name v message of
                     None \<Rightarrow> None | Some message \<Rightarrow> forward_headers A base_headers rest message)
      | Inl _ \<Rightarrow> forward_headers A base_headers rest message)"

definition s_s3_copy_source_object_head_forward_headers ::
    "http_lib \<Rightarrow> 's http_message \<Rightarrow> 's http_message \<Rightarrow> 's http_message option" where
  "s_s3_copy_source_object_head_forward_headers A base message =
     forward_headers A (hm_headers base) s_copy_source_forwarded_headers message"

definition s_slash_char :: string where "s_slash_char = ''/''"

definition copy_source_parts :: "str_lib \<Rightarrow> string \<Rightarrow> (string \<times> string) option" where
  "copy_source_parts S source_header =
     (let request_path = (if starts_with S source_header s_slash_char then str_advance S source_header 1 else source_header);
          source_bucket = (case next_splits S CHR ''/'' request_path of [] \<Rightarrow> [] | bucket # _ \<Rightarrow> bucket);
          request_path = str_advance S request_path (length source_bucket)
      in if source_bucket = [] \<or> request_path = [] then None else Some (source_bucket, request_path))"

definition aws_s3_get_source_object_size_message_new ::
    "http_lib \<Rightarrow> 's http_message \<Rightarrow> (string \<times> string) option \<Rightarrow> 's http_message option" where
  "aws_s3_get_source_object_size_message_new A base source_uri =
     (let message = aws_http_message_new_request\<lparr>hm_method := Some g_head_method\<rparr> in
      case
        (case source_uri of
           Some (host, path) \<Rightarrow> if host = [] \<or> path = [] then None else Some (host, path)
         | None \<Rightarrow>
             (case headers_get A (hm_headers base) ''x-amz-copy-source'' of
                Inl _ \<Rightarrow> None
              | Inr source_header \<Rightarrow>
                  (case headers_get A (hm_headers base) g_host_header_name of
                     Inl _ \<Rightarrow> None
                   | Inr host \<Rightarrow>
                       (case copy_source_parts (http_str A) source_header of
                          None \<Rightarrow> None
                        | Some (source_bucket, request_path) \<Rightarrow>
                            (case find_from A host ''.'' of
                               None \<Rightarrow> None
                             | Some domain_name \<Rightarrow> Some (source_bucket @ domain_name, request_path))))))
      of None \<Rightarrow> None
       | Some (host, path) \<Rightarrow>
           (case add_header A g_host_header_name host message of
              None \<Rightarrow> None
            | Some message \<Rightarrow> s_s3_copy_source_object_head_forward_headers A base (message\<lparr>hm_path := Some path\<rparr>)))"

subsection \<open>Completing and aborting an upload\<close>

record mpu_part_info =
  mp_size :: u64
  mp_etag :: string
  mp_checksum_context :: "checksum_context option"
  mp_was_previously_uploaded :: bool

definition newline :: string where "newline = [CHR 0x0A]"

definition quoted :: "string \<Rightarrow> string" where "quoted s = [CHR 0x22] @ s @ [CHR 0x22]"

definition s_complete_payload_begin :: string where
  "s_complete_payload_begin = ''<?xml version='' @ quoted ''1.0'' @ '' encoding='' @ quoted ''UTF-8'' @ ''?>'' @ newline @
     ''<CompleteMultipartUpload xmlns='' @ quoted ''http://s3.amazonaws.com/doc/2006-03-01/'' @ ''>'' @ newline"

definition s_complete_payload_end :: string where "s_complete_payload_end = ''</CompleteMultipartUpload>''"

definition s_part_section_string_0 :: string where "s_part_section_string_0 = ''    <Part>'' @ newline @ ''        <ETag>''"

definition s_part_section_string_1 :: string where "s_part_section_string_1 = ''</ETag>'' @ newline @ ''         <PartNumber>''"

definition s_close_part_number_tag :: string where "s_close_part_number_tag = ''</PartNumber>'' @ newline"

definition s_close_part_tag :: string where "s_close_part_tag = ''    </Part>'' @ newline"

definition s_open_start_bracket :: string where "s_open_start_bracket = ''         <''"

definition s_open_end_bracket :: string where "s_open_end_bracket = ''</''"

definition s_close_bracket :: string where "s_close_bracket = ''>''"

definition s_close_bracket_new_line :: string where "s_close_bracket_new_line = ''>'' @ newline"

text \<open>The sections of the parts from index \<open>i\<close> on; a part that is missing fails an assertion.\<close>

fun part_sections :: "string \<Rightarrow> nat \<Rightarrow> mpu_part_info option list \<Rightarrow> string option" where
  "part_sections checksum_name i [] = Some []"
| "part_sections checksum_name i (None # parts) = None"
| "part_sections checksum_name i (Some part # parts) =
     map_option (\<lambda>rest.
         s_part_section_string_0 @ mp_etag part @ s_part_section_string_1 @ show_int (sint (of_nat (i + 1) :: 32 word)) @
         s_close_part_number_tag @
         (if checksum_name \<noteq> []
          then s_open_start_bracket @ checksum_name @ s_close_bracket @
               aws_s3_upload_request_checksum_context_get_checksum_cursor (mp_checksum_context part) @
               s_open_end_bracket @ checksum_name @ s_close_bracket_new_line
          else []) @
         s_close_part_tag @ rest)
       (part_sections checksum_name (i + 1) parts)"

definition complete_payload :: "string \<Rightarrow> mpu_part_info option list \<Rightarrow> string option" where
  "complete_payload checksum_name parts =
     map_option (\<lambda>sections. s_complete_payload_begin @ sections @ s_complete_payload_end) (part_sections checksum_name 0 parts)"

text \<open>
  The outer \<open>None\<close> is the failed assertion on a missing part, the inner one a message that could not be made. The
  result of assigning the body is not looked at.
\<close>

definition aws_s3_complete_multipart_message_with_object_size_new ::
    "hash_lib \<Rightarrow> 's stream_lib \<Rightarrow> http_lib \<Rightarrow> 's http_message \<Rightarrow> string \<Rightarrow> mpu_part_info option list \<Rightarrow> checksum_config_storage option \<Rightarrow>
     u64 \<Rightarrow> ('s http_message option) option" where
  "aws_s3_complete_multipart_message_with_object_size_new H L A base upload_id parts checksum_config object_size =
     (let set_checksums = (case checksum_config of None \<Rightarrow> False
            | Some config \<Rightarrow> st_location config \<noteq> AWS_SCL_NONE \<or> st_has_full_object_checksum config);
          config = the checksum_config;
          checksum_name = (if set_checksums then aws_get_completed_part_name_from_checksum_algorithm (st_checksum_algorithm config) else []);
          excluded = (if set_checksums then g_s3_complete_multipart_upload_with_checksum_excluded_headers
                      else g_s3_complete_multipart_upload_excluded_headers)
      in case aws_s3_message_util_copy_http_message_no_body_filter_headers A base excluded True False of
           None \<Rightarrow> Some None
         | Some message \<Rightarrow>
             (case aws_s3_message_util_set_multipart_request_path (Some upload_id) 0 False message of
                None \<Rightarrow> Some None
              | Some message \<Rightarrow>
                  (case set_headers A
                     ((if set_checksums \<and> st_has_full_object_checksum config
                       then [(aws_get_http_header_name_from_checksum_algorithm (st_checksum_algorithm config), st_full_object_checksum config),
                             (s_checksum_type_header, s_checksum_type_full_object)]
                       else []) @
                      (if object_size > 0 then [(''x-amz-mp-object-size'', show_u64 object_size)] else []))
                     (message\<lparr>hm_method := Some g_post_method\<rparr>) of
                     (False, message) \<Rightarrow> Some None
                   | (True, message) \<Rightarrow>
                       (case complete_payload checksum_name parts of
                          None \<Rightarrow> None
                        | Some payload \<Rightarrow>
                            Some (Some (fst (snd (aws_s3_message_util_assign_body H L A (Some (text_bytes payload)) None message None))))))))"

definition aws_s3_complete_multipart_message_new ::
    "hash_lib \<Rightarrow> 's stream_lib \<Rightarrow> http_lib \<Rightarrow> 's http_message \<Rightarrow> string \<Rightarrow> mpu_part_info option list \<Rightarrow> checksum_config_storage option \<Rightarrow>
     ('s http_message option) option" where
  "aws_s3_complete_multipart_message_new H L A base upload_id parts checksum_config =
     aws_s3_complete_multipart_message_with_object_size_new H L A base upload_id parts checksum_config
       (case headers_get A (hm_headers base) g_content_length_header_name of
          Inl _ \<Rightarrow> 0
        | Inr content_length \<Rightarrow> (case utf8_parse_u64 (http_str A) content_length of None \<Rightarrow> 0 | Some n \<Rightarrow> n))"

text \<open>A base message without method or path is read through a null pointer here; the result stands for that too.\<close>

definition aws_s3_abort_multipart_upload_message_new :: "http_lib \<Rightarrow> 's http_message \<Rightarrow> string \<Rightarrow> 's http_message option" where
  "aws_s3_abort_multipart_upload_message_new A base upload_id =
     (case aws_s3_message_util_copy_http_message_no_body_filter_headers A base g_s3_abort_multipart_upload_excluded_headers True True of
        None \<Rightarrow> None
      | Some message \<Rightarrow>
          (case aws_s3_message_util_set_multipart_request_path (Some upload_id) 0 False message of
             None \<Rightarrow> None
           | Some message \<Rightarrow> Some (message\<lparr>hm_method := Some g_delete_method\<rparr>)))"

subsection \<open>What aws-c-http promises\<close>

text \<open>
  Names are compared without case; a value is kept as it is when it has no white space around it; a header
  without name is refused. Setting replaces every header of the name by one; how the list is ordered then is not said.
\<close>

definition plain_value :: "string \<Rightarrow> bool" where
  "plain_value v \<longleftrightarrow> v = [] \<or> \<not> is_space (hd v) \<and> \<not> is_space (last v)"

definition named :: "http_lib \<Rightarrow> string \<Rightarrow> string \<times> string \<Rightarrow> bool" where
  "named A name header = eq_ignore_case (http_str A) (fst header) name"

definition http_ok :: "http_lib \<Rightarrow> bool" where
  "http_ok A \<longleftrightarrow> str_ok (http_str A) \<and>
     (\<forall>headers name. headers_get A headers name =
        (case List.find (named A name) headers of None \<Rightarrow> Inl AWS_ERROR_HTTP_HEADER_NOT_FOUND | Some (_, v) \<Rightarrow> Inr v)) \<and>
     (\<forall>headers name v. name \<noteq> [] \<and> plain_value v \<longrightarrow> headers_add A headers name v = Inr (headers @ [(name, v)])) \<and>
     (\<forall>headers name v. name \<noteq> [] \<and> plain_value v \<longrightarrow> (\<exists>headers'. headers_set A headers name v = Inr headers' \<and>
        filter (named A name) headers' = [(name, v)] \<and>
        mset (filter (\<lambda>h. \<not> named A name h) headers') = mset (filter (\<lambda>h. \<not> named A name h) headers))) \<and>
     (\<forall>headers v. \<exists>e. headers_set A headers [] v = Inl e)"

lemma http_okD:
  assumes "http_ok A"
  shows "str_ok (http_str A)"
    "headers_get A headers name =
        (case List.find (named A name) headers of None \<Rightarrow> Inl AWS_ERROR_HTTP_HEADER_NOT_FOUND | Some (_, v) \<Rightarrow> Inr v)"
    "name \<noteq> [] \<Longrightarrow> plain_value v \<Longrightarrow> headers_add A headers name v = Inr (headers @ [(name, v)])"
    "\<exists>e. headers_set A headers [] v = Inl e"
  using assms by (auto simp: http_ok_def)

lemma http_setE:
  assumes "http_ok A" "name \<noteq> []" "plain_value v"
  obtains headers' where "set_header A name v message = Some (message\<lparr>hm_headers := headers'\<rparr>)"
    "filter (named A name) headers' = [(name, v)]"
    "mset (filter (\<lambda>h. \<not> named A name h) headers') = mset (filter (\<lambda>h. \<not> named A name h) (hm_headers message))"
proof -
  have "\<exists>headers'. headers_set A (hm_headers message) name v = Inr headers' \<and> filter (named A name) headers' = [(name, v)] \<and>
      mset (filter (\<lambda>h. \<not> named A name h) headers') = mset (filter (\<lambda>h. \<not> named A name h) (hm_headers message))"
    using assms by (simp add: http_ok_def)
  then obtain headers' where "headers_set A (hm_headers message) name v = Inr headers'" "filter (named A name) headers' = [(name, v)]"
      "mset (filter (\<lambda>h. \<not> named A name h) headers') = mset (filter (\<lambda>h. \<not> named A name h) (hm_headers message))"
    by (elim exE conjE)
  then show thesis by (intro that [of headers']) (simp_all add: set_header_def)
qed

lemma named_iff: "http_ok A \<Longrightarrow> named A name h \<longleftrightarrow> map ascii_lower (fst h) = map ascii_lower name"
  by (auto simp: named_def dest!: http_okD(1) simp: str_ok_def ignores_case_def)

lemma find_filter: "List.find P xs = (case filter P xs of [] \<Rightarrow> None | x # _ \<Rightarrow> Some x)"
  by (induction xs) auto

text \<open>The header just set is found; a header of another name is not touched.\<close>

lemma get_set:
  assumes "http_ok A" "filter (named A name) headers' = [(name, v)]"
  shows "headers_get A headers' name = Inr v"
  using assms by (simp add: http_okD(2) find_filter)

lemma get_other:
  assumes "http_ok A" "mset (filter (\<lambda>h. \<not> named A name h) headers') = mset (filter (\<lambda>h. \<not> named A name h) headers)"
    "map ascii_lower other \<noteq> map ascii_lower name" "filter (named A other) headers = [(other, w)]"
  shows "filter (named A other) headers' = [(other, w)]"
proof -
  have other: "filter (\<lambda>h. \<not> named A name h \<and> named A other h) hs = filter (named A other) hs" for hs
    using assms(3) by (auto simp: named_iff [OF assms(1)] intro!: filter_cong)
  have "mset (filter (named A other) headers') = mset [(other, w)]"
    using arg_cong [OF assms(2), of "filter_mset (named A other)"] assms(4)
    by (simp flip: mset_filter add: other [simplified])
  then show ?thesis by (simp del: mset_filter)
qed

subsection \<open>Which headers a copied message has\<close>

lemma copy_headers_eq:
  fixes dest :: "'s http_message"
  assumes "http_ok A" "\<forall>(n, v) \<in> set headers. n \<noteq> [] \<and> plain_value v"
  shows "aws_s3_message_util_copy_headers A headers dest excluded meta checksum =
    dest\<lparr>hm_headers := hm_headers dest @
      filter (\<lambda>(n, v). \<not> excluded_header (http_str A) excluded meta checksum n) headers\<rparr>"
  using assms(2)
proof (induction headers arbitrary: dest)
  case (Cons h headers)
  obtain n v where h: "h = (n, v)" by (cases h)
  then have "add_header A n v dest = Some (dest\<lparr>hm_headers := hm_headers dest @ [(n, v)]\<rparr>)" for dest :: "'s http_message"
    using Cons.prems http_okD(3) [OF assms(1)] by (simp add: add_header_def)
  then show ?case using h Cons.prems Cons.IH by simp
qed simp

lemma set_headers_ok:
  fixes message :: "'s http_message"
  assumes "http_ok A" "\<forall>(n, v) \<in> set hs. n \<noteq> [] \<and> plain_value v" "distinct (map (\<lambda>(n, v). map ascii_lower n) hs)"
  shows "\<exists>headers'. set_headers A hs message = (True, message\<lparr>hm_headers := headers'\<rparr>) \<and>
    (\<forall>(n, v) \<in> set hs. filter (named A n) headers' = [(n, v)]) \<and>
    (\<forall>n v. map ascii_lower n \<notin> (\<lambda>(n, v). map ascii_lower n) ` set hs \<and>
       filter (named A n) (hm_headers message) = [(n, v)] \<longrightarrow> filter (named A n) headers' = [(n, v)]) \<and>
    set headers' \<subseteq> set hs \<union> set (hm_headers message) \<and>
    {h \<in> set (hm_headers message). \<forall>(n, v) \<in> set hs. \<not> named A n h} \<subseteq> set headers'"
  using assms(2,3)
proof (induction hs arbitrary: message)
  case (Cons h hs)
  obtain n v where h: "h = (n, v)" by (cases h)
  then have nv: "n \<noteq> []" "plain_value v" using Cons.prems by simp_all
  obtain hs1 where hs1: "set_header A n v message = Some (message\<lparr>hm_headers := hs1\<rparr>)" "filter (named A n) hs1 = [(n, v)]"
    "mset (filter (\<lambda>h. \<not> named A n h) hs1) = mset (filter (\<lambda>h. \<not> named A n h) (hm_headers message))"
    by (rule http_setE [OF assms(1) nv])
  obtain headers' where IH: "set_headers A hs (message\<lparr>hm_headers := hs1\<rparr>) = (True, message\<lparr>hm_headers := headers'\<rparr>)"
    "\<forall>(n, v) \<in> set hs. filter (named A n) headers' = [(n, v)]"
    "\<And>n v. map ascii_lower n \<notin> (\<lambda>(n, v). map ascii_lower n) ` set hs \<Longrightarrow> filter (named A n) hs1 = [(n, v)] \<Longrightarrow>
       filter (named A n) headers' = [(n, v)]"
    "set headers' \<subseteq> set hs \<union> set hs1" "{h \<in> set hs1. \<forall>(n, v) \<in> set hs. \<not> named A n h} \<subseteq> set headers'"
    using Cons.IH [of "message\<lparr>hm_headers := hs1\<rparr>"] Cons.prems by auto
  have others: "set (filter (\<lambda>h. \<not> named A n h) hs1) = set (filter (\<lambda>h. \<not> named A n h) (hm_headers message))"
    by (rule mset_eq_setD [OF hs1(3)])
  have "set hs1 \<subseteq> set (filter (named A n) hs1) \<union> set (filter (\<lambda>h. \<not> named A n h) hs1)" by auto
  then have "set hs1 \<subseteq> insert (n, v) (set (hm_headers message))" using hs1(2) others by auto
  moreover have "{h \<in> set (hm_headers message). \<not> named A n h} \<subseteq> set hs1" using others by auto
  moreover have "filter (named A m) hs1 = [(m, w)]"
    if "map ascii_lower m \<noteq> map ascii_lower n" "filter (named A m) (hm_headers message) = [(m, w)]" for m w
    by (rule get_other [OF assms(1) hs1(3) that])
  moreover have "filter (named A n) headers' = [(n, v)]"
    using Cons.prems(2) h by (intro IH(3) hs1(2)) auto
  ultimately show ?case
    using hs1(1) IH h by (intro exI [of _ headers']) auto
next
  case Nil
  show ?case by (intro exI [of _ "hm_headers message"]) simp
qed

lemma plain_digits: "s \<noteq> [] \<Longrightarrow> list_all is_digit s \<Longrightarrow> plain_value s"
proof -
  have digit: "\<not> is_space c" if "is_digit c" for c using that by (auto simp: is_digit_def is_space_def)
  assume "s \<noteq> []" "list_all is_digit s"
  then have "is_digit (hd s)" "is_digit (last s)" by (simp_all add: list_all_iff)
  then show ?thesis using digit by (simp add: plain_value_def)
qed

lemma plain_show [simp]: "plain_value (show_u64 n)"
  unfolding show_u64_def by (intro plain_digits) (simp_all add: show_nat_digits)

lemma plain_checksum_name: "aws_checksum_algorithm_is_combinable a \<Longrightarrow> plain_value (aws_get_http_header_name_from_checksum_algorithm a)"
  by (auto elim!: combinable_cases simp: plain_value_def is_space_def)

lemma not_excluded:
  assumes "http_ok A" "name \<in> set excluded"
  shows "List.find (named A name) (filter (\<lambda>(n, v). \<not> excluded_header (http_str A) excluded meta checksum n) headers) = None"
  using assms(2) by (auto simp: find_None_iff excluded_header_def named_def list_ex_iff)

text \<open>The path of a part.\<close>

lemma part_path:
  assumes "hm_path message = Some path" "0 < part_number" "part_number \<le> 10000"
  shows "aws_s3_message_util_set_multipart_request_path (Some upload_id) part_number False message =
    Some (message\<lparr>hm_path := Some (path @ (if CHR ''?'' \<in> set path then ''&'' else ''?'') @
      ''partNumber='' @ show_nat (unat part_number) @ ''&uploadId='' @ upload_id)\<rparr>)"
proof -
  have "uint part_number \<le> 10000" using assms(3) by (simp add: word_le_def)
  moreover have "- (2 ^ 31) \<le> uint part_number" using uint_ge_0 [of part_number] order_trans [of _ 0 "uint part_number"] by simp
  ultimately have "sint part_number = int (unat part_number)"
    using signed_take_bit_int_eq_self [of 31 "uint part_number"] by (simp add: sint_uint)
  then show ?thesis using assms by (simp add: aws_s3_message_util_set_multipart_request_path_def show_int_def)
qed

text \<open>The headers that describe a body sent with a trailer.\<close>

definition trailer_headers :: "checksum_algorithm \<Rightarrow> nat \<Rightarrow> nat \<Rightarrow> (string \<times> string) list" where
  "trailer_headers algorithm body_length encoding_length =
     [(''Content-Encoding'', ''aws-chunked''), (''x-amz-trailer'', aws_get_http_header_name_from_checksum_algorithm algorithm),
      (''x-amz-decoded-content-length'', show_u64 (of_nat body_length)), (''Content-Length'', show_u64 (of_nat encoding_length))]"

lemma trailer_headers_ok:
  assumes "aws_checksum_algorithm_is_combinable a"
  shows "\<forall>(n, v) \<in> set (trailer_headers a k l). n \<noteq> [] \<and> plain_value v"
    "distinct (map (\<lambda>(n, v). map ascii_lower n) (trailer_headers a k l))"
  using plain_checksum_name [OF assms]
  by (simp_all add: trailer_headers_def ascii_lower_def plain_value_def [of "''aws-chunked''"] is_space_def)

lemma set_headers_append:
  "set_headers A (xs @ ys) m = (case set_headers A xs m of (True, m) \<Rightarrow> set_headers A ys m | (False, m) \<Rightarrow> (False, m))"
  by (induction xs arbitrary: m) (auto split: option.splits)

lemma trailer_body:
  fixes message :: "'s http_message"
  assumes http: "http_ok A" and stream: "input_stream L valid content" and hash: "crc_ok H" "be_ok H" "base64_ok H"
    and config: "aws_checksum_algorithm_is_combinable (st_checksum_algorithm config)" "st_location config = AWS_SCL_TRAILER"
      "aws_s3_upload_request_checksum_context_new H (Some config) review = Some cx"
    and body: "length buffer < 2 ^ 63" "List.find (named A g_content_encoding_header_name) (hm_headers message) = None"
  obtains c ck encoding headers' where
    "aws_s3_message_util_assign_body H L A (Some buffer) None message (Some cx) =
       (True, message\<lparr>hm_headers := headers', hm_body := Some (CHUNKED c)\<rparr>, Some cx)"
    "aws_base64_encode H (crc_digest H (st_checksum_algorithm config) buffer) (cx_encoded_checksum_size cx) = Inr ck"
    "encoding = aws_chunked (aws_get_http_header_name_from_checksum_algorithm (st_checksum_algorithm config)) ck buffer"
    "streams H L c encoding"
    "\<forall>(n, v) \<in> set (trailer_headers (st_checksum_algorithm config) (length buffer) (length encoding)). headers_get A headers' n = Inr v"
    "set headers' \<subseteq> set (trailer_headers (st_checksum_algorithm config) (length buffer) (length encoding)) \<union> set (hm_headers message)"
    "{h \<in> set (hm_headers message). \<forall>(n, v) \<in> set (trailer_headers (st_checksum_algorithm config) (length buffer) (length encoding)).
       \<not> named A n h} \<subseteq> set headers'"
proof -
  let ?a = "st_checksum_algorithm config"
  let ?encoding = "\<lambda>ck. aws_chunked (aws_get_http_header_name_from_checksum_algorithm ?a) ck buffer"
  obtain s where s: "new_from_cursor L buffer = Some s" "valid s" "content s = buffer" "in_length L s = Inr (of_nat (length buffer))"
    using input_stream.cursor [OF stream, of buffer] by (elim exE conjE)
  obtain c ck where c: "aws_chunk_stream_new H L s cx = Some c"
    "aws_base64_encode H (crc_digest H ?a buffer) (cx_encoded_checksum_size cx) = Inr ck" "streams H L c (?encoding ck)"
    by (rule crc_chunk_stream [OF stream hash config s(2), unfolded s(3), OF s(4) body(1)])
  let ?hs = "trailer_headers ?a (length buffer) (length (?encoding ck))"
  obtain headers' where set: "set_headers A ?hs message = (True, message\<lparr>hm_headers := headers'\<rparr>)"
    "\<forall>(n, v) \<in> set ?hs. filter (named A n) headers' = [(n, v)]" "set headers' \<subseteq> set ?hs \<union> set (hm_headers message)"
    "{h \<in> set (hm_headers message). \<forall>(n, v) \<in> set ?hs. \<not> named A n h} \<subseteq> set headers'"
    using set_headers_ok [OF http trailer_headers_ok [OF config(1), where k = "length buffer" and l = "length (?encoding ck)"],
      where message = message]
    by (elim exE conjE)
  let ?three = "[(g_content_encoding_header_name, content_encoding A message),
    (g_trailer_header_name, aws_get_http_header_name_from_checksum_algorithm ?a),
    (g_decoded_content_length_header_name, show_u64 (of_nat (length buffer)))]"
  have content: "content_encoding A message = ''aws-chunked''"
    using body(2) by (simp add: content_encoding_def http_okD(2) [OF http] g_content_encoding_header_aws_chunked_def)
  have "?hs = ?three @ [(g_content_length_header_name, show_u64 (of_nat (length (?encoding ck))))]"
    unfolding content by (simp add: trailer_headers_def g_content_encoding_header_name_def g_trailer_header_name_def
        g_decoded_content_length_header_name_def g_content_length_header_name_def)
  then obtain m3 where m3: "set_headers A ?three message = (True, m3)"
    "set_header A g_content_length_header_name (show_u64 (of_nat (length (?encoding ck)))) m3 = Some (message\<lparr>hm_headers := headers'\<rparr>)"
    using set(1) unfolding set_headers_append by (cases "set_headers A ?three message") (auto split: bool.splits option.splits)
  note cx = new_context [OF config(3,1,2)]
  have alg: "?a \<noteq> AWS_SCA_NONE" "aws_s3_upload_request_checksum_context_should_add_trailer (Some cx)"
    using cx(1,5) config(1) by (auto simp: aws_s3_upload_request_checksum_context_should_add_trailer_def
        aws_checksum_algorithm_is_combinable_def)
  have "aws_s3_message_util_assign_body H L A (Some buffer) None message (Some cx) =
       (True, message\<lparr>hm_headers := headers', hm_body := Some (CHUNKED c)\<rparr>, Some cx)"
    using m3 c(3) by (simp add: aws_s3_message_util_assign_body_def checksum_body_def s(1,4) alg cx(1) c(1) body_stream_length_def streams_def
        del: set_headers.simps)
  moreover have "\<forall>(n, v) \<in> set ?hs. headers_get A headers' n = Inr v" using set(2) get_set [OF http] by auto
  ultimately show thesis by (intro that [OF _ c(2) refl c(3) _ set(3,4)])
qed

text \<open>The names of the headers a part takes over: without case, not in the list, no metadata, no checksum value.\<close>

definition upload_part_header :: "string \<Rightarrow> bool" where
  "upload_part_header name \<longleftrightarrow>
     (let lower = map ascii_lower name in
      lower \<notin> map ascii_lower ` set g_s3_upload_part_excluded_headers \<and>
      take (length ''x-amz-meta-'') lower \<noteq> ''x-amz-meta-'' \<and>
      (take (length ''x-amz-checksum-'') lower = ''x-amz-checksum-'' \<longrightarrow>
         lower = ''x-amz-checksum-type'' \<or> lower = ''x-amz-checksum-mode'' \<or> lower = ''x-amz-checksum-algorithm''))"

lemma not_excluded_iff:
  assumes "http_ok A"
  shows "excluded_header (http_str A) g_s3_upload_part_excluded_headers True True name \<longleftrightarrow> \<not> upload_part_header name"
proof -
  have eq: "eq_ignore_case (http_str A) a b \<longleftrightarrow> map ascii_lower a = map ascii_lower b"
    and starts: "starts_with_ignore_case (http_str A) s p \<longleftrightarrow> take (length p) (map ascii_lower s) = map ascii_lower p" for a b s p
    using http_okD(1) [OF assms] by (auto simp: str_ok_def ignores_case_def)
  have lower: "map ascii_lower ''x-amz-meta-'' = ''x-amz-meta-''" "map ascii_lower ''x-amz-checksum-'' = ''x-amz-checksum-''"
    "map ascii_lower ''x-amz-checksum-type'' = ''x-amz-checksum-type''" "map ascii_lower ''x-amz-checksum-mode'' = ''x-amz-checksum-mode''"
    "map ascii_lower ''x-amz-checksum-algorithm'' = ''x-amz-checksum-algorithm''"
    by (simp_all add: ascii_lower_def)
  have listed: "list_ex (eq_ignore_case (http_str A) name) excluded \<longleftrightarrow> map ascii_lower name \<in> map ascii_lower ` set excluded" for excluded
    by (auto simp: list_ex_iff eq)
  show ?thesis
    unfolding excluded_header_def upload_part_header_def aws_s3_is_checksum_value_header_name_def s_x_amz_meta_prefix_def Let_def
      listed eq starts lower by (simp only: de_Morgan_conj de_Morgan_disj imp_conv_disj not_not simp_thms conj_assoc disj_assoc)
qed

text \<open>
  C32. The message of an UploadPart that carries its checksum in a trailer describes what it sends, when the checksum is
  a CRC (CRC32, CRC32C or CRC64NVME): its path names the part and the upload; its body stream produces the aws-chunked
  encoding of the part, the declared content length is the length of that encoding, the decoded content length the length
  of the part, and the trailer is announced. Of the caller's headers it has no excluded one, and every other one except
  those with the name of a header that describes the body, which are replaced.
\<close>

theorem upload_part_message_describes_body:
  fixes base :: "'s http_message"
  assumes "http_ok A" "input_stream L valid content" "crc_ok H" "be_ok H" "base64_ok H"
    and "aws_checksum_algorithm_is_combinable (st_checksum_algorithm config)" "st_location config = AWS_SCL_TRAILER"
    and "aws_s3_upload_request_checksum_context_new H (Some config) review = Some cx" "length buffer < 2 ^ 63"
    and "hm_method base = Some request_method" "hm_path base = Some path" "0 < part_number" "part_number \<le> 10000"
    and "\<forall>(n, v) \<in> set (hm_headers base). n \<noteq> [] \<and> plain_value v"
  shows "\<exists>message c ck encoding.
    aws_s3_upload_part_message_new H L A base buffer part_number (Some upload_id) md5 (Some cx) = (Some message, Some cx) \<and>
    hm_method message = Some request_method \<and>
    hm_path message = Some (path @ (if CHR ''?'' \<in> set path then ''&'' else ''?'') @
      ''partNumber='' @ show_nat (unat part_number) @ ''&uploadId='' @ upload_id) \<and>
    aws_base64_encode H (crc_digest H (st_checksum_algorithm config) buffer) (cx_encoded_checksum_size cx) = Inr ck \<and>
    encoding = aws_chunked (aws_get_http_header_name_from_checksum_algorithm (st_checksum_algorithm config)) ck buffer \<and>
    hm_body message = Some (CHUNKED c) \<and> streams H L c encoding \<and>
    (let described = trailer_headers (st_checksum_algorithm config) (length buffer) (length encoding);
         kept = {(n, v) \<in> set (hm_headers base). upload_part_header n}
     in (\<forall>(n, v) \<in> set described. headers_get A (hm_headers message) n = Inr v) \<and>
        set (hm_headers message) \<subseteq> set described \<union> kept \<and>
        {h \<in> kept. \<forall>(n, v) \<in> set described. \<not> named A n h} \<subseteq> set (hm_headers message))"
proof -
  let ?kept = "filter (\<lambda>(n, v). \<not> excluded_header (http_str A) g_s3_upload_part_excluded_headers True True n) (hm_headers base)"
  let ?path = "path @ (if CHR ''?'' \<in> set path then ''&'' else ''?'') @ ''partNumber='' @ show_nat (unat part_number) @ ''&uploadId='' @ upload_id"
  let ?message = "aws_http_message_new_request\<lparr>hm_method := Some request_method, hm_path := Some ?path, hm_headers := ?kept\<rparr> :: 's http_message"
  have none: "List.find (named A g_content_encoding_header_name) (hm_headers ?message) = None"
    using not_excluded [OF assms(1), of g_content_encoding_header_name g_s3_upload_part_excluded_headers True True "hm_headers base"]
    by (simp add: g_s3_upload_part_excluded_headers_def g_content_encoding_header_name_def)
  obtain c ck encoding headers' where t:
    "aws_s3_message_util_assign_body H L A (Some buffer) None ?message (Some cx) =
       (True, ?message\<lparr>hm_headers := headers', hm_body := Some (CHUNKED c)\<rparr>, Some cx)"
    "aws_base64_encode H (crc_digest H (st_checksum_algorithm config) buffer) (cx_encoded_checksum_size cx) = Inr ck"
    "encoding = aws_chunked (aws_get_http_header_name_from_checksum_algorithm (st_checksum_algorithm config)) ck buffer"
    "streams H L c encoding"
    "\<forall>(n, v) \<in> set (trailer_headers (st_checksum_algorithm config) (length buffer) (length encoding)). headers_get A headers' n = Inr v"
    "set headers' \<subseteq> set (trailer_headers (st_checksum_algorithm config) (length buffer) (length encoding)) \<union> set (hm_headers ?message)"
    "{h \<in> set (hm_headers ?message). \<forall>(n, v) \<in> set (trailer_headers (st_checksum_algorithm config) (length buffer) (length encoding)).
       \<not> named A n h} \<subseteq> set headers'"
    by (rule trailer_body [OF assms(1-9) none])
  have "\<not> no_flexible_checksum (Some cx)"
    using new_context(5) [OF assms(8,6,7)] by (simp add: no_flexible_checksum_def)
  moreover have "aws_s3_message_util_copy_http_message_no_body_filter_headers A base g_s3_upload_part_excluded_headers True True =
      Some (aws_http_message_new_request\<lparr>hm_method := Some request_method, hm_path := Some path, hm_headers := ?kept\<rparr>)"
    using assms(10,11)
    by (simp add: copy_headers_eq [OF assms(1,14)] aws_s3_message_util_copy_http_message_no_body_filter_headers_def aws_http_message_new_request_def)
  moreover have "aws_s3_message_util_set_multipart_request_path (Some upload_id) part_number False
      (aws_http_message_new_request\<lparr>hm_method := Some request_method, hm_path := Some path, hm_headers := ?kept\<rparr>) = Some ?message"
    by (simp add: part_path [OF _ assms(12,13)])
  ultimately have "aws_s3_upload_part_message_new H L A base buffer part_number (Some upload_id) md5 (Some cx) =
      (Some (?message\<lparr>hm_headers := headers', hm_body := Some (CHUNKED c)\<rparr>), Some cx)"
    using t(1) by (simp add: aws_s3_upload_part_message_new_def)
  then show ?thesis
    using t(2-7) by (intro exI [of _ "?message\<lparr>hm_headers := headers', hm_body := Some (CHUNKED c)\<rparr>"] exI [of _ c] exI [of _ ck]
        exI [of _ encoding]) (auto simp: Let_def not_excluded_iff [OF assms(1)])
qed

definition example_http :: http_lib where
  "example_http =
     \<lparr>http_str = example_str,
      headers_get = (\<lambda>headers name. case List.find (\<lambda>h. map ascii_lower (fst h) = map ascii_lower name) headers of
          None \<Rightarrow> Inl AWS_ERROR_HTTP_HEADER_NOT_FOUND | Some (_, v) \<Rightarrow> Inr v),
      headers_set = (\<lambda>headers name v. if name = [] then Inl AWS_ERROR_INVALID_ARGUMENT
          else Inr (filter (\<lambda>h. map ascii_lower (fst h) \<noteq> map ascii_lower name) headers @ [(name, v)])),
      headers_erase = (\<lambda>headers name. Inr (filter (\<lambda>h. map ascii_lower (fst h) \<noteq> map ascii_lower name) headers)),
      headers_add = (\<lambda>headers name v. if name = [] then Inl AWS_ERROR_INVALID_ARGUMENT else Inr (headers @ [(name, v)])),
      find_from = (\<lambda>s t. if t = ''.'' \<and> CHR ''.'' \<in> set s then Some (dropWhile (\<lambda>c. c \<noteq> CHR ''.'') s) else None),
      md5_compute = (\<lambda>body. Inr (replicate 16 0))\<rparr>"

lemma example_http_ok: "http_ok example_http"
proof -
  have named: "named example_http name = (\<lambda>h. map ascii_lower (fst h) = map ascii_lower name)" for name
    by (rule ext) (simp add: named_def example_http_def example_str_def)
  have ops: "headers_get example_http headers name =
      (case List.find (named example_http name) headers of None \<Rightarrow> Inl AWS_ERROR_HTTP_HEADER_NOT_FOUND | Some (_, v) \<Rightarrow> Inr v)"
    "headers_add example_http headers name v = (if name = [] then Inl AWS_ERROR_INVALID_ARGUMENT else Inr (headers @ [(name, v)]))"
    "headers_set example_http headers name v = (if name = [] then Inl AWS_ERROR_INVALID_ARGUMENT
       else Inr (filter (\<lambda>h. \<not> named example_http name h) headers @ [(name, v)]))" for headers name v
    unfolding named by (simp_all add: example_http_def)
  have "str_ok (http_str example_http)"
    by (simp add: example_http_def str_ok_def example_str_def ignores_case_def)
  then show ?thesis
    by (auto simp: http_ok_def ops) (simp_all add: named flip: mset_filter)
qed

theorem upload_part_message_describes_body_witness:
  "\<exists>cx message c ck encoding. aws_s3_upload_part_message_new example_hash cursor_stream example_http
     \<lparr>hm_method = Some ''PUT'', hm_path = Some ''/key'', hm_headers = [(''Host'', ''b.s3.amazonaws.com''), (''X-Amz-Acl'', ''private'')], hm_body = None\<rparr>
     [104, 105] 7 (Some ''id'') False (Some cx) = (Some message, Some cx) \<and>
   hm_path message = Some ''/key?partNumber=7&uploadId=id'' \<and>
   encoding = aws_chunked ''x-amz-checksum-crc32'' ck [104, 105] \<and> hm_body message = Some (CHUNKED c) \<and>
   streams example_hash cursor_stream c encoding \<and>
   headers_get example_http (hm_headers message) ''Content-Length'' = Inr (show_u64 (of_nat (length encoding)))"
proof -
  let ?config = "zero_checksum_config_storage\<lparr>st_checksum_algorithm := AWS_SCA_CRC32, st_location := AWS_SCL_TRAILER\<rparr>"
  let ?base = "\<lparr>hm_method = Some ''PUT'', hm_path = Some ''/key'', hm_headers = [(''Host'', ''b.s3.amazonaws.com''), (''X-Amz-Acl'', ''private'')],
    hm_body = None\<rparr> :: (u8 list \<times> nat) http_message"
  obtain cx where cx: "aws_s3_upload_request_checksum_context_new example_hash (Some ?config) False = Some cx"
    by (simp add: aws_s3_upload_request_checksum_context_new_def s_s3_upload_request_checksum_context_new_base_def example_hash_def)
  have h: "aws_checksum_algorithm_is_combinable (st_checksum_algorithm ?config)" "st_location ?config = AWS_SCL_TRAILER"
    "length [104, 105 :: u8] < 2 ^ 63" "hm_method ?base = Some ''PUT''" "hm_path ?base = Some ''/key''" "0 < (7 :: u32)" "(7 :: u32) \<le> 10000"
    "\<forall>(n, v) \<in> set (hm_headers ?base). n \<noteq> [] \<and> plain_value v"
    by (simp_all add: aws_checksum_algorithm_is_combinable_def plain_value_def is_space_def)
  have "show_nat 7 = ''7''" by code_simp
  moreover obtain message c ck encoding where
    "aws_s3_upload_part_message_new example_hash cursor_stream example_http ?base [104, 105] 7 (Some ''id'') False (Some cx) = (Some message, Some cx)"
    "hm_path message = Some (''/key'' @ (if CHR ''?'' \<in> set ''/key'' then ''&'' else ''?'') @ ''partNumber='' @ show_nat (unat (7 :: u32)) @
       ''&uploadId='' @ ''id'')"
    "encoding = aws_chunked (aws_get_http_header_name_from_checksum_algorithm (st_checksum_algorithm ?config)) ck [104, 105]"
    "hm_body message = Some (CHUNKED c)" "streams example_hash cursor_stream c encoding"
    "\<forall>(n, v) \<in> set (trailer_headers (st_checksum_algorithm ?config) (length [104, 105 :: u8]) (length encoding)).
       headers_get example_http (hm_headers message) n = Inr v"
    using upload_part_message_describes_body [OF example_http_ok buffer.input_stream_axioms example_hash_ok example_hash_encodes h(1,2) cx h(3-8),
        of "''id''" False] unfolding Let_def by (elim exE conjE)
  ultimately show ?thesis
    by (intro exI [of _ cx] exI [of _ message] exI [of _ c] exI [of _ ck] exI [of _ encoding]) (simp add: trailer_headers_def)
qed

subsection \<open>The payload that completes an upload\<close>

text \<open>A reference reader of the payload: the ETag, number and checksum of each part.\<close>

definition strip :: "string \<Rightarrow> string \<Rightarrow> string option" where
  "strip prefix s = (if take (length prefix) s = prefix then Some (drop (length prefix) s) else None)"

definition text_end :: "string \<Rightarrow> string \<Rightarrow> (string \<times> string) option" where
  "text_end closing s = map_option (\<lambda>rest. (takeWhile (\<lambda>c. c \<noteq> CHR ''<'') s, rest)) (strip closing (dropWhile (\<lambda>c. c \<noteq> CHR ''<'') s))"

definition read_element :: "string \<Rightarrow> string \<Rightarrow> string \<Rightarrow> (string \<times> string) option" where
  "read_element opening closing s = Option.bind (strip opening s) (text_end closing)"

definition read_checksum :: "string \<Rightarrow> string \<Rightarrow> (string \<times> string) option" where
  "read_checksum name s =
     (if name = [] then Some ([], s) else read_element (''         <'' @ name @ ''>'') (''</'' @ name @ ''>'' @ newline) s)"

definition read_part :: "string \<Rightarrow> string \<Rightarrow> ((string \<times> nat \<times> string) \<times> string) option" where
  "read_part name s =
     Option.bind (strip (''    <Part>'' @ newline) s) (\<lambda>s.
     Option.bind (read_element ''        <ETag>'' (''</ETag>'' @ newline) s) (\<lambda>(etag, s).
     Option.bind (read_element ''         <PartNumber>'' (''</PartNumber>'' @ newline) s) (\<lambda>(number, s).
     Option.bind (read_checksum name s) (\<lambda>(checksum, s).
     map_option (\<lambda>s. ((etag, digits_value number, checksum), s)) (strip (''    </Part>'' @ newline) s)))))"

function read_parts :: "string \<Rightarrow> string \<Rightarrow> (string \<times> nat \<times> string) list option" where
  "read_parts name s =
     (if s = s_complete_payload_end then Some []
      else case read_part name s of
          None \<Rightarrow> None
        | Some (part, rest) \<Rightarrow> if length rest < length s then map_option ((#) part) (read_parts name rest) else None)"
  by pat_completeness auto

termination by (relation "measure (\<lambda>(name, s). length s)") auto

declare read_parts.simps [simp del]

definition read_payload :: "string \<Rightarrow> string \<Rightarrow> (string \<times> nat \<times> string) list option" where
  "read_payload name s = Option.bind (strip s_complete_payload_begin s) (read_parts name)"

lemma strip_append [simp]: "strip p (p @ s) = Some s"
  by (simp add: strip_def)

lemma text_end_append:
  assumes "CHR ''<'' \<notin> set t" "closing \<noteq> []" "hd closing = CHR ''<''"
  shows "text_end closing (t @ closing @ s) = Some (t, s)"
proof -
  have "takeWhile (\<lambda>c. c \<noteq> CHR ''<'') (t @ closing @ s) = t" "dropWhile (\<lambda>c. c \<noteq> CHR ''<'') (t @ closing @ s) = closing @ s"
    using assms by (cases closing; auto simp: takeWhile_append dropWhile_append)+
  then show ?thesis by (simp add: text_end_def)
qed

lemma read_element_append:
  assumes "CHR ''<'' \<notin> set t" "closing \<noteq> []" "hd closing = CHR ''<''"
  shows "read_element opening closing (opening @ t @ closing @ s) = Some (t, s)"
  using text_end_append [OF assms] by (simp add: read_element_def)

text \<open>What a part of the upload contributes.\<close>

definition part_checksum :: "mpu_part_info \<Rightarrow> string" where
  "part_checksum part = aws_s3_upload_request_checksum_context_get_checksum_cursor (mp_checksum_context part)"

definition part_section :: "string \<Rightarrow> nat \<Rightarrow> mpu_part_info \<Rightarrow> string" where
  "part_section name number part =
     (''    <Part>'' @ newline) @ ''        <ETag>'' @ mp_etag part @ (''</ETag>'' @ newline) @
     ''         <PartNumber>'' @ show_nat number @ (''</PartNumber>'' @ newline) @
     (if name = [] then [] else (''         <'' @ name @ ''>'') @ part_checksum part @ (''</'' @ name @ ''>'' @ newline)) @
     ''    </Part>'' @ newline"

definition xml_text :: "string \<Rightarrow> bool" where
  "xml_text t \<longleftrightarrow> CHR ''<'' \<notin> set t"

lemma show_nat_text: "xml_text (show_nat n)"
  using show_nat_digits [of n] by (auto simp: xml_text_def list_all_iff is_digit_def)

lemma read_part_section:
  assumes "xml_text (mp_etag part)" "xml_text (part_checksum part)"
  shows "read_part name (part_section name n part @ rest) =
    Some ((mp_etag part, n, if name = [] then [] else part_checksum part), rest)"
proof -
  have checksum: "read_checksum name ((if name = [] then [] else (''         <'' @ name @ ''>'') @ part_checksum part @
      (''</'' @ name @ ''>'' @ newline)) @ rest) = Some (if name = [] then [] else part_checksum part, rest)" for rest
    using assms(2) read_element_append [of "part_checksum part" "''</'' @ name @ ''>'' @ newline" "''         <'' @ name @ ''>''" rest]
    by (simp add: read_checksum_def xml_text_def del: append.simps)
  have etag: "read_element ''        <ETag>'' (''</ETag>'' @ newline) (''        <ETag>'' @ mp_etag part @ (''</ETag>'' @ newline) @ rest) =
      Some (mp_etag part, rest)" for rest
    using assms(1) by (intro read_element_append) (simp_all add: xml_text_def)
  have number: "read_element ''         <PartNumber>'' (''</PartNumber>'' @ newline)
      (''         <PartNumber>'' @ show_nat n @ (''</PartNumber>'' @ newline) @ rest) = Some (show_nat n, rest)" for rest
    using show_nat_text by (intro read_element_append) (simp_all add: xml_text_def)
  have "part_section name n part @ rest =
     (''    <Part>'' @ newline) @ ''        <ETag>'' @ mp_etag part @ (''</ETag>'' @ newline) @
     ''         <PartNumber>'' @ show_nat n @ (''</PartNumber>'' @ newline) @
     (if name = [] then [] else (''         <'' @ name @ ''>'') @ part_checksum part @ (''</'' @ name @ ''>'' @ newline)) @
     (''    </Part>'' @ newline) @ rest"
    by (simp add: part_section_def)
  then show ?thesis
    by (simp only: read_part_def strip_append etag number checksum bind.bind_lunit prod.case option.map show_nat_digits)
qed

lemma part_section_eq:
  "s_part_section_string_0 @ mp_etag part @ s_part_section_string_1 @ show_nat n @ s_close_part_number_tag @
     (if name \<noteq> []
      then s_open_start_bracket @ name @ s_close_bracket @
           aws_s3_upload_request_checksum_context_get_checksum_cursor (mp_checksum_context part) @
           s_open_end_bracket @ name @ s_close_bracket_new_line
      else []) @ s_close_part_tag @ rest = part_section name n part @ rest"
  by (simp add: part_section_def part_checksum_def s_part_section_string_0_def s_part_section_string_1_def s_close_part_number_tag_def
      s_close_part_tag_def s_open_start_bracket_def s_open_end_bracket_def s_close_bracket_def s_close_bracket_new_line_def)

lemma show_part_number: "n < 2 ^ 31 \<Longrightarrow> show_int (sint (of_nat n :: 32 word)) = show_nat n"
  by (simp add: show_int_def sint_uint uint_nat unat_of_nat take_bit_nat_eq_self signed_take_bit_int_eq_self)

lemma sections_of_parts:
  "length parts + i < 2 ^ 31 \<Longrightarrow> part_sections name i (map Some parts) =
   Some (concat (map (\<lambda>(number, part). part_section name number part) (enumerate (i + 1) parts)))"
proof (induction parts arbitrary: i)
  case (Cons part parts)
  then have "show_int (sint (of_nat (i + 1) :: 32 word)) = show_nat (i + 1)" by (intro show_part_number) simp
  moreover have "part_sections name (i + 1) (map Some parts) =
      Some (concat (map (\<lambda>(number, part). part_section name number part) (enumerate (i + 1 + 1) parts)))"
    using Cons.prems by (intro Cons.IH) simp
  ultimately show ?case
    by (simp only: list.map part_sections.simps option.map part_section_eq enumerate_simps concat.simps prod.case Suc_eq_plus1)
qed simp

lemma read_sections:
  "\<forall>part \<in> set parts. xml_text (mp_etag part) \<and> xml_text (part_checksum part) \<Longrightarrow>
   read_parts name (concat (map (\<lambda>(number, part). part_section name number part) (enumerate i parts)) @ s_complete_payload_end) =
   Some (map (\<lambda>(number, part). (mp_etag part, number, if name = [] then [] else part_checksum part)) (enumerate i parts))"
proof (induction parts arbitrary: i)
  case Nil
  show ?case by (simp add: read_parts.simps)
next
  case (Cons part parts)
  let ?rest = "concat (map (\<lambda>(number, part). part_section name number part) (enumerate (Suc i) parts)) @ s_complete_payload_end"
  have nonempty: "part_section name i part \<noteq> []" and first: "hd (part_section name i part) \<noteq> hd s_complete_payload_end"
    by (simp_all add: part_section_def s_complete_payload_end_def)
  have "part_section name i part @ ?rest \<noteq> s_complete_payload_end"
    using first hd_append2 [OF nonempty, of ?rest] by metis
  moreover have "length ?rest < length (part_section name i part @ ?rest)" using nonempty by simp
  moreover have "read_part name (part_section name i part @ ?rest) =
      Some ((mp_etag part, i, if name = [] then [] else part_checksum part), ?rest)"
    using Cons.prems by (intro read_part_section) simp_all
  moreover have "read_parts name ?rest =
      Some (map (\<lambda>(number, part). (mp_etag part, number, if name = [] then [] else part_checksum part)) (enumerate (Suc i) parts))"
    using Cons.prems by (intro Cons.IH) simp
  ultimately have "read_parts name (part_section name i part @ ?rest) =
      Some ((mp_etag part, i, if name = [] then [] else part_checksum part) #
        map (\<lambda>(number, part). (mp_etag part, number, if name = [] then [] else part_checksum part)) (enumerate (Suc i) parts))"
    unfolding read_parts.simps [of name "part_section name i part @ ?rest"]
    by (simp only: if_False if_True option.case prod.case option.map)
  then show ?case by simp
qed

text \<open>
  C33. The payload that completes an upload says exactly what was uploaded: read back, it gives for each part, in
  order and numbered from 1, its ETag and, when the upload has checksums, its checksum; for any texts that contain no
  markup and up to the greatest part number.
\<close>

theorem complete_payload_round_trip:
  assumes "length parts < 2 ^ 31" "\<forall>part \<in> set parts. xml_text (mp_etag part) \<and> xml_text (part_checksum part)"
  shows "\<exists>payload. complete_payload name (map Some parts) = Some payload \<and>
    read_payload name payload =
      Some (map (\<lambda>(number, part). (mp_etag part, number, if name = [] then [] else part_checksum part)) (enumerate 1 parts))"
  using sections_of_parts [of parts 0 name] read_sections [OF assms(2), of name 1] assms(1)
  by (simp add: complete_payload_def read_payload_def)

definition example_parts :: "mpu_part_info list" where
  "example_parts = [\<lparr>mp_size = 5, mp_etag = ''e1'', mp_checksum_context = None, mp_was_previously_uploaded = False\<rparr>,
     \<lparr>mp_size = 5, mp_etag = ''e2'', mp_checksum_context = None, mp_was_previously_uploaded = False\<rparr>]"

theorem complete_payload_round_trip_witness:
  "\<exists>payload. complete_payload [] (map Some example_parts) = Some payload \<and>
     read_payload [] payload = Some [(''e1'', 1, []), (''e2'', 2, [])]"
proof -
  have "length example_parts < 2 ^ 31" "\<forall>part \<in> set example_parts. xml_text (mp_etag part) \<and> xml_text (part_checksum part)"
    by (simp_all add: example_parts_def xml_text_def part_checksum_def aws_s3_upload_request_checksum_context_get_checksum_cursor_def)
  then show ?thesis
    using complete_payload_round_trip [of example_parts "[]"] by (simp add: example_parts_def numeral_2_eq_2)
qed

definition example_upload_config :: checksum_config where
  "example_upload_config = \<lparr>cc_location = AWS_SCL_NONE, cc_checksum_algorithm = AWS_SCA_NONE, cc_full_object_checksum_callback = False,
     cc_validate_response_checksum = False, cc_validate_checksum_algorithms = None,
     cc_response_checksum_validation_mode = Some AWS_SCVM_DEFAULT, cc_expected_checksum = '''', cc_expected_checksum_algorithm = AWS_SCA_NONE\<rparr>"

lemma unknown_checksum_config:
  assumes "aws_s3_meta_request_checksum_config_storage_init S (Some config) names hs = Inr stored"
    and "\<exists>name \<in> set names. aws_s3_is_checksum_value_header_name S name"
    and "\<forall>a \<in> set s_checksum_algo_priority_list. hs (aws_get_http_header_name_from_checksum_algorithm a) = None"
  shows "st_has_full_object_checksum stored" "st_checksum_algorithm stored = AWS_SCA_UNKNOWN"
proof -
  obtain name where name: "List.find (aws_s3_is_checksum_value_header_name S) names = Some name"
    using assms(2) by (metis find_None_iff not_None_eq)
  have "find_checksum_header hs as algo v = Inr (algo, v)"
    if "\<forall>a \<in> set as. hs (aws_get_http_header_name_from_checksum_algorithm a) = None" for as algo v
    using that by (induction as) simp_all
  then show "st_has_full_object_checksum stored" "st_checksum_algorithm stored = AWS_SCA_UNKNOWN"
    using assms(1,3) name
    by (auto simp: aws_s3_meta_request_checksum_config_storage_init_def s_init_and_verify_checksum_config_from_headers_def Let_def
        split: if_splits option.splits)
qed

text \<open>
  C34. A caller that gives the checksum of the object in a header of an algorithm the library does not know can never
  complete a multipart upload, although the configuration was accepted: the header with the checksum would have
  no name, aws-c-http refuses it, and no CompleteMultipartUpload message is made, whatever the parts are.
\<close>

theorem unknown_checksum_upload_cannot_complete:
  assumes "http_ok A" "aws_s3_meta_request_checksum_config_storage_init S (Some config) names hs = Inr stored"
    and "\<exists>name \<in> set names. aws_s3_is_checksum_value_header_name S name"
    and "\<forall>a \<in> set s_checksum_algo_priority_list. hs (aws_get_http_header_name_from_checksum_algorithm a) = None"
  shows "aws_s3_complete_multipart_message_new H L A base upload_id parts (Some stored) = Some None"
proof -
  have "set_header A [] v message = None" for v and message :: "'a http_message"
    using http_okD(4) [OF assms(1), of "hm_headers message" v] by (auto simp: set_header_def)
  then show ?thesis
    using unknown_checksum_config [OF assms(2-4)]
    by (simp add: aws_s3_complete_multipart_message_new_def aws_s3_complete_multipart_message_with_object_size_new_def Let_def
        split: option.split)
qed

theorem unknown_checksum_upload_cannot_complete_witness:
  "\<exists>stored. aws_s3_meta_request_checksum_config_storage_init example_str (Some example_upload_config) [''x-amz-checksum-md5'']
       [''x-amz-checksum-md5'' \<mapsto> ''abc''] = Inr stored \<and> st_unknown_checksum_algo stored = ''MD5'' \<and>
     aws_s3_complete_multipart_message_new example_hash cursor_stream example_http
       \<lparr>hm_method = Some ''PUT'', hm_path = Some ''/key'', hm_headers = [], hm_body = None\<rparr> ''id'' [] (Some stored) = Some None"
proof -
  let ?names = "[''x-amz-checksum-md5'']" and ?hs = "[''x-amz-checksum-md5'' \<mapsto> ''abc'']"
  have header: "aws_s3_is_checksum_value_header_name example_str ''x-amz-checksum-md5''"
    by (simp add: aws_s3_is_checksum_value_header_name_def example_str_def ascii_lower_def)
  have none: "\<forall>a \<in> set s_checksum_algo_priority_list. ?hs (aws_get_http_header_name_from_checksum_algorithm a) = None"
    by (simp add: s_checksum_algo_priority_list_def)
  have "s_byte_buf_to_upper (str_advance example_str ''x-amz-checksum-md5'' (length ''x-amz-checksum-'')) = ''MD5''"
    by code_simp
  then obtain stored where stored:
    "aws_s3_meta_request_checksum_config_storage_init example_str (Some example_upload_config) ?names ?hs = Inr stored"
    "st_unknown_checksum_algo stored = ''MD5''"
    using header by (simp add: aws_s3_meta_request_checksum_config_storage_init_def s_init_and_verify_checksum_config_from_headers_def
        example_upload_config_def s_checksum_algo_priority_list_def zero_checksum_config_storage_def Let_def)
  then show ?thesis
    using unknown_checksum_upload_cannot_complete [OF example_http_ok stored(1) _ none] header by simp
qed

end
