(* ===== verification/Spec2Isabelle.thy ===== *)
theory Spec2Isabelle
  imports S3_Ranges S3_Buffer_Pool_Theorems S3_Delivered_Parts S3_Util S3_Finish S3_Memory_Limits S3_Get_Theorems S3_Messages
begin

text \<open>
  A verification development for aws-c-s3, the S3 client library of the AWS Common Runtime.

  \<^bold>\<open>The program.\<close> A client turns one operation of the user, a \<^emph>\<open>meta request\<close>, into many HTTP requests that run in
  parallel. A download (\<^verbatim>\<open>source/s3_auto_ranged_get.c\<close>) discovers the size of the object, asks for its parts, and
  hands the bodies to the user in order or as they come; an upload cuts its body into parts and completes the
  multipart upload with a list of them. The base type of every meta request (\<^verbatim>\<open>source/s3_meta_request.c\<close>) receives
  responses, queues and delivers bodies, validates checksums and finishes with one result. Bodies live in memory
  of a buffer pool (\<^verbatim>\<open>source/s3_default_buffer_pool.c\<close>) that keeps the client within its memory limit.
  Checksums (\<^verbatim>\<open>source/s3_checksums.c\<close>), body streams (\<^verbatim>\<open>source/s3_checksum_stream.c\<close>, \<^verbatim>\<open>source/s3_chunk_stream.c\<close>),
  messages (\<^verbatim>\<open>source/s3_request_messages.c\<close>) and text utilities (\<^verbatim>\<open>source/s3_util.c\<close>) serve them.

  \<^bold>\<open>Conventions.\<close> Integers keep their C width as words, \<open>size_t\<close> being 64 bits; structures are records, error codes
  the datatype \<open>aws_error\<close>, and a function that can fail returns \<open>aws_error + 'a\<close>. \<open>None\<close> stands for a failed
  \<open>AWS_FATAL_ASSERT\<close> or a null pointer that is read, so a theorem that gives \<open>Some\<close> excludes both. A critical section is
  one step. Names are those of the source; a definition named differently is a fragment of a function and its
  text says which. Code of other libraries (aws-c-common, aws-c-io, aws-c-http, aws-c-cal, aws-checksums), the
  user's callbacks and the file system are parameters, fields of the records \<open>aws_math\<close>, \<open>str_lib\<close>, \<open>hash_lib\<close>,
  \<open>stream_lib\<close>, \<open>http_lib\<close> and of the environments \<open>sink_env\<close>, \<open>response_env\<close>, \<open>get_env\<close>. What the
  code relies on of them is a named hypothesis (\<open>str_ok\<close>, \<open>crc_ok\<close>, \<open>be_ok\<close>, \<open>base64_ok\<close>, \<open>http_ok\<close>, \<open>queue_ok\<close>, the
  locale \<open>input_stream\<close>), and the examples have an instance of each. A priority queue is a sorted list whose push
  is a parameter.

  \<^bold>\<open>The theories.\<close>
  \<^item> \<open>S3_Prelude\<close>: the types, error codes, word lemmas, reachability (\<open>reach\<close>) and the locale \<open>invariant_of\<close> of
    transition systems with an invariant, interpreted for the buffer pool, the events of a meta request and downloads.
  \<^item> \<open>S3_Ranges\<close> (\<^verbatim>\<open>s3_util.c\<close>): cutting objects into parts. C1: the ranged gets tile the object range. C2: the part
    size of an upload is the least that respects the configured one and 10,000 parts. C3: derived part sizes are the least
    one or fit the memory limit.
  \<^item> \<open>S3_Buffer_Pool\<close>, \<open>..._Inv\<close>, \<open>..._Safety\<close>, \<open>..._Theorems\<close> (\<^verbatim>\<open>s3_default_buffer_pool.c\<close>): the pool, its
    invariant and the transition system of the pool with its outstanding tickets and the futures of its reservations. C4:
    claimed buffers are disjoint. C5: the memory limit. C6: claiming and releasing fail no assertion. C7: nothing leaks. C8,
    C9: waiting reservations are served in order, the first one when the last ticket is released. C10: a reservation on the
    caller's buffer gets the view in bounds, or an error. C11: a counter wraps when a forced ticket is released unclaimed.
    The system includes such releases, and the state records the tickets concerned (\<open>pw_forfeited\<close>): C5, C7 and C9
    say what their bytes change. Its bounds are \<open>2^62\<close> bytes for the configured limit, for the memory claimed by force
    at one time and for the forfeited tickets together, and the allocator returns memory that is not in use.
  \<^item> \<open>S3_Request\<close> (\<^verbatim>\<open>s3_request.c\<close>, \<^verbatim>\<open>s3.c\<close>): requests and operation names, C12.
  \<^item> \<open>S3_Meta_Request\<close>, \<open>S3_Delivery\<close>, \<open>S3_Delivered_Parts\<close> (\<^verbatim>\<open>s3_meta_request.c\<close>): the queue of bodies, the event
    delivery task, the read window, the mask and the prefix of delivered parts. C14 to C17: the delivery task
    implements a byte stream, it stops after the result, and bodies are queued in part order. C18, C19:
    the mask and the prefix record exactly what was delivered.
  \<^item> \<open>S3_Util\<close> (\<^verbatim>\<open>s3_util.c\<close>): parsers of headers, ETags and XML, user-agent header. C20 to C24.
  \<^item> \<open>S3_Checksums\<close>, \<open>S3_Response\<close>, \<open>S3_Finish\<close> (\<^verbatim>\<open>s3_checksums.c\<close>, \<^verbatim>\<open>s3_meta_request.c\<close>): running and combined
    checksums, the callbacks of a response, the finish. C25: combining the digests of the parts validates the object
    exactly as hashing it in order does, whatever order the parts arrive in.
  \<^item> \<open>S3_Config\<close>, \<open>S3_Memory_Limits\<close> (\<^verbatim>\<open>s3_client.c\<close>): limits of connections, requests and memory.
  \<^item> \<open>S3_Auto_Ranged_Get\<close>, \<open>S3_Spread\<close>, \<open>S3_Get_Download\<close>, \<open>S3_Get_Inv\<close>, \<open>S3_Get_Theorems\<close>
    (\<^verbatim>\<open>s3_auto_ranged_get.c\<close>): creation, update, discovery and completion of a download, the spread of its
    requests over regions of the object, and the transition system of a download in which requests complete in any
    order with any response. C13 (in \<open>S3_Get_Download\<close>, for every sequence of events): the delivery task fails no
    assertion. C26: the requests for parts partition what the discovery left. C27: nothing is in flight at the end.
    C28: success means every part was delivered. C29: a cancelled download reports a validation.
  \<^item> \<open>S3_Streams\<close> (\<^verbatim>\<open>s3_checksum_context.c\<close>, \<^verbatim>\<open>s3_checksum_stream.c\<close>, \<^verbatim>\<open>s3_chunk_stream.c\<close>): the body streams of
    uploads. C30: the chunk stream produces the aws-chunked encoding under reads of any sizes, and every read returns.
    C31: the end of an empty body is reported early.
  \<^item> \<open>S3_Messages\<close> (\<^verbatim>\<open>s3_request_messages.c\<close>): the messages derived from the caller's message. C32: an UploadPart
    message with a CRC trailer describes the body it sends. C33: the payload that completes an upload reads back as its parts. C34: an
    upload with a checksum of an unknown algorithm cannot be completed.

  \<^bold>\<open>Loops.\<close> Loops over lists and counters are structural recursion. The loop of a chunk stream, which ends only if the
  streams below keep their contract, is a \<open>partial_function\<close> with \<open>None\<close> for a loop that does not end; C30 shows
  that it returns. No definition has fuel.

  \<^bold>\<open>Not modelled.\<close> The upload state machine (\<^verbatim>\<open>s3_auto_ranged_put.c\<close>), multipart copies (\<^verbatim>\<open>s3_copy_object.c\<close>) and
  single-request meta requests (\<^verbatim>\<open>s3_default_meta_request.c\<close>): their messages, bodies, base type and part sizes are, the
  order of their requests is not. The life cycle and scheduling of the client and its connections (\<^verbatim>\<open>s3_client.c\<close>,
  \<^verbatim>\<open>s3_endpoint.c\<close>), retries and signing: they are callbacks into the HTTP, authentication and event loop libraries.
  The paginator and the list operations, the parallel and part input streams: I/O and callbacks around an XML parser
  and files. Endpoint resolution and platform tables are generated data. The S3 Express credentials provider is a
  cache of what the service and the authentication library return. Logging, reference counts, metrics and the
  destruction of structures have no part in the properties.
\<close>

end
